(* ===== verification/Prelude.thy ===== *)
theory Prelude
  imports Main "HOL-Library.Char_ord" "HOL-Library.List_Lexorder" "HOL-Library.AList"
    "HOL-Library.Multiset" "HOL-Library.Sublist"
begin

text \<open>
  Shared vocabulary of the development: results with errors as values, the fragment of
  Python's strings, lists and dictionaries that the source uses, and the generic lemmas
  about them.

  A Python \<open>str\<close> is a \<open>string\<close> (its characters are the code points 0..255), a
  \<open>bytes\<close> value is a \<open>string\<close> as well (its characters are the bytes), an \<open>int\<close> is
  an unbounded \<open>int\<close>, and a \<open>dict\<close> is an association list in insertion order:
  \<open>AList.update\<close> overwrites in place or appends, as assignment to a key does.
\<close>

type_synonym bytes = string
type_synonym 'v dict = "(string \<times> 'v) list"

named_theorems py_simps \<open>equations of the Python helpers, for evaluation\<close>

section \<open>Results\<close>

text \<open>Running a raising function over a list in order, stopping at the first error.\<close>

fun map_result :: "('a \<Rightarrow> 'e + 'b) \<Rightarrow> 'a list \<Rightarrow> 'e + 'b list" where
  "map_result f [] = Inr []"
| "map_result f (x # xs) =
     (case f x of Inl e \<Rightarrow> Inl e
      | Inr y \<Rightarrow> (case map_result f xs of Inl e \<Rightarrow> Inl e | Inr ys \<Rightarrow> Inr (y # ys)))"

definition is_ok :: "'e + 'a \<Rightarrow> bool" where
  "is_ok r = (case r of Inl _ \<Rightarrow> False | Inr _ \<Rightarrow> True)"

lemma is_ok_simps [simp]: "is_ok (Inr x)" "\<not> is_ok (Inl e)"
  by (simp_all add: is_ok_def)

lemma is_ok_iff: "is_ok r \<longleftrightarrow> (\<exists>x. r = Inr x)"
  by (cases r) simp_all

lemma map_sum_Inr_iff: "map_sum id f r = Inr y \<longleftrightarrow> (\<exists>x. r = Inr x \<and> y = f x)"
  by (cases r) auto

lemma map_result_Inr_iff:
  "map_result f xs = Inr ys \<longleftrightarrow> list_all2 (\<lambda>x y. f x = Inr y) xs ys"
proof (induction xs arbitrary: ys)
  case (Cons x xs)
  show ?case
    by (cases "f x"; cases "map_result f xs"; cases ys) (auto simp: Cons.IH [symmetric])
qed auto

lemma map_result_total: "(\<And>x. x \<in> set xs \<Longrightarrow> f x = Inr (g x)) \<Longrightarrow> map_result f xs = Inr (map g xs)"
  by (induction xs) auto

lemma map_result_length: "map_result f xs = Inr ys \<Longrightarrow> length ys = length xs"
  by (simp add: map_result_Inr_iff list_all2_lengthD)

lemma map_result_stops: "x \<in> set xs \<Longrightarrow> f x = Inl e \<Longrightarrow> \<exists>e'. map_result f xs = Inl e'"
  by (induction xs) (auto split: sum.splits)

lemma map_result_InlD: "map_result f xs = Inl e \<Longrightarrow> \<exists>x \<in> set xs. f x = Inl e"
  by (induction xs) (auto split: sum.splits)

lemma map_result_append:
  "map_result f (xs @ ys) =
     (case map_result f xs of Inl e \<Rightarrow> Inl e
      | Inr us \<Rightarrow> (case map_result f ys of Inl e \<Rightarrow> Inl e | Inr vs \<Rightarrow> Inr (us @ vs)))"
  by (induction xs) (auto split: sum.splits)

section \<open>Characters and strings\<close>

text \<open>The code point of a character.\<close>

abbreviation ord :: "char \<Rightarrow> nat" where "ord \<equiv> of_char"
abbreviation chr :: "nat \<Rightarrow> char" where "chr \<equiv> char_of"

definition is_digit :: "char \<Rightarrow> bool" where
  "is_digit c \<longleftrightarrow> 48 \<le> ord c \<and> ord c \<le> 57"

text \<open>The class \<open>[0-9a-f]\<close>.\<close>

definition is_lower_hex :: "char \<Rightarrow> bool" where
  "is_lower_hex c \<longleftrightarrow> is_digit c \<or> (97 \<le> ord c \<and> ord c \<le> 102)"

text \<open>\<open>re.compile(r"[0-9a-f]{64}").fullmatch\<close>, the pattern of a SHA-256 in hexadecimal.\<close>

definition is_sha256_hex :: "string \<Rightarrow> bool" where
  "is_sha256_hex s \<longleftrightarrow> length s = 64 \<and> list_all is_lower_hex s"

text \<open>\<open>str.isspace\<close> on the modelled code points; \<open>str.strip\<close>.\<close>

definition is_space :: "char \<Rightarrow> bool" where
  "is_space c \<longleftrightarrow> (9 \<le> ord c \<and> ord c \<le> 13) \<or> (28 \<le> ord c \<and> ord c \<le> 32)
     \<or> ord c = 133 \<or> ord c = 160"

definition py_strip :: "string \<Rightarrow> string" where
  "py_strip s = rev (dropWhile is_space (rev (dropWhile is_space s)))"

text \<open>\<open>str.lower\<close> on the modelled code points.\<close>

definition py_lower_char :: "char \<Rightarrow> char" where
  "py_lower_char c =
     (if (65 \<le> ord c \<and> ord c \<le> 90) \<or> (192 \<le> ord c \<and> ord c \<le> 222 \<and> ord c \<noteq> 215)
      then chr (ord c + 32) else c)"

definition py_lower :: "string \<Rightarrow> string" where
  "py_lower s = map py_lower_char s"

text \<open>\<open>str.startswith\<close> is \<open>prefix\<close>; \<open>str.removeprefix\<close>.\<close>

definition removeprefix :: "string \<Rightarrow> string \<Rightarrow> string" where
  "removeprefix p s = (if prefix p s then drop (length p) s else s)"

text \<open>Category \<open>Cc\<close> of the Unicode database.\<close>

definition is_control :: "char \<Rightarrow> bool" where
  "is_control c \<longleftrightarrow> ord c < 32 \<or> (127 \<le> ord c \<and> ord c \<le> 159)"

text \<open>\<open>str.split(sep)\<close> with a one-character separator.\<close>

fun split_on :: "char \<Rightarrow> string \<Rightarrow> string list" where
  "split_on d [] = [[]]"
| "split_on d (c # cs) =
     (if c = d then [] # split_on d cs
      else (case split_on d cs of [] \<Rightarrow> [[c]] | w # ws \<Rightarrow> (c # w) # ws))"

text \<open>\<open>sep.join(parts)\<close>.\<close>

fun join :: "string \<Rightarrow> string list \<Rightarrow> string" where
  "join sep [] = []"
| "join sep [w] = w"
| "join sep (w # ws) = w @ sep @ join sep ws"

lemma length_join: "length (join sep ws) = sum_list (map length ws) + length sep * (length ws - 1)"
  by (induction sep ws rule: join.induct) auto

text \<open>\<open>str.partition(sep)\<close> with a one-character separator: head, separator, tail.\<close>

definition py_partition :: "char \<Rightarrow> string \<Rightarrow> string \<times> string \<times> string" where
  "py_partition d s =
     (let h = takeWhile (\<lambda>c. c \<noteq> d) s; t = dropWhile (\<lambda>c. c \<noteq> d) s
      in if t = [] then (h, [], []) else (h, [d], tl t))"

text \<open>The truth value of an optional string: present and not empty.\<close>

definition truthy :: "string option \<Rightarrow> bool" where
  "truthy s = (case s of None \<Rightarrow> False | Some t \<Rightarrow> t \<noteq> [])"

text \<open>\<open>a or b\<close> on optional strings.\<close>

definition or_str :: "string option \<Rightarrow> string option \<Rightarrow> string option" where
  "or_str a b = (if truthy a then a else b)"

lemma truthy_simps [simp]: "\<not> truthy None" "truthy (Some s) \<longleftrightarrow> s \<noteq> []"
  by (simp_all add: truthy_def)

lemma split_on_not_Nil [simp]: "split_on d s \<noteq> []"
  by (induction s) (auto split: list.splits)

lemma split_on_no_sep [simp]: "d \<notin> set s \<Longrightarrow> split_on d s = [s]"
  by (induction s) auto

lemma split_on_append_sep: "d \<notin> set s \<Longrightarrow> split_on d (s @ d # t) = s # split_on d t"
  by (induction s) auto

lemma set_split_on: "w \<in> set (split_on d s) \<Longrightarrow> d \<notin> set w"
  by (induction s arbitrary: w) (auto split: list.splits if_splits)

lemma join_split_on [simp]: "join [d] (split_on d s) = s"
proof (induction s)
  case (Cons c s)
  then show ?case
    by (cases "split_on d s"; cases "tl (split_on d s)") auto
qed simp

lemma split_on_join:
  "ws \<noteq> [] \<Longrightarrow> \<forall>w \<in> set ws. d \<notin> set w \<Longrightarrow> split_on d (join [d] ws) = ws"
  by (induction "[d]" ws rule: join.induct) (auto simp: split_on_append_sep)

lemma join_inj:
  assumes "ws \<noteq> []" "vs \<noteq> []" "\<forall>w \<in> set ws. d \<notin> set w" "\<forall>w \<in> set vs. d \<notin> set w"
    and "join [d] ws = join [d] vs"
  shows "ws = vs"
  using assms split_on_join by metis

lemma removeprefix_other: "\<not> prefix p s \<Longrightarrow> removeprefix p s = s"
  by (simp add: removeprefix_def)

lemma removeprefix_append [simp]: "removeprefix p (p @ s) = s"
  by (simp add: removeprefix_def)

section \<open>Hexadecimal\<close>

definition hex_digit :: "nat \<Rightarrow> char" where
  "hex_digit n = (if n < 10 then chr (48 + n) else chr (87 + n))"

definition hex_value :: "char \<Rightarrow> nat" where
  "hex_value c = (if is_digit c then ord c - 48 else ord c - 87)"

text \<open>\<open>bytes.hex()\<close> and \<open>bytes.fromhex\<close> on canonical input.\<close>

fun to_hex :: "bytes \<Rightarrow> string" where
  "to_hex [] = []"
| "to_hex (b # bs) = hex_digit (ord b div 16) # hex_digit (ord b mod 16) # to_hex bs"

fun of_hex :: "string \<Rightarrow> bytes" where
  "of_hex (a # b # cs) = chr (16 * hex_value a + hex_value b) # of_hex cs"
| "of_hex _ = []"

lemma ord_less [simp]: "ord c < (256::nat)"
  using of_char_mod_256 [of c, where 'a=nat] by (metis mod_less_divisor zero_less_numeral)

lemma ord_chr [simp]: "n < 256 \<Longrightarrow> ord (chr n) = (n::nat)"
  by (simp add: of_char_of)

lemma hex_digit_value [simp]: "n < 16 \<Longrightarrow> hex_value (hex_digit n) = n"
  by (auto simp: hex_digit_def hex_value_def is_digit_def)

lemma hex_digit_lower [simp]: "n < 16 \<Longrightarrow> is_lower_hex (hex_digit n)"
  by (auto simp: hex_digit_def is_lower_hex_def is_digit_def)

lemma of_hex_to_hex [simp]: "of_hex (to_hex bs) = bs"
proof (induction bs)
  case (Cons b bs)
  have "ord b div 16 < 16" using ord_less [of b] by (simp add: less_mult_imp_div_less)
  then show ?case using Cons by simp
qed simp

lemma hex_pair:
  assumes "is_lower_hex a" and "is_lower_hex b"
  shows "hex_digit (ord (chr (16 * hex_value a + hex_value b)) div 16) = a"
    and "hex_digit (ord (chr (16 * hex_value a + hex_value b)) mod 16) = b"
proof -
  have v: "hex_value c < 16 \<and> hex_digit (hex_value c) = c" if "is_lower_hex c" for c
    using that by (auto simp: is_lower_hex_def hex_value_def hex_digit_def is_digit_def)
  then have "hex_value a < 16" "hex_value b < 16" using assms by blast+
  then have "ord (chr (16 * hex_value a + hex_value b)) = 16 * hex_value a + hex_value b" by simp
  then show "hex_digit (ord (chr (16 * hex_value a + hex_value b)) div 16) = a"
    "hex_digit (ord (chr (16 * hex_value a + hex_value b)) mod 16) = b"
    using v assms \<open>hex_value b < 16\<close> by simp_all
qed

lemma to_hex_length [simp]: "length (to_hex bs) = 2 * length bs"
  by (induction bs) auto

lemma to_hex_lower: "list_all is_lower_hex (to_hex bs)"
proof (induction bs)
  case (Cons b bs)
  have "ord b div 16 < 16" using ord_less [of b] by (simp add: less_mult_imp_div_less)
  then show ?case using Cons by simp
qed simp

lemma to_hex_inj [simp]: "to_hex a = to_hex b \<longleftrightarrow> a = b"
  by (metis of_hex_to_hex)

section \<open>UTF-8\<close>

text \<open>\<open>str.encode("utf-8")\<close> on the modelled code points: the identity on ASCII.\<close>

definition utf8_char :: "char \<Rightarrow> bytes" where
  "utf8_char c = (if ord c < 128 then [c] else [chr (192 + ord c div 64), chr (128 + ord c mod 64)])"

definition utf8 :: "string \<Rightarrow> bytes" where
  "utf8 s = concat (map utf8_char s)"

lemma utf8_ascii: "list_all (\<lambda>c. ord c < 128) s \<Longrightarrow> utf8 s = s"
  by (induction s) (auto simp: utf8_def utf8_char_def)

lemma utf8_hex: "list_all is_lower_hex s \<Longrightarrow> utf8 s = s"
  by (rule utf8_ascii) (auto simp: list_all_iff is_lower_hex_def is_digit_def)

section \<open>Sorting by a key\<close>

text \<open>\<open>sorted(xs, key=f)\<close> is the stable \<open>sort_key f xs\<close>; on distinct keys it depends on the
  multiset of elements only.\<close>

lemma filter_eq_distinct: "distinct zs \<Longrightarrow> filter (\<lambda>x. x = k) zs = (if k \<in> set zs then [k] else [])"
  by (induction zs) auto

lemma sort_key_mset_eq:
  assumes "mset xs = mset ys" and "distinct (map f xs)"
  shows "sort_key f xs = sort_key f ys"
proof (rule properties_for_sort_key [symmetric])
  show "mset (sort_key f xs) = mset ys" using assms by simp
  show "sorted (map f (sort_key f xs))" by simp
  fix k assume "k \<in> set (sort_key f xs)"
  then have k: "k \<in> set xs" by simp
  have inj: "inj_on f (set xs)" and dx: "distinct xs"
    using assms(2) by (simp_all add: distinct_map)
  have dy: "distinct ys" using dx assms(1) mset_eq_imp_distinct_iff by blast
  have sy: "set ys = set xs" using assms(1) mset_eq_setD by metis
  have "filter (\<lambda>x. f k = f x) zs = [k]" if "distinct zs" "set zs = set xs" for zs
  proof -
    have "filter (\<lambda>x. f k = f x) zs = filter (\<lambda>x. x = k) zs"
      using inj k that(2) by (intro filter_cong) (auto dest: inj_onD)
    also have "\<dots> = [k]" using that k by (simp add: filter_eq_distinct)
    finally show ?thesis .
  qed
  then show "filter (\<lambda>x. f k = f x) (sort_key f xs) = filter (\<lambda>x. f k = f x) ys"
    using dx dy sy by simp
qed

lemma distinct_map_sort_key [simp]: "distinct (map f (sort_key g xs)) = distinct (map f xs)"
proof -
  have "mset (map f (sort_key g xs)) = mset (map f xs)" by simp
  then show ?thesis by (rule mset_eq_imp_distinct_iff)
qed

section \<open>Dictionaries\<close>

lemma map_of_update [simp]: "map_of (AList.update k v d) k' = (if k' = k then Some v else map_of d k')"
  by (simp add: update_conv')

lemma dict_keys_update:
  "fst ` set (AList.update k v d) = insert k (fst ` set d)"
  by (simp add: dom_update)

end
