(* ===== verification/Json.thy ===== *)
theory Json
  imports Prelude
begin

text \<open>
  The part of Python's \<open>json\<close> module the source relies on: \<open>dumps\<close> is
  \<open>json.dumps(v, sort_keys=True, separators=(",", ":"))\<close>, the canonical form every digest
  and signature is computed over, and \<open>loads\<close> is \<open>json.loads\<close>.  The theory shows that
  \<open>loads\<close> reads back what \<open>dumps\<close> wrote, so that the canonical form identifies the
  document: this is what lets a digest of the canonical bytes stand for the document.

  A number with a fraction or an exponent (and \<open>NaN\<close>, \<open>Infinity\<close>) is kept as its text.
  An escape of a code point above 255 is outside the alphabet of \<open>string\<close> and is refused.
\<close>

datatype json =
    JNull
  | JBool bool
  | JInt int
  | JFloat string
  | JStr string
  | JList "json list"
  | JObj "(string \<times> json) list"

section \<open>Writing\<close>

fun nat_str :: "nat \<Rightarrow> string" where
  "nat_str n = (if n < 10 then [chr (48 + n)] else nat_str (n div 10) @ [chr (48 + n mod 10)])"

declare nat_str.simps [simp del]

definition int_str :: "int \<Rightarrow> string" where
  "int_str i = (if i < 0 then CHR ''-'' # nat_str (nat (- i)) else nat_str (nat i))"

definition esc_char :: "char \<Rightarrow> string" where
  "esc_char c =
     (if c = CHR 0x22 then [CHR 0x5C, CHR 0x22]
      else if c = CHR 0x5C then [CHR 0x5C, CHR 0x5C]
      else if c = CHR 0x0A then [CHR 0x5C, CHR ''n'']
      else if c = CHR 0x0D then [CHR 0x5C, CHR ''r'']
      else if c = CHR 0x09 then [CHR 0x5C, CHR ''t'']
      else if c = CHR 0x0C then [CHR 0x5C, CHR ''f'']
      else if c = CHR 0x08 then [CHR 0x5C, CHR ''b'']
      else if 32 \<le> ord c \<and> ord c \<le> 126 then [c]
      else [CHR 0x5C, CHR ''u'', CHR ''0'', CHR ''0'', hex_digit (ord c div 16), hex_digit (ord c mod 16)])"

definition str_body :: "string \<Rightarrow> string" where
  "str_body s = concat (map esc_char s) @ [CHR 0x22]"

definition enc_str :: "string \<Rightarrow> string" where
  "enc_str s = CHR 0x22 # str_body s"

fun dumps :: "json \<Rightarrow> string" where
  "dumps JNull = ''null''"
| "dumps (JBool b) = (if b then ''true'' else ''false'')"
| "dumps (JInt i) = int_str i"
| "dumps (JFloat t) = t"
| "dumps (JStr s) = enc_str s"
| "dumps (JList vs) = CHR ''['' # join '','' (map dumps vs) @ '']''"
| "dumps (JObj kvs) =
     CHR ''{'' # join '','' (map (\<lambda>(k, t). enc_str k @ '':'' @ t)
       (sort_key fst (map (\<lambda>(k, v). (k, dumps v)) kvs))) @ ''}''"

section \<open>Reading\<close>

definition is_ws :: "char \<Rightarrow> bool" where
  "is_ws c \<longleftrightarrow> c = CHR '' '' \<or> c = CHR 0x09 \<or> c = CHR 0x0A \<or> c = CHR 0x0D"

definition skip_ws :: "string \<Rightarrow> string" where
  "skip_ws s = dropWhile is_ws s"

definition is_hex :: "char \<Rightarrow> bool" where
  "is_hex c \<longleftrightarrow> is_lower_hex c \<or> (65 \<le> ord c \<and> ord c \<le> 70)"

definition any_hex_value :: "char \<Rightarrow> nat" where
  "any_hex_value c = hex_value (if 65 \<le> ord c \<and> ord c \<le> 70 then chr (ord c + 32) else c)"

fun pstr :: "string \<Rightarrow> (string \<times> string) option" where
  "pstr [] = None"
| "pstr (c # cs) =
     (if c = CHR 0x22 then Some ([], cs)
      else if c \<noteq> CHR 0x5C then
        (if ord c < 32 then None else map_option (map_prod ((#) c) id) (pstr cs))
      else (case cs of
          [] \<Rightarrow> None
        | e # es \<Rightarrow>
            if e = CHR ''u'' then
              (case es of
                 a # b # x # y # r \<Rightarrow>
                   (let n = 4096 * any_hex_value a + 256 * any_hex_value b
                            + 16 * any_hex_value x + any_hex_value y
                    in if list_all is_hex [a, b, x, y] \<and> n < 256
                       then map_option (map_prod ((#) (chr n)) id) (pstr r) else None)
               | _ \<Rightarrow> None)
            else
              (case map_of [(CHR 0x22, CHR 0x22), (CHR 0x5C, CHR 0x5C), (CHR ''/'', CHR ''/''),
                   (CHR ''b'', CHR 0x08), (CHR ''f'', CHR 0x0C), (CHR ''n'', CHR 0x0A),
                   (CHR ''r'', CHR 0x0D), (CHR ''t'', CHR 0x09)] e of
                 None \<Rightarrow> None
               | Some d \<Rightarrow> map_option (map_prod ((#) d) id) (pstr es))))"

declare pstr.simps [simp del]

text \<open>The number token \<open>(-?(?:0|[1-9]\d*))(\.\d+)?([eE][-+]?\d+)?\<close>.\<close>

definition digits_value :: "string \<Rightarrow> int" where
  "digits_value ds = foldl (\<lambda>a c. 10 * a + int (ord c) - 48) 0 ds"

definition pdigits :: "string \<Rightarrow> string \<times> string" where
  "pdigits s = (takeWhile is_digit s, dropWhile is_digit s)"

definition int_token :: "string \<Rightarrow> string \<times> string" where
  "int_token t =
     (case t of
        [] \<Rightarrow> ([], [])
      | c # t' \<Rightarrow> if c = CHR ''0'' then ([c], t') else pdigits t)"

definition pfrac :: "string \<Rightarrow> string \<times> string" where
  "pfrac s = (case s of
     c # t \<Rightarrow> (if c = CHR ''.'' then
        (case pdigits t of (ds, r) \<Rightarrow> if ds = [] then ([], s) else (c # ds, r)) else ([], s))
   | [] \<Rightarrow> ([], s))"

definition pexp :: "string \<Rightarrow> string \<times> string" where
  "pexp s = (case s of
     c # t \<Rightarrow> (if c = CHR ''e'' \<or> c = CHR ''E'' then
        (let sg = (case t of x # _ \<Rightarrow> if x = CHR ''+'' \<or> x = CHR ''-'' then [x] else [] | [] \<Rightarrow> [])
         in case pdigits (drop (length sg) t) of
              (ds, r) \<Rightarrow> if ds = [] then ([], s) else (c # sg @ ds, r))
        else ([], s))
   | [] \<Rightarrow> ([], s))"

definition pnum :: "string \<Rightarrow> (json \<times> string) option" where
  "pnum s =
     (let neg = (case s of c # _ \<Rightarrow> c = CHR ''-'' | [] \<Rightarrow> False);
          t = (if neg then tl s else s);
          (ds, r) = int_token t;
          (fr, r1) = pfrac r; (ex, r2) = pexp r1
      in if ds = [] then None
         else if fr = [] \<and> ex = []
         then Some (JInt (if neg then - digits_value ds else digits_value ds), r)
         else Some (JFloat ((if neg then ''-'' else []) @ ds @ fr @ ex), r2))"

definition keyword :: "string \<Rightarrow> (json \<times> string) option" where
  "keyword s =
     (if prefix ''null'' s then Some (JNull, drop 4 s)
      else if prefix ''true'' s then Some (JBool True, drop 4 s)
      else if prefix ''false'' s then Some (JBool False, drop 5 s)
      else if prefix ''NaN'' s then Some (JFloat ''NaN'', drop 3 s)
      else if prefix ''Infinity'' s then Some (JFloat ''Infinity'', drop 8 s)
      else if prefix ''-Infinity'' s then Some (JFloat ''-Infinity'', drop 9 s)
      else pnum s)"

text \<open>A dictionary built from pairs: the last value of a key wins, at its first position.\<close>

definition dict_of_pairs :: "(string \<times> 'v) list \<Rightarrow> 'v dict" where
  "dict_of_pairs kvs = fold (\<lambda>(k, v). AList.update k v) kvs []"

text \<open>
  Values, array elements and object members.  Each call uses one unit of fuel; a text of
  length \<open>n\<close> needs at most \<open>n + 1\<close>, since every nested call starts further right.
\<close>

fun pval :: "nat \<Rightarrow> string \<Rightarrow> (json \<times> string) option"
and pelems :: "nat \<Rightarrow> string \<Rightarrow> (json list \<times> string) option"
and pmembers :: "nat \<Rightarrow> string \<Rightarrow> ((string \<times> json) list \<times> string) option" where
  "pval 0 s = None"
| "pval (Suc n) s =
     (case s of
        [] \<Rightarrow> None
      | c # cs \<Rightarrow>
          if c = CHR 0x22 then map_option (map_prod JStr id) (pstr cs)
          else if c = CHR ''['' then
            (if prefix '']'' (skip_ws cs) then Some (JList [], tl (skip_ws cs))
             else map_option (map_prod JList id) (pelems n (skip_ws cs)))
          else if c = CHR ''{'' then
            (if prefix ''}'' (skip_ws cs) then Some (JObj [], tl (skip_ws cs))
             else map_option (map_prod (JObj \<circ> dict_of_pairs) id) (pmembers n (skip_ws cs)))
          else keyword s)"
| "pelems 0 s = None"
| "pelems (Suc n) s =
     (case pval n s of
        None \<Rightarrow> None
      | Some (v, r) \<Rightarrow>
          if prefix '']'' (skip_ws r) then Some ([v], tl (skip_ws r))
          else if prefix '','' (skip_ws r)
          then map_option (map_prod ((#) v) id) (pelems n (skip_ws (tl (skip_ws r))))
          else None)"
| "pmembers 0 s = None"
| "pmembers (Suc n) s =
     (if \<not> prefix [CHR 0x22] s then None
      else case pstr (tl s) of
        None \<Rightarrow> None
      | Some (k, r) \<Rightarrow>
          if \<not> prefix '':'' (skip_ws r) then None
          else case pval n (skip_ws (tl (skip_ws r))) of
            None \<Rightarrow> None
          | Some (v, r') \<Rightarrow>
              if prefix ''}'' (skip_ws r') then Some ([(k, v)], tl (skip_ws r'))
              else if prefix '','' (skip_ws r')
              then map_option (map_prod ((#) (k, v)) id) (pmembers n (skip_ws (tl (skip_ws r'))))
              else None)"

definition loads :: "string \<Rightarrow> json option" where
  "loads s =
     (case pval (Suc (length s)) (skip_ws s) of
        None \<Rightarrow> None
      | Some (v, r) \<Rightarrow> if skip_ws r = [] then Some v else None)"

section \<open>The normal form a document is read back as\<close>

fun canon :: "json \<Rightarrow> json" where
  "canon (JList vs) = JList (map canon vs)"
| "canon (JObj kvs) = JObj (sort_key fst (map (\<lambda>(k, v). (k, canon v)) kvs))"
| "canon v = v"

fun wf_json :: "json \<Rightarrow> bool" where
  "wf_json (JFloat t) = False"
| "wf_json (JList vs) = (\<forall>v \<in> set vs. wf_json v)"
| "wf_json (JObj kvs) = (distinct (map fst kvs) \<and> (\<forall>(k, v) \<in> set kvs. wf_json v))"
| "wf_json v = True"

section \<open>Reading back what was written\<close>

lemma pstr_esc: "pstr (esc_char c @ r) = map_option (map_prod ((#) c) id) (pstr r)"
proof -
  have "any_hex_value (hex_digit n) = n \<and> is_hex (hex_digit n)" if "n < 16" for n
    using that by (auto simp: any_hex_value_def hex_digit_def hex_value_def is_digit_def is_hex_def
        is_lower_hex_def)
  moreover have "ord c div 16 < 16" "ord c mod 16 < 16"
    using ord_less [of c] by (simp_all add: less_mult_imp_div_less)
  moreover have "any_hex_value CHR ''0'' = 0" "is_hex CHR ''0''" by code_simp+
  ultimately show ?thesis
    by (auto simp: esc_char_def pstr.simps Let_def)
qed

lemma pstr_body: "pstr (str_body s @ r) = Some (s, r)"
  unfolding str_body_def
  by (induction s) (simp add: pstr.simps, simp add: pstr_esc)

lemma nat_str_digits: "list_all is_digit (nat_str n)"
proof (induction n rule: nat_str.induct)
  case (1 n)
  have "n mod 10 < 10" by simp
  then have "48 + n mod 10 < 256" "n mod 10 \<le> 9" by linarith+
  then show ?case using 1 by (subst nat_str.simps) (auto simp: is_digit_def list_all_iff)
qed

lemma nat_str_nonempty [simp]: "nat_str n \<noteq> []"
  by (subst nat_str.simps) simp

lemma digits_value_snoc: "digits_value (ds @ [c]) = 10 * digits_value ds + int (ord c) - 48"
  by (simp add: digits_value_def)

lemma digits_value_nat_str [simp]: "digits_value (nat_str n) = int n"
proof (induction n rule: nat_str.induct)
  case (1 n)
  show ?case
  proof (cases "n < 10")
    case True
    then show ?thesis by (simp add: nat_str.simps [of n] digits_value_def)
  next
    case False
    have "n mod 10 < 10" by simp
    then have "48 + n mod 10 < 256" by linarith
    then have "digits_value (nat_str n) = 10 * digits_value (nat_str (n div 10)) + int (48 + n mod 10) - 48"
      using False by (simp only: nat_str.simps [of n] digits_value_snoc if_False ord_chr)
    also have "\<dots> = 10 * int (n div 10) + int (48 + n mod 10) - 48"
      using False 1 by simp
    also have "\<dots> = int n" by (simp add: zdiv_int zmod_int)
    finally show ?thesis .
  qed
qed

lemma nat_str_head: "hd (nat_str n) = CHR ''0'' \<longleftrightarrow> n = 0"
proof (induction n rule: nat_str.induct)
  case (1 n)
  show ?case
  proof (cases "n < 10")
    case True
    then have "nat_str n = [chr (48 + n)]" by (simp add: nat_str.simps [of n])
    moreover have "chr (48 + n) = CHR ''0'' \<longleftrightarrow> ord (chr (48 + n)) = ord CHR ''0''"
      using of_char_eq_iff by blast
    ultimately show ?thesis using True by simp
  next
    case False
    with 1 show ?thesis by (simp add: nat_str.simps [of n])
  qed
qed

lemma nat_str_0 [simp]: "nat_str 0 = ''0''"
  by code_simp

text \<open>What follows a value inside a document: white space, a separator, a closing bracket or the end.\<close>

definition ends :: "string \<Rightarrow> bool" where
  "ends r \<longleftrightarrow> (case r of [] \<Rightarrow> True | c # _ \<Rightarrow> c \<in> set '',]}'' \<or> is_ws c)"

lemma ends_simps [simp]: "ends []" "ends (c # r) \<longleftrightarrow> c \<in> set '',]}'' \<or> is_ws c"
  by (simp_all add: ends_def)

lemma pdigits_append:
  assumes "list_all is_digit ds" and "ends r"
  shows "pdigits (ds @ r) = (ds, r)"
proof -
  have "takeWhile is_digit r = []" "dropWhile is_digit r = r"
    using assms(2) by (cases r; auto simp: is_digit_def is_ws_def)+
  moreover have "\<And>c. c \<in> set ds \<Longrightarrow> is_digit c" using assms(1) by (simp add: list_all_iff)
  ultimately show ?thesis by (simp add: pdigits_def takeWhile_append2 dropWhile_append2)
qed

lemma pfrac_pexp_ends: "ends r \<Longrightarrow> pfrac r = ([], r) \<and> pexp r = ([], r)"
  by (cases r) (auto simp: pfrac_def pexp_def is_ws_def)

lemma nat_token:
  assumes "ends r"
  shows "int_token (nat_str n @ r) = (nat_str n, r)"
proof (cases "n = 0")
  case False
  then obtain c cs where c: "nat_str n = c # cs" "c \<noteq> CHR ''0''"
    using nat_str_head [of n] nat_str_nonempty [of n] by (cases "nat_str n") (auto simp del: nat_str_nonempty)
  then show ?thesis using pdigits_append [OF nat_str_digits assms, of n] by (simp add: int_token_def)
qed (simp add: int_token_def)

lemma hd_nat_str_digit: "is_digit (hd (nat_str n))"
  using nat_str_digits [of n] nat_str_nonempty [of n] by (metis hd_in_set list_all_iff)

lemma pnum_int_str:
  assumes "ends r"
  shows "pnum (int_str i @ r) = Some (JInt i, r)"
proof -
  have hd: "hd (nat_str (nat i) @ r) \<noteq> CHR ''-''"
    using hd_nat_str_digit [of "nat i"] by (auto simp: is_digit_def)
  have neg: "(case nat_str (nat i) @ r of [] \<Rightarrow> False | c # _ \<Rightarrow> c = CHR ''-'') = False"
    using hd by (cases "nat_str (nat i)") auto
  show ?thesis
    using nat_token [OF assms] pfrac_pexp_ends [OF assms]
    by (auto simp: pnum_def int_str_def neg Let_def)
qed

lemma sort_key_fst_map:
  "sort_key fst (map (\<lambda>(k, v). (k, f v)) kvs) = map (\<lambda>(k, v). (k, f v)) (sort_key fst kvs)"
proof -
  have ins: "insort_key fst (k, f v) (map (\<lambda>(k, v). (k, f v)) xs)
      = map (\<lambda>(k, v). (k, f v)) (insort_key fst (k, v) xs)" for k v xs
    by (induction xs) auto
  show ?thesis by (induction kvs) (auto simp: ins split: prod.splits)
qed

lemma map_fst_map_snd [simp]: "map fst (map (\<lambda>(k, v). (k, f v)) kvs) = map fst kvs"
  by (induction kvs) auto

text \<open>How a document starts.\<close>

definition opens :: "string \<Rightarrow> bool" where
  "opens s \<longleftrightarrow> (case s of [] \<Rightarrow> False | c # _ \<Rightarrow> \<not> is_ws c \<and> c \<noteq> CHR '']'' \<and> c \<noteq> CHR ''}'')"

lemma opens_int_str: "opens (int_str i)"
proof -
  have "opens (nat_str n)" for n
    using hd_nat_str_digit [of n] nat_str_nonempty [of n]
    by (cases "nat_str n") (auto simp: opens_def is_digit_def is_ws_def)
  then show ?thesis by (simp add: int_str_def) (simp add: opens_def is_ws_def)
qed

lemma opens_dumps: "wf_json v \<Longrightarrow> opens (dumps v)"
  by (cases v) (auto simp: opens_int_str, auto simp: opens_def is_ws_def enc_str_def)

lemma opens_append: "opens s \<Longrightarrow> opens (s @ r)"
  by (cases s) (auto simp: opens_def)

lemma opens_skip_ws: "opens s \<Longrightarrow> skip_ws s = s"
  by (cases s) (auto simp: opens_def skip_ws_def)

lemma skip_ws_ends [simp]: "c \<in> set '',:]}'' \<Longrightarrow> skip_ws (c # r) = c # r"
  by (auto simp: skip_ws_def is_ws_def)

lemma opens_not_close: "opens s \<Longrightarrow> \<not> prefix '']'' s \<and> \<not> prefix ''}'' s"
  by (cases s) (auto simp: opens_def)

lemma opens_length: "opens s \<Longrightarrow> 0 < length s"
  by (cases s) (auto simp: opens_def)

lemma int_str_shape:
  "(\<exists>c cs. int_str i = c # cs \<and> is_digit c) \<or> (\<exists>c cs. int_str i = CHR ''-'' # c # cs \<and> is_digit c)"
proof -
  have "\<exists>c cs. nat_str n = c # cs \<and> is_digit c" for n
    by (metis hd_nat_str_digit list.collapse nat_str_nonempty)
  then show ?thesis by (simp add: int_str_def)
qed

lemma keyword_int_str:
  assumes "ends r"
  shows "keyword (int_str i @ r) = Some (JInt i, r)"
proof -
  have "keyword (int_str i @ r) = pnum (int_str i @ r)"
    using int_str_shape [of i]
  proof (elim disjE exE conjE)
    fix c cs assume "int_str i = c # cs" "is_digit c"
    moreover from this(2) have "c \<notin> set ''ntfNI-''" by (auto simp: is_digit_def)
    ultimately show ?thesis by (auto simp: keyword_def)
  next
    fix c cs assume "int_str i = CHR ''-'' # c # cs" "is_digit c"
    moreover from this(2) have "c \<noteq> CHR ''I''" by (auto simp: is_digit_def)
    ultimately show ?thesis by (auto simp: keyword_def)
  qed
  then show ?thesis using pnum_int_str [OF assms] by simp
qed

text \<open>A text that is read as a value whatever follows it inside a document.\<close>

definition reads_as :: "string \<Rightarrow> json \<Rightarrow> bool" where
  "reads_as t v \<longleftrightarrow> opens t \<and> (\<forall>n r. length t \<le> n \<longrightarrow> ends r \<longrightarrow> pval n (t @ r) = Some (v, r))"

lemma reads_pval: "reads_as t v \<Longrightarrow> length t \<le> n \<Longrightarrow> ends r \<Longrightarrow> pval n (t @ r) = Some (v, r)"
  by (simp add: reads_as_def)

lemma reads_opens: "reads_as t v \<Longrightarrow> opens t"
  by (simp add: reads_as_def)

lemma opens_join: "ts \<noteq> [] \<Longrightarrow> opens (hd ts) \<Longrightarrow> opens (join sep ts)"
  by (cases ts; cases "tl ts") (auto intro: opens_append)

lemma join_Cons: "ws \<noteq> [] \<Longrightarrow> join sep (w # ws) = w @ sep @ join sep ws"
  by (cases ws) simp_all

text \<open>A reader skips the white space a writer puts between the tokens.\<close>

definition space :: "string \<Rightarrow> bool" where
  "space w \<longleftrightarrow> list_all is_ws w"

lemma space_Nil [simp]: "space []"
  by (simp add: space_def)

lemma skip_space: "space w \<Longrightarrow> skip_ws (w @ r) = skip_ws r"
  by (induction w) (simp_all add: space_def skip_ws_def)

lemma ends_space: "space w \<Longrightarrow> ends r \<Longrightarrow> ends (w @ r)"
  by (cases w) (simp_all add: space_def)

lemma opens_texts: "tvs \<noteq> [] \<Longrightarrow> \<forall>(t, v) \<in> set tvs. reads_as t v \<Longrightarrow> opens (join sep (map fst tvs))"
  by (cases tvs; rule opens_join) (auto intro: reads_opens)

lemma pelems_join:
  assumes "tvs \<noteq> []" and "\<forall>(t, v) \<in> set tvs. reads_as t v" and "space gap" and "space last_gap"
    and "length (join (CHR '','' # gap) (map fst tvs)) < n"
  shows "pelems n (join (CHR '','' # gap) (map fst tvs) @ last_gap @ CHR '']'' # r) = Some (map snd tvs, r)"
  using assms(1,2,5)
proof (induction tvs arbitrary: n)
  case (Cons tv tvs)
  obtain t v m where tv: "tv = (t, v)" and n: "n = Suc m" using Cons by (cases tv; cases n) auto
  have t: "reads_as t v" using Cons.prems tv by auto
  show ?case
  proof (cases "tvs = []")
    case True
    have "pval m (t @ last_gap @ CHR '']'' # r) = Some (v, last_gap @ CHR '']'' # r)"
      using Cons.prems tv n True by (intro reads_pval [OF t] ends_space [OF assms(4)]) auto
    then show ?thesis using True tv n by (simp add: skip_space [OF assms(4)])
  next
    case False
    let ?rest = "join (CHR '','' # gap) (map fst tvs)"
    have j: "join (CHR '','' # gap) (map fst (tv # tvs)) = t @ CHR '','' # gap @ ?rest"
      using False tv by (simp add: join_Cons)
    have "pval m (t @ CHR '','' # gap @ ?rest @ last_gap @ CHR '']'' # r)
        = Some (v, CHR '','' # gap @ ?rest @ last_gap @ CHR '']'' # r)"
      using Cons.prems(3) j n by (intro reads_pval [OF t]) simp_all
    moreover have "skip_ws (gap @ ?rest @ s) = ?rest @ s" for s
      using Cons.prems(2) False by (simp add: skip_space [OF assms(3)] opens_skip_ws opens_append opens_texts)
    moreover have "pelems m (?rest @ last_gap @ CHR '']'' # r) = Some (map snd tvs, r)"
      using Cons.prems False j n by (intro Cons.IH) auto
    ultimately show ?thesis using j tv n by simp
  qed
qed simp

text \<open>The members of an object, a key with the texts of their values: \<open>colon\<close> is what follows the colon.\<close>

definition members_text :: "string \<Rightarrow> string \<Rightarrow> (string \<times> string) list \<Rightarrow> string" where
  "members_text gap colon kts = join (CHR '','' # gap) (map (\<lambda>(k, t). enc_str k @ CHR '':'' # colon @ t) kts)"

lemma members_text_simps:
  "members_text gap colon [(k, t)] = enc_str k @ CHR '':'' # colon @ t"
  "kts \<noteq> [] \<Longrightarrow> members_text gap colon ((k, t) # kts)
     = enc_str k @ CHR '':'' # colon @ t @ CHR '','' # gap @ members_text gap colon kts"
  by (simp_all add: members_text_def join_Cons)

lemma opens_members: "kts \<noteq> [] \<Longrightarrow> opens (members_text gap colon kts)"
  unfolding members_text_def
  by (rule opens_join) (auto simp: enc_str_def opens_def is_ws_def hd_map split: prod.splits)

lemma pmembers_join:
  assumes "kts \<noteq> []" and "\<forall>(k, t) \<in> set kts. reads_as t (f k)" and "space gap" and "space colon" and "space last_gap"
    and "length (members_text gap colon kts) < n"
  shows "pmembers n (members_text gap colon kts @ last_gap @ CHR ''}'' # r) = Some (map (\<lambda>(k, t). (k, f k)) kts, r)"
  using assms(1,2,6)
proof (induction kts arbitrary: n)
  case (Cons kt kts)
  obtain k t m where kt: "kt = (k, t)" and n: "n = Suc m" using Cons by (cases kt; cases n) auto
  have t: "reads_as t (f k)" using Cons.prems kt by auto
  have sk: "skip_ws (colon @ t @ s) = t @ s" for s
    by (simp add: skip_space [OF assms(4)] opens_skip_ws opens_append reads_opens [OF t])
  show ?case
  proof (cases "kts = []")
    case True
    have "pval m (t @ last_gap @ CHR ''}'' # r) = Some (f k, last_gap @ CHR ''}'' # r)"
      using Cons.prems kt n True
      by (intro reads_pval [OF t] ends_space [OF assms(5)]) (auto simp: members_text_simps)
    then show ?thesis using True kt n by (simp add: members_text_simps enc_str_def pstr_body sk skip_space [OF assms(5)])
  next
    case False
    let ?rest = "members_text gap colon kts"
    note j = members_text_simps(2) [OF False, of gap colon k t]
    have "pval m (t @ CHR '','' # gap @ ?rest @ last_gap @ CHR ''}'' # r)
        = Some (f k, CHR '','' # gap @ ?rest @ last_gap @ CHR ''}'' # r)"
      using Cons.prems(3) j n kt by (intro reads_pval [OF t]) simp_all
    moreover have "skip_ws (gap @ ?rest @ s) = ?rest @ s" for s
      using False by (simp add: skip_space [OF assms(3)] opens_skip_ws opens_append opens_members)
    moreover have "pmembers m (?rest @ last_gap @ CHR ''}'' # r) = Some (map (\<lambda>(k, t). (k, f k)) kts, r)"
      using Cons.prems False j n kt by (intro Cons.IH) auto
    ultimately show ?thesis using j kt n by (simp add: enc_str_def pstr_body sk)
  qed
qed simp

lemma dict_of_pairs_distinct:
  assumes "distinct (map fst kvs)"
  shows "dict_of_pairs kvs = kvs"
proof -
  have "fold (\<lambda>(k, v). AList.update k v) kvs d = d @ kvs"
    if "distinct (map fst (d @ kvs))" for d :: "'a dict"
    using that
  proof (induction kvs arbitrary: d)
    case (Cons kv kvs)
    obtain k v where kv: "kv = (k, v)" by (cases kv)
    have "k \<notin> fst ` set d" using Cons.prems kv by auto
    then have "AList.update k v d = d @ [(k, v)]" by (induction d) auto
    then show ?case using Cons kv by simp
  qed simp
  from this [of "[]"] show ?thesis using assms by (simp add: dict_of_pairs_def)
qed

lemma reads_atom:
  assumes "t = c # cs" and "\<not> is_ws c" and "c \<notin> set ''\"[{]}''" and "\<And>r. ends r \<Longrightarrow> keyword (t @ r) = Some (v, r)"
  shows "reads_as t v"
proof -
  have "pval n (t @ r) = Some (v, r)" if "length t \<le> n" "ends r" for n r
    using that assms by (cases n) auto
  then show ?thesis using assms(1-3) by (simp add: reads_as_def opens_def)
qed

lemma reads_keywords: "reads_as ''null'' JNull" "reads_as ''true'' (JBool True)" "reads_as ''false'' (JBool False)"
  by (rule reads_atom [OF refl]; simp add: is_ws_def keyword_def)+

lemma reads_string: "reads_as (enc_str s) (JStr s)"
proof -
  have "pval n (enc_str s @ r) = Some (JStr s, r)" if "length (enc_str s) \<le> n" for n r
    using that by (cases n) (auto simp: enc_str_def pstr_body)
  then show ?thesis by (simp add: reads_as_def enc_str_def opens_def is_ws_def)
qed

lemma reads_int: "reads_as (int_str i) (JInt i)"
proof -
  have "c \<notin> set ''\"[{]}'' \<and> \<not> is_ws c" if "is_digit c" for c
    using that by (auto simp: is_digit_def is_ws_def)
  then obtain c cs where c: "int_str i = c # cs" "c \<notin> set ''\"[{]}''" "\<not> is_ws c"
    using int_str_shape [of i] by (fastforce simp: is_ws_def)
  then show ?thesis by (intro reads_atom [OF c(1,3,2)] keyword_int_str)
qed

lemma reads_empty: "reads_as ''[]'' (JList [])" "reads_as ''{}'' (JObj [])"
proof -
  have "pval n (''[]'' @ r) = Some (JList [], r)" "pval n (''{}'' @ r) = Some (JObj [], r)" if "2 \<le> n" for n r
    using that by (cases n; simp)+
  then show "reads_as ''[]'' (JList [])" "reads_as ''{}'' (JObj [])" by (simp_all add: reads_as_def opens_def is_ws_def)
qed

lemma reads_list:
  assumes "tvs \<noteq> []" and "\<forall>(t, v) \<in> set tvs. reads_as t v" and "space first" and "space gap" and "space last_gap"
  shows "reads_as (CHR ''['' # first @ join (CHR '','' # gap) (map fst tvs) @ last_gap @ '']'') (JList (map snd tvs))"
proof -
  let ?j = "join (CHR '','' # gap) (map fst tvs)"
  have "opens ?j" by (rule opens_texts [OF assms(1,2)])
  then have o: "skip_ws (first @ ?j @ s) = ?j @ s" "\<not> prefix '']'' (?j @ s)" for s
    by (simp_all add: skip_space [OF assms(3)] opens_skip_ws opens_append opens_not_close)
  have "pval n (CHR ''['' # first @ ?j @ last_gap @ CHR '']'' # r) = Some (JList (map snd tvs), r)" if l: "Suc (Suc (length ?j)) \<le> n" for n r
  proof -
    obtain m where n: "n = Suc m" using l by (cases n) simp_all
    have m: "length ?j < m" using l unfolding n by linarith
    show ?thesis using pelems_join [OF assms(1,2,4,5) m, of r] by (simp add: n o)
  qed
  then show ?thesis by (simp add: reads_as_def) (simp add: opens_def is_ws_def)
qed

lemma reads_object:
  assumes "kts \<noteq> []" and "\<forall>(k, t) \<in> set kts. reads_as t (f k)" and "distinct (map fst kts)"
    and "space first" and "space gap" and "space colon" and "space last_gap"
  shows "reads_as (CHR ''{'' # first @ members_text gap colon kts @ last_gap @ ''}'') (JObj (map (\<lambda>(k, t). (k, f k)) kts))"
proof -
  let ?j = "members_text gap colon kts"
  have o: "skip_ws (first @ ?j @ s) = ?j @ s" "\<not> prefix ''}'' (?j @ s)" for s
    using opens_members [OF assms(1), of gap colon]
    by (simp_all add: skip_space [OF assms(4)] opens_skip_ws opens_append opens_not_close)
  have d: "dict_of_pairs (map (\<lambda>(k, t). (k, f k)) kts) = map (\<lambda>(k, t). (k, f k)) kts"
    using assms(3) by (intro dict_of_pairs_distinct) (simp add: comp_def case_prod_unfold)
  have "pval n (CHR ''{'' # first @ ?j @ last_gap @ CHR ''}'' # r) = Some (JObj (map (\<lambda>(k, t). (k, f k)) kts), r)"
    if l: "Suc (Suc (length ?j)) \<le> n" for n r
  proof -
    obtain m where n: "n = Suc m" using l by (cases n) simp_all
    have m: "length ?j < m" using l unfolding n by linarith
    show ?thesis using pmembers_join [OF assms(1,2,5,6,7) m, of r] by (simp add: n o d)
  qed
  then show ?thesis by (simp add: reads_as_def) (simp add: opens_def is_ws_def)
qed

text \<open>The members of an object whose value texts are read back: \<open>f\<close> is a dictionary's look-up.\<close>

lemma map_dict: "distinct (map fst kvs) \<Longrightarrow> map (\<lambda>(k, v). (k, h (the (map_of kvs k)))) kvs = map (\<lambda>(k, v). (k, h v)) kvs"
  by auto

lemma reads_members:
  assumes "kvs \<noteq> []" and "distinct (map fst kvs)" and "\<forall>(k, v) \<in> set kvs. reads_as (w v) (h v)"
    and "space first" and "space gap" and "space colon" and "space last_gap"
  shows "reads_as (CHR ''{'' # first @ members_text gap colon (map (\<lambda>(k, v). (k, w v)) kvs) @ last_gap @ ''}'')
     (JObj (map (\<lambda>(k, v). (k, h v)) kvs))"
proof -
  let ?kts = "map (\<lambda>(k, v). (k, w v)) kvs" and ?f = "\<lambda>k. h (the (map_of kvs k))"
  have "?f k = h v" if "(k, v) \<in> set kvs" for k v using that assms(2) by simp
  then have "\<forall>(k, t) \<in> set ?kts. reads_as t (?f k)" using assms(3) by fastforce
  from reads_object [OF _ this _ assms(4-7)] show ?thesis
    using assms(1,2) map_dict [OF assms(2), of h] by (simp add: comp_def case_prod_unfold del: map_eq_conv)
qed

lemma dumps_JObj: "dumps (JObj kvs) = CHR ''{'' # members_text [] [] (map (\<lambda>(k, v). (k, dumps v)) (sort_key fst kvs)) @ ''}''"
  unfolding dumps.simps members_text_def sort_key_fst_map by (simp add: case_prod_unfold comp_def)

lemma dumps_reads: "wf_json v \<Longrightarrow> reads_as (dumps v) (canon v)"
proof (induction v rule: dumps.induct)
  case (6 vs)
  then have "\<forall>(t, v) \<in> set (map (\<lambda>v. (dumps v, canon v)) vs). reads_as t v" by auto
  from reads_list [OF _ this, of "[]" "[]" "[]"] show ?case
    using reads_empty(1) by (cases "vs = []") (simp_all add: comp_def)
next
  case (7 kvs)
  let ?s = "sort_key fst kvs"
  have s: "\<forall>(k, v) \<in> set ?s. reads_as (dumps v) (canon v)" using 7 by fastforce
  have d: "distinct (map fst ?s)" using 7(2) by simp
  show ?case
  proof (cases "kvs = []")
    case False
    then have "?s \<noteq> []" by (metis length_0_conv length_sort)
    from reads_members [OF this d s, of "[]" "[]" "[]" "[]"] show ?thesis
      by (simp only: dumps_JObj) (simp add: sort_key_fst_map)
  qed (simp add: reads_empty(2))
next
  case (2 b)
  show ?case by (cases b) (simp_all add: reads_keywords)
qed (simp_all add: reads_string reads_int reads_keywords(1))

lemma loads_reads: "reads_as t v \<Longrightarrow> loads t = Some v"
  using reads_pval [of t v "Suc (length t)" "[]"] opens_skip_ws [OF reads_opens, of t v] by (simp add: loads_def skip_ws_def)

theorem loads_dumps: "wf_json v \<Longrightarrow> loads (dumps v) = Some (canon v)"
  by (rule loads_reads) (rule dumps_reads)

section \<open>Indented documents\<close>

text \<open>
  \<open>json.dumps(v, indent=2, sort_keys=...)\<close>: every element and member on a line of its own, at \<open>level\<close> two
  spaces deeper than what holds it.
\<close>

definition newline :: "nat \<Rightarrow> string" where
  "newline level = CHR 0x0A # replicate (2 * level) CHR '' ''"

fun dumps_indented :: "bool \<Rightarrow> nat \<Rightarrow> json \<Rightarrow> string" where
  "dumps_indented sort_keys level (JList vs) =
     (if vs = [] then ''[]''
      else CHR ''['' # newline (Suc level) @ join (CHR '','' # newline (Suc level)) (map (dumps_indented sort_keys (Suc level)) vs)
        @ newline level @ '']'')"
| "dumps_indented sort_keys level (JObj kvs) =
     (if kvs = [] then ''{}''
      else CHR ''{'' # newline (Suc level)
        @ (let items = map (\<lambda>(k, v). (k, dumps_indented sort_keys (Suc level) v)) kvs
           in members_text (newline (Suc level)) '' '' (if sort_keys then sort_key fst items else items))
        @ newline level @ ''}'')"
| "dumps_indented sort_keys level v = dumps v"

lemma space_newline [simp]: "space (newline level)" "space '' ''"
  by (simp_all add: space_def newline_def is_ws_def list_all_iff)

lemma dumps_indented_reads: "wf_json v \<Longrightarrow> reads_as (dumps_indented s level v) (if s then canon v else v)"
proof (induction s level v rule: dumps_indented.induct)
  case (1 s level vs)
  let ?h = "\<lambda>v. if s then canon v else v"
  have "\<forall>(t, v) \<in> set (map (\<lambda>v. (dumps_indented s (Suc level) v, ?h v)) vs). reads_as t v"
    using 1 length_pos_if_in_set by fastforce
  from reads_list [OF _ this, of "newline (Suc level)" "newline (Suc level)" "newline level"] show ?case
    using reads_empty(1) by (cases "vs = []"; cases s) (simp_all add: comp_def)
next
  case (2 s level kvs)
  let ?h = "\<lambda>v. if s then canon v else v" and ?s = "if s then sort_key fst kvs else kvs"
  have r: "\<forall>(k, v) \<in> set ?s. reads_as (dumps_indented s (Suc level) v) (?h v)" using 2 by fastforce
  have d: "distinct (map fst ?s)" using 2(2) by simp
  show ?case
  proof (cases "kvs = []")
    case False
    then have "?s \<noteq> []" by (metis length_0_conv length_sort)
    from reads_members [OF this d r, of "newline (Suc level)" "newline (Suc level)" "'' ''" "newline level"] show ?thesis
      using False by (cases s) (simp_all add: sort_key_fst_map Let_def)
  qed (simp add: reads_empty(2))
qed (use dumps_reads in \<open>auto simp: reads_string reads_int reads_keywords\<close>)

theorem loads_dumps_indented: "wf_json v \<Longrightarrow> loads (dumps_indented s level v) = Some (if s then canon v else v)"
  by (rule loads_reads) (rule dumps_indented_reads)

theorem dumps_eq_canon: "wf_json v \<Longrightarrow> wf_json w \<Longrightarrow> dumps v = dumps w \<Longrightarrow> canon v = canon w"
  using loads_dumps by (metis option.inject)

text \<open>The order of an object's members is immaterial.\<close>

theorem dumps_member_order:
  assumes "mset kvs = mset kvs'" and "distinct (map fst kvs)"
  shows "dumps (JObj kvs) = dumps (JObj kvs')"
  using sort_key_mset_eq [OF assms] by (simp only: dumps_JObj)

lemma canon_idem [simp]: "canon (canon v) = canon v"
proof (induction v rule: canon.induct)
  case (2 kvs)
  have "map (\<lambda>(k, v). (k, canon v)) (map (\<lambda>(k, v). (k, canon v)) kvs) = map (\<lambda>(k, v). (k, canon v)) kvs"
    using 2 by auto
  then show ?case by (simp add: sort_key_fst_map [symmetric] sort_key_id_if_sorted del: map_map map_eq_conv)
qed auto

section \<open>The written text is printable ASCII\<close>

definition printable :: "string \<Rightarrow> bool" where
  "printable s \<longleftrightarrow> list_all (\<lambda>c. 32 \<le> ord c \<and> ord c \<le> 126) s"

lemma printable_simps [simp]:
  "printable []" "printable (c # s) \<longleftrightarrow> 32 \<le> ord c \<and> ord c \<le> 126 \<and> printable s"
  "printable (s @ t) \<longleftrightarrow> printable s \<and> printable t"
  by (auto simp: printable_def)

lemma printable_digits: "list_all is_digit s \<Longrightarrow> printable s"
  by (induction s) (auto simp: is_digit_def)

lemma printable_hex: "list_all is_lower_hex s \<Longrightarrow> printable s"
  by (induction s) (auto simp: is_lower_hex_def is_digit_def)

lemma printable_esc: "printable (esc_char c)"
proof -
  have "ord c div 16 < 16" "ord c mod 16 < 16"
    using ord_less [of c] by (simp_all add: less_mult_imp_div_less)
  then have "printable [hex_digit (ord c div 16), hex_digit (ord c mod 16)]"
    by (intro printable_hex) simp
  then show ?thesis by (auto simp: esc_char_def)
qed

lemma printable_enc_str [simp]: "printable (enc_str s)"
proof -
  have "printable (concat (map esc_char s))"
    by (induction s) (auto simp: printable_esc)
  then show ?thesis by (simp add: enc_str_def str_body_def)
qed

lemma printable_join: "printable sep \<Longrightarrow> \<forall>w \<in> set ws. printable w \<Longrightarrow> printable (join sep ws)"
  by (induction sep ws rule: join.induct) auto

lemma printable_dumps: "wf_json v \<Longrightarrow> printable (dumps v)"
proof (induction v rule: dumps.induct)
  case (3 i)
  then show ?case by (simp add: int_str_def printable_digits nat_str_digits)
next
  case (6 vs)
  then have "printable (join '','' (map dumps vs))" by (intro printable_join) auto
  then show ?case by simp
next
  case (7 kvs)
  then have "\<forall>(k, v) \<in> set kvs. printable (dumps v)" by fastforce
  then have "printable (members_text [] [] (map (\<lambda>(k, v). (k, dumps v)) (sort_key fst kvs)))"
    unfolding members_text_def by (intro printable_join) auto
  then show ?case by (simp only: dumps_JObj) simp
qed auto

lemma printable_no_newline: "printable s \<Longrightarrow> CHR 0x0A \<notin> set s"
  by (auto simp: printable_def list_all_iff)

lemma utf8_dumps [simp]: "wf_json v \<Longrightarrow> utf8 (dumps v) = dumps v"
  using printable_dumps [of v] by (intro utf8_ascii) (auto simp: printable_def list_all_iff)

lemma list_all_join: "list_all P sep \<Longrightarrow> list_all (list_all P) ws \<Longrightarrow> list_all P (join sep ws)"
  by (induction sep ws rule: join.induct) auto

lemma ascii_printable: "printable s \<Longrightarrow> list_all (\<lambda>c. ord c < 128) s"
  by (auto simp: printable_def list_all_iff)

lemma ascii_newline: "list_all (\<lambda>c. ord c < 128) (newline level)"
  by (simp add: newline_def list_all_iff)

text \<open>An indented document has line breaks, and is ASCII too.\<close>

lemma ascii_indented: "wf_json v \<Longrightarrow> list_all (\<lambda>c. ord c < 128) (dumps_indented s level v)"
proof (induction s level v rule: dumps_indented.induct)
  case (1 s level vs)
  then show ?case by (auto simp: ascii_newline list_all_iff [where P = "list_all _"] intro!: list_all_join)
next
  case (2 s level kvs)
  have "list_all (\<lambda>c. ord c < 128) (dumps_indented s (Suc level) v)" if "(k, v) \<in> set kvs" for k v
    using 2 that by fastforce
  then show ?case
    by (cases s) (auto simp: Let_def members_text_def ascii_newline ascii_printable list_all_iff [where P = "list_all _"] intro!: list_all_join)
qed (use ascii_printable printable_dumps [of "JInt _"] in auto)

section \<open>The length of a text\<close>

text \<open>How long the text of a value can be.\<close>

lemma length_esc_char: "length (esc_char c) \<le> 6"
  by (simp add: esc_char_def)

lemma length_enc_str: "length (enc_str s) \<le> 6 * length s + 2"
proof (induction s)
  case (Cons c s)
  then show ?case using length_esc_char [of c] by (simp add: enc_str_def str_body_def)
qed (simp add: enc_str_def str_body_def)

lemma length_dumps_JObj:
  "length (dumps (JObj kvs)) \<le> 2 + (\<Sum>(k, v) \<leftarrow> kvs. 6 * length k + 4 + length (dumps v))"
proof -
  let ?m = "map (\<lambda>(k, v). enc_str k @ '':'' @ dumps v) (sort_key fst kvs)"
  have "sum_list (map length ?m) = sum_mset (image_mset (\<lambda>(k, v). length (enc_str k) + 1 + length (dumps v)) (mset (sort_key fst kvs)))"
    by (simp add: comp_def case_prod_unfold flip: sum_mset_sum_list)
  also have "\<dots> = (\<Sum>(k, v) \<leftarrow> kvs. length (enc_str k) + 1 + length (dumps v))"
    by (simp flip: sum_mset_sum_list)
  finally have m: "length (dumps (JObj kvs)) \<le> 2 + (\<Sum>(k, v) \<leftarrow> kvs. length (enc_str k) + 1 + length (dumps v)) + length kvs"
    by (simp add: dumps_JObj members_text_def length_join case_prod_unfold comp_def del: dumps.simps)
  have "(\<Sum>(k, v) \<leftarrow> kvs. length (enc_str k) + 1 + length (dumps v)) + length kvs
      \<le> (\<Sum>(k, v) \<leftarrow> kvs. 6 * length k + 4 + length (dumps v))"
  proof (induction kvs)
    case (Cons kv kvs)
    then show ?case using length_enc_str [of "fst kv"] by (simp add: case_prod_unfold)
  qed simp
  with m show ?thesis by simp
qed

lemma length_dumps_JStr: "length (dumps (JStr s)) \<le> 6 * length s + 2"
  using length_enc_str [of s] by simp

section \<open>Reading a member\<close>

lemma map_of_sort_key:
  "distinct (map fst kvs) \<Longrightarrow> map_of (sort_key fst kvs) = map_of kvs"
  by (intro map_of_inject_set [THEN iffD2]) simp_all

lemma map_of_map_canon: "map_of (map (\<lambda>(k, v). (k, f v)) kvs) k = map_option f (map_of kvs k)"
  by (induction kvs) auto

lemma map_of_canon:
  "distinct (map fst kvs) \<Longrightarrow>
     map_of (sort_key fst (map (\<lambda>(k, v). (k, canon v)) kvs)) k = map_option canon (map_of kvs k)"
  by (simp add: sort_key_fst_map map_of_map_canon map_of_sort_key)

lemma dumps_canon [simp]: "dumps (canon v) = dumps v"
proof (induction v rule: canon.induct)
  case (1 vs)
  then have "map dumps (map canon vs) = map dumps vs" by simp
  then show ?case by (simp only: canon.simps dumps.simps)
next
  case (2 kvs)
  have "map (\<lambda>(k, v). (k, dumps v)) (map (\<lambda>(k, v). (k, canon v)) kvs) = map (\<lambda>(k, v). (k, dumps v)) kvs"
    using 2 by auto
  then have "map (\<lambda>(k, v). (k, dumps v)) (sort_key fst (map (\<lambda>(k, v). (k, canon v)) kvs))
      = sort_key fst (map (\<lambda>(k, v). (k, dumps v)) kvs)"
    by (simp only: sort_key_fst_map [symmetric])
  then show ?case by (simp only: canon.simps dumps.simps) (simp add: sort_key_fst_map sort_key_id_if_sorted)
qed auto

lemma wf_canon [simp]: "wf_json (canon v) = wf_json v"
  by (induction v rule: canon.induct) (auto simp: comp_def case_prod_unfold)

end
