(* ===== verification/Errors.thy ===== *)
theory Errors
  imports Json
begin

text \<open>
  The exceptions of the program (\<open>exceptions.py\<close> and the error classes other modules
  derive from it) and the built-in ones the source raises or catches.  A raised exception is
  a value of \<open>exn\<close>, its attributes being the constructor's arguments; the class
  hierarchy decides which handler catches it.  The prose of a message is not modelled, except
  where an exception's constructor builds it from the attributes.
\<close>

datatype exc_class =
    ExceptionC | OSErrorC | ValueErrorC | KeyErrorC | TypeErrorC | AttributeErrorC | StopIterationC
  | UnicodeDecodeErrorC | JSONDecodeErrorC | ValidationErrorC
  | ModelGuardErrorC
  | ArtifactErrorC | ArtifactNotFoundErrorC | UnsafePathErrorC | EmptyArtifactErrorC
  | ManifestErrorC | ManifestValidationErrorC | MLBOMErrorC | MLBOMValidationErrorC
  | SigningErrorC | KeyBaseErrorC | KeyNotFoundErrorC | InvalidKeyErrorC
  | VerificationErrorC | SignatureInvalidErrorC | UnsupportedSignatureSchemeErrorC
  | MalformedSignatureErrorC | SigningProviderErrorC | DigestMismatchErrorC
  | VerificationDeniedC | TrustConfigurationErrorC | AdmissionDeniedC
  | PolicyValidationErrorC | UnknownRuleErrorC
  | DuplicateRegistrationErrorC | RegistryBackendErrorC | RegistryConfigurationErrorC
  | InvalidIdentifierErrorC | ChainIntegrityErrorC
  | ArtifactStoreErrorC | BlobNotFoundErrorC | ArtifactIntegrityErrorC | StoreConfigurationErrorC

text \<open>The class a class statement names as its base.\<close>

fun base_class :: "exc_class \<Rightarrow> exc_class option" where
  "base_class ExceptionC = None"
| "base_class UnicodeDecodeErrorC = Some ValueErrorC"
| "base_class JSONDecodeErrorC = Some ValueErrorC"
| "base_class ValidationErrorC = Some ValueErrorC"
| "base_class ArtifactErrorC = Some ModelGuardErrorC"
| "base_class ArtifactNotFoundErrorC = Some ArtifactErrorC"
| "base_class UnsafePathErrorC = Some ArtifactErrorC"
| "base_class EmptyArtifactErrorC = Some ArtifactErrorC"
| "base_class ManifestErrorC = Some ModelGuardErrorC"
| "base_class ManifestValidationErrorC = Some ManifestErrorC"
| "base_class MLBOMErrorC = Some ModelGuardErrorC"
| "base_class MLBOMValidationErrorC = Some MLBOMErrorC"
| "base_class SigningErrorC = Some ModelGuardErrorC"
| "base_class KeyBaseErrorC = Some SigningErrorC"
| "base_class KeyNotFoundErrorC = Some KeyBaseErrorC"
| "base_class InvalidKeyErrorC = Some KeyBaseErrorC"
| "base_class VerificationErrorC = Some ModelGuardErrorC"
| "base_class SignatureInvalidErrorC = Some VerificationErrorC"
| "base_class UnsupportedSignatureSchemeErrorC = Some SignatureInvalidErrorC"
| "base_class MalformedSignatureErrorC = Some VerificationErrorC"
| "base_class SigningProviderErrorC = Some SigningErrorC"
| "base_class DigestMismatchErrorC = Some VerificationErrorC"
| "base_class VerificationDeniedC = Some ModelGuardErrorC"
| "base_class TrustConfigurationErrorC = Some ModelGuardErrorC"
| "base_class AdmissionDeniedC = Some ModelGuardErrorC"
| "base_class PolicyValidationErrorC = Some ModelGuardErrorC"
| "base_class UnknownRuleErrorC = Some PolicyValidationErrorC"
| "base_class DuplicateRegistrationErrorC = Some ModelGuardErrorC"
| "base_class RegistryBackendErrorC = Some ModelGuardErrorC"
| "base_class RegistryConfigurationErrorC = Some ModelGuardErrorC"
| "base_class InvalidIdentifierErrorC = Some ModelGuardErrorC"
| "base_class ArtifactStoreErrorC = Some ModelGuardErrorC"
| "base_class BlobNotFoundErrorC = Some ArtifactStoreErrorC"
| "base_class ArtifactIntegrityErrorC = Some ArtifactStoreErrorC"
| "base_class StoreConfigurationErrorC = Some ModelGuardErrorC"
| "base_class _ = Some ExceptionC"

text \<open>
  \<open>issubclass\<close>: walking up the bases.  No chain is longer than five classes, so six steps
  reach the root (\<open>subclass_ExceptionC\<close>).
\<close>

fun bases :: "nat \<Rightarrow> exc_class \<Rightarrow> exc_class list" where
  "bases 0 c = []"
| "bases (Suc n) c = c # (case base_class c of None \<Rightarrow> [] | Some b \<Rightarrow> bases n b)"

definition subclass_of :: "exc_class \<Rightarrow> exc_class \<Rightarrow> bool" where
  "subclass_of c d \<longleftrightarrow> d \<in> set (bases 6 c)"

datatype exn =
    OSError | ValueError | KeyError | TypeError | AttributeError | StopIteration
  | UnicodeDecodeError | JSONDecodeError | ValidationError
  | ModelGuardError
  | ArtifactNotFoundError (exn_path: string)
  | UnsafePathError (exn_path: string) (exn_reason: string)
  | EmptyArtifactError (exn_path: string)
  | KeyNotFoundError (exn_path: string)
  | InvalidKeyError
  | SignatureInvalidError | UnsupportedSignatureSchemeError | MalformedSignatureError
  | SigningProviderError
  | DigestMismatchError (expected: string) (actual: string)
  | VerificationDenied "string list"
  | TrustConfigurationError
  | AdmissionDenied "string list"
  | PolicyValidationError | UnknownRuleError (rule_name: string)
  | DuplicateRegistrationError (exn_model_id: string) (exn_version: string)
  | RegistryBackendError | RegistryConfigurationError
  | InvalidIdentifierError
  | ChainIntegrityError (chain_index: json)
  | ArtifactStoreError | BlobNotFoundError | ArtifactIntegrityError | StoreConfigurationError

fun class_of :: "exn \<Rightarrow> exc_class" where
  "class_of OSError = OSErrorC"
| "class_of ValueError = ValueErrorC"
| "class_of KeyError = KeyErrorC"
| "class_of TypeError = TypeErrorC"
| "class_of AttributeError = AttributeErrorC"
| "class_of StopIteration = StopIterationC"
| "class_of UnicodeDecodeError = UnicodeDecodeErrorC"
| "class_of JSONDecodeError = JSONDecodeErrorC"
| "class_of ValidationError = ValidationErrorC"
| "class_of ModelGuardError = ModelGuardErrorC"
| "class_of (ArtifactNotFoundError _) = ArtifactNotFoundErrorC"
| "class_of (UnsafePathError _ _) = UnsafePathErrorC"
| "class_of (EmptyArtifactError _) = EmptyArtifactErrorC"
| "class_of (KeyNotFoundError _) = KeyNotFoundErrorC"
| "class_of InvalidKeyError = InvalidKeyErrorC"
| "class_of SignatureInvalidError = SignatureInvalidErrorC"
| "class_of UnsupportedSignatureSchemeError = UnsupportedSignatureSchemeErrorC"
| "class_of MalformedSignatureError = MalformedSignatureErrorC"
| "class_of SigningProviderError = SigningProviderErrorC"
| "class_of (DigestMismatchError _ _) = DigestMismatchErrorC"
| "class_of (VerificationDenied _) = VerificationDeniedC"
| "class_of TrustConfigurationError = TrustConfigurationErrorC"
| "class_of (AdmissionDenied _) = AdmissionDeniedC"
| "class_of PolicyValidationError = PolicyValidationErrorC"
| "class_of (UnknownRuleError _) = UnknownRuleErrorC"
| "class_of (DuplicateRegistrationError _ _) = DuplicateRegistrationErrorC"
| "class_of RegistryBackendError = RegistryBackendErrorC"
| "class_of RegistryConfigurationError = RegistryConfigurationErrorC"
| "class_of InvalidIdentifierError = InvalidIdentifierErrorC"
| "class_of (ChainIntegrityError _) = ChainIntegrityErrorC"
| "class_of ArtifactStoreError = ArtifactStoreErrorC"
| "class_of BlobNotFoundError = BlobNotFoundErrorC"
| "class_of ArtifactIntegrityError = ArtifactIntegrityErrorC"
| "class_of StoreConfigurationError = StoreConfigurationErrorC"

text \<open>Whether \<open>except C\<close> catches the exception.\<close>

definition catches :: "exc_class \<Rightarrow> exn \<Rightarrow> bool" where
  "catches c e \<longleftrightarrow> subclass_of (class_of e) c"

abbreviation is_modelguard :: "exn \<Rightarrow> bool" where
  "is_modelguard e \<equiv> catches ModelGuardErrorC e"

text \<open>\<open>VerificationDenied.__init__\<close> and \<open>AdmissionDenied.__init__\<close> join their reasons.\<close>

definition joined_reasons :: "string list \<Rightarrow> string" where
  "joined_reasons rs = (if rs \<noteq> [] then join ''; '' rs else ''no reason provided'')"

text \<open>\<open>str(exc)\<close> for the classes whose constructor builds the message from its attributes.\<close>

fun exn_text :: "exn \<Rightarrow> string option" where
  "exn_text (ArtifactNotFoundError p) = Some (''Artifact path does not exist: '' @ p)"
| "exn_text (UnsafePathError p r) = Some (''Unsafe path rejected: '' @ p @ '' ('' @ r @ '')'')"
| "exn_text (EmptyArtifactError p) = Some (''Artifact contains no hashable files: '' @ p)"
| "exn_text (KeyNotFoundError p) = Some (''Key not found: '' @ p)"
| "exn_text (DigestMismatchError e a) =
     Some (''Artifact digest mismatch: expected '' @ e @ '', got '' @ a @
       ''. The artifact may have been modified after signing.'')"
| "exn_text (VerificationDenied rs) = Some (''Verification denied: '' @ joined_reasons rs)"
| "exn_text (AdmissionDenied rs) = Some (''Deployment admission denied: '' @ joined_reasons rs)"
| "exn_text _ = None"

lemma subclass_refl [simp]: "subclass_of c c"
  by (cases c) (simp_all add: subclass_of_def numeral_eq_Suc)

lemma subclass_ExceptionC [simp]: "subclass_of c ExceptionC"
  by (cases c) (simp_all add: subclass_of_def numeral_eq_Suc)

lemma catches_Exception [simp]: "catches ExceptionC e"
  by (simp add: catches_def)

lemma subclass_base: "base_class c = Some b \<Longrightarrow> subclass_of c b"
  by (cases c) (auto simp: subclass_of_def numeral_eq_Suc)

text \<open>The handler that turns failures into a denial sees exactly these.\<close>

lemma is_modelguard_iff:
  "is_modelguard e \<longleftrightarrow> e \<notin> {OSError, ValueError, KeyError, TypeError, AttributeError, StopIteration,
     UnicodeDecodeError, JSONDecodeError, ValidationError} \<and> (\<forall>i. e \<noteq> ChainIntegrityError i)"
  by (cases e) (simp_all add: catches_def subclass_of_def numeral_eq_Suc)

lemma catches_signature_invalid:
  "catches SignatureInvalidErrorC e \<longleftrightarrow> e = SignatureInvalidError \<or> e = UnsupportedSignatureSchemeError"
  by (cases e) (simp_all add: catches_def subclass_of_def numeral_eq_Suc)

end
