(* ===== verification/Filesystem.thy ===== *)
theory Filesystem
  imports Errors
begin

text \<open>
  A snapshot of the file system below one path, as the source sees it through \<open>pathlib\<close>
  and \<open>os.walk\<close>: what kind of entry a path names, the entries of a directory in the order
  \<open>os.scandir\<close> lists them, and the walk over a tree.  A path is the list of its components
  below the file-system root.

  A symbolic link carries the node it finally leads to (\<open>None\<close> when it dangles).  A
  directory's flag says whether it can be listed; \<open>FUnreadable\<close> is a regular file that
  cannot be opened and \<open>FSpecial\<close> a socket.
\<close>

datatype fs_node =
    FFile (file_bytes: bytes)
  | FUnreadable
  | FSpecial
  | FDir bool "(string \<times> fs_node) list"
  | FLink "fs_node option"

text \<open>\<open>Path.is_symlink\<close> looks at the entry itself, the others at what it leads to.\<close>

fun is_symlink :: "fs_node \<Rightarrow> bool" where
  "is_symlink (FLink _) = True"
| "is_symlink _ = False"

fun followed :: "fs_node \<Rightarrow> fs_node option" where
  "followed (FLink t) = t"
| "followed nd = Some nd"

fun is_dir_node :: "fs_node option \<Rightarrow> bool" where
  "is_dir_node (Some (FDir _ _)) = True"
| "is_dir_node _ = False"

fun is_file_node :: "fs_node option \<Rightarrow> bool" where
  "is_file_node (Some (FFile _)) = True"
| "is_file_node (Some FUnreadable) = True"
| "is_file_node _ = False"

definition path_exists :: "fs_node option \<Rightarrow> bool" where
  "path_exists nd = (case nd of None \<Rightarrow> False | Some n \<Rightarrow> followed n \<noteq> None)"

definition path_is_dir :: "fs_node option \<Rightarrow> bool" where
  "path_is_dir nd = (case nd of None \<Rightarrow> False | Some n \<Rightarrow> is_dir_node (followed n))"

definition path_is_file :: "fs_node option \<Rightarrow> bool" where
  "path_is_file nd = (case nd of None \<Rightarrow> False | Some n \<Rightarrow> is_file_node (followed n))"

definition path_is_symlink :: "fs_node option \<Rightarrow> bool" where
  "path_is_symlink nd = (case nd of None \<Rightarrow> False | Some n \<Rightarrow> is_symlink n)"

text \<open>\<open>str(path)\<close>, \<open>path.name\<close>, \<open>relative.as_posix()\<close>, \<open>path.relative_to(root)\<close>.\<close>

definition path_str :: "string list \<Rightarrow> string" where
  "path_str p = ''/'' @ join ''/'' p"

definition path_name :: "string list \<Rightarrow> string" where
  "path_name p = (if p = [] then [] else last p)"

definition as_posix :: "string list \<Rightarrow> string" where
  "as_posix p = join ''/'' p"

definition relative_to :: "string list \<Rightarrow> string list \<Rightarrow> string list option" where
  "relative_to p root = (if prefix root p then Some (drop (length root) p) else None)"

text \<open>
  \<open>os.walk(root, followlinks=False)\<close>, top down: for each directory that can be listed, its
  path below the root, the entries that lead to a directory and the others; links are listed,
  never entered, and a directory that cannot be listed is passed over, as \<open>os.walk\<close> does
  without an \<open>onerror\<close> callback.
\<close>

fun is_dir_entry :: "string \<times> fs_node \<Rightarrow> bool" where
  "is_dir_entry (n, nd) = is_dir_node (followed nd)"

type_synonym walked = "string list \<times> (string \<times> fs_node) list \<times> (string \<times> fs_node) list"

fun os_walk :: "string list \<Rightarrow> fs_node \<Rightarrow> walked list" where
  "os_walk p (FDir True es) =
     (p, filter is_dir_entry es, filter (\<lambda>e. \<not> is_dir_entry e) es)
       # concat (map (\<lambda>(n, nd). os_walk (p @ [n]) nd) es)"
| "os_walk p _ = []"

section \<open>The files of a tree\<close>

text \<open>Every regular file that listed directories lead to, with its path and content.\<close>

fun contents :: "string list \<Rightarrow> fs_node \<Rightarrow> (string list \<times> bytes) list" where
  "contents p (FFile b) = [(p, b)]"
| "contents p (FDir True es) = concat (map (\<lambda>(n, nd). contents (p @ [n]) nd) es)"
| "contents p _ = []"

text \<open>A tree the hasher accepts: no link, no entry it cannot read.\<close>

fun clean :: "fs_node \<Rightarrow> bool" where
  "clean (FFile b) = True"
| "clean (FDir True es) = (\<forall>(n, nd) \<in> set es. clean nd)"
| "clean (FDir False es) = True"
| "clean _ = False"

text \<open>Names as a POSIX file system has them.\<close>

definition valid_name :: "string \<Rightarrow> bool" where
  "valid_name n \<longleftrightarrow> n \<noteq> [] \<and> CHR ''/'' \<notin> set n"

fun wf_tree :: "fs_node \<Rightarrow> bool" where
  "wf_tree (FDir l es) =
     (distinct (map fst es) \<and> (\<forall>(n, nd) \<in> set es. valid_name n \<and> wf_tree nd))"
| "wf_tree _ = True"

text \<open>The same tree with the entries of its directories listed in another order.\<close>

inductive relisted :: "fs_node \<Rightarrow> fs_node \<Rightarrow> bool" where
  relisted_refl: "relisted nd nd"
| relisted_order: "mset es = mset gs \<Longrightarrow> relisted (FDir l es) (FDir l gs)"
| relisted_entry: "relisted a b \<Longrightarrow> relisted (FDir l (xs @ (n, a) # ys)) (FDir l (xs @ (n, b) # ys))"
| relisted_trans: "relisted a b \<Longrightarrow> relisted b c \<Longrightarrow> relisted a c"

lemma relative_to_append [simp]: "relative_to (root @ p) root = Some p"
  by (simp add: relative_to_def)

lemma as_posix_inj:
  assumes "p \<noteq> []" "q \<noteq> []" "\<forall>n \<in> set p. valid_name n" "\<forall>n \<in> set q. valid_name n" "as_posix p = as_posix q"
  shows "p = q"
  using assms join_inj [of p q "CHR ''/''"] by (auto simp: as_posix_def valid_name_def)

lemma contents_prefix: "x \<in> set (contents p nd) \<Longrightarrow> \<exists>r. fst x = p @ r"
proof (induction p nd rule: contents.induct)
  case (2 p es)
  then obtain n nd where e: "(n, nd) \<in> set es" "x \<in> set (contents (p @ [n]) nd)" by auto
  then obtain r where "fst x = (p @ [n]) @ r" using "2.IH" by blast
  then show ?case by simp
qed auto

lemma contents_prefix_dir:
  assumes "x \<in> set (contents p (FDir l es))"
  shows "\<exists>n r. fst x = p @ n # r \<and> n \<in> fst ` set es"
proof -
  obtain n nd where e: "(n, nd) \<in> set es" "x \<in> set (contents (p @ [n]) nd)"
    using assms by (cases l) auto
  then obtain r where "fst x = (p @ [n]) @ r" using contents_prefix by blast
  then show ?thesis using e(1) by force
qed

lemma contents_valid:
  "wf_tree nd \<Longrightarrow> \<forall>n \<in> set p. valid_name n \<Longrightarrow> x \<in> set (contents p nd) \<Longrightarrow> \<forall>n \<in> set (fst x). valid_name n"
proof (induction p nd rule: contents.induct)
  case (2 p es)
  then obtain n nd where e: "(n, nd) \<in> set es" "x \<in> set (contents (p @ [n]) nd)" by auto
  with 2 have "valid_name n" "wf_tree nd" by auto
  with 2 e show ?case by (intro "2.IH" [OF e(1) refl]) auto
qed auto

lemma contents_distinct: "wf_tree nd \<Longrightarrow> distinct (map fst (contents p nd))"
proof (induction p nd rule: contents.induct)
  case (2 p es)
  have "distinct (map fst (concat (map (\<lambda>(n, nd). contents (p @ [n]) nd) xs)))"
    if "set xs \<subseteq> set es" "distinct (map fst xs)" for xs
    using that
  proof (induction xs)
    case (Cons x xs)
    obtain n nd where x: "x = (n, nd)" by (cases x)
    have d: "distinct (map fst (contents (p @ [n]) nd))"
      using Cons.prems x 2 by (intro "2.IH" [of x]) auto
    have "fst ` set (contents (p @ [n]) nd) \<inter> fst ` set (contents (p @ [m]) md) = {}"
      if "(m, md) \<in> set xs" for m md
    proof -
      have "n \<noteq> m" using Cons.prems(2) x that by force
      have "\<exists>r. q = p @ n # r" if "q \<in> fst ` set (contents (p @ [n]) nd)" for q
        using that contents_prefix by fastforce
      moreover have "\<exists>r. q = p @ m # r" if "q \<in> fst ` set (contents (p @ [m]) md)" for q
        using that contents_prefix by fastforce
      ultimately have "q \<notin> fst ` set (contents (p @ [m]) md)" if "q \<in> fst ` set (contents (p @ [n]) nd)" for q
        using that \<open>n \<noteq> m\<close> by (metis list.inject same_append_eq)
      then show ?thesis by (simp add: disjoint_iff)
    qed
    then have "fst ` set (contents (p @ [n]) nd) \<inter> (\<Union>y \<in> set xs. fst ` set (contents (p @ [fst y]) (snd y))) = {}"
      by (simp add: Int_UN_distrib case_prod_unfold)
    moreover have "distinct (map fst (concat (map (\<lambda>(n, nd). contents (p @ [n]) nd) xs)))"
      using Cons by simp
    ultimately show ?case using d x by (simp add: image_UN case_prod_unfold)
  qed simp
  from this [of es] show ?case using 2 by simp
qed auto

text \<open>The walk finds exactly the files of the tree.\<close>

lemma walk_files_contents:
  assumes "clean nd" and "is_dir_node (Some nd)"
  shows "mset (concat (map (\<lambda>(p, ds, fs). map (\<lambda>(n, f). (p @ [n], file_bytes f)) fs) (os_walk p nd)))
       = mset (contents p nd)"
  using assms
proof (induction p nd rule: os_walk.induct)
  case (1 p es)
  let ?f = "\<lambda>(p, ds, fs). map (\<lambda>(n, f). (p @ [n], file_bytes f)) fs"
  have "mset (map (\<lambda>(n, f). (p @ [n], file_bytes f)) (filter (\<lambda>e. \<not> is_dir_entry e) xs))
      + mset (concat (map ?f (concat (map (\<lambda>(n, nd). os_walk (p @ [n]) nd) xs))))
      = mset (concat (map (\<lambda>(n, nd). contents (p @ [n]) nd) xs))" if "set xs \<subseteq> set es" for xs
    using that
  proof (induction xs)
    case (Cons x xs)
    obtain n nd where x: "x = (n, nd)" by (cases x)
    have c: "clean nd" using Cons.prems 1 x by auto
    show ?case
    proof (cases nd)
      case (FFile b)
      then show ?thesis using Cons x by simp
    next
      case (FDir l es')
      then have "mset (concat (map ?f (os_walk (p @ [n]) nd))) = mset (contents (p @ [n]) nd)"
        using Cons.prems 1 x c by (cases l; intro "1.IH" [of x]) auto
      then show ?thesis using Cons x FDir by (simp add: ac_simps)
    qed (use c in auto)
  qed simp
  from this [of es] show ?case by (simp add: case_prod_unfold)
qed auto

end
