(* ===== verification/Sha256.thy ===== *)
theory Sha256
  imports Prelude "HOL-Library.Word"
begin

text \<open>
  \<open>hashlib.sha256(data).hexdigest()\<close>, the library function every digest of the program is made
  with, after FIPS 180-4.  The components take the digest function as a parameter \<open>H\<close>; the
  locale \<open>hex_digest\<close> says what they rely on beyond its being a function, and
  \<open>sha256\<close> provides it.
\<close>

section \<open>The interface\<close>

locale hex_digest =
  fixes H :: "bytes \<Rightarrow> string"
  assumes H_sha256_hex: "is_sha256_hex (H b)"
begin

lemma H_length [simp]: "length (H b) = 64"
  using H_sha256_hex [of b] by (simp add: is_sha256_hex_def)

lemma H_not_Nil [simp]: "H b \<noteq> []"
  using H_length [of b] by (metis length_0_conv zero_neq_numeral)

lemma H_lower_hex: "list_all is_lower_hex (H b)"
  using H_sha256_hex [of b] by (simp add: is_sha256_hex_def)

lemma H_no_char: "\<not> is_lower_hex c \<Longrightarrow> c \<notin> set (H b)"
  using H_lower_hex [of b] by (auto simp: list_all_iff)

end

section \<open>SHA-256\<close>

unbundle bit_operations_syntax

type_synonym w32 = "32 word"

text \<open>
  The constants of the standard: the first 32 fractional bits of the cube roots of the first 64
  primes, and of the square roots of the first eight.  \<open>root_bits k n b 0\<close> is the integer
  \<open>k\<close>-th root of \<open>n\<close>, found bit by bit; \<open>of_int\<close> drops the integral part.
\<close>

fun root_bits :: "nat \<Rightarrow> int \<Rightarrow> nat \<Rightarrow> int \<Rightarrow> int" where
  "root_bits k n 0 r = r"
| "root_bits k n (Suc b) r = root_bits k n b (if (r + 2 ^ b) ^ k \<le> n then r + 2 ^ b else r)"

definition sha_primes :: "int list" where
  "sha_primes =
    [2, 3, 5, 7, 11, 13, 17, 19, 23, 29, 31, 37, 41, 43, 47, 53,
     59, 61, 67, 71, 73, 79, 83, 89, 97, 101, 103, 107, 109, 113, 127, 131,
     137, 139, 149, 151, 157, 163, 167, 173, 179, 181, 191, 193, 197, 199, 211, 223,
     227, 229, 233, 239, 241, 251, 257, 263, 269, 271, 277, 281, 283, 293, 307, 311]"

definition sha_k :: "w32 list" where
  "sha_k = map (\<lambda>p. of_int (root_bits 3 (p * 2 ^ 96) 36 0)) sha_primes"

definition sha_h0 :: "w32 list" where
  "sha_h0 = map (\<lambda>p. of_int (root_bits 2 (p * 2 ^ 64) 36 0)) (take 8 sha_primes)"

text \<open>Big-endian bytes and words.\<close>

fun be_bytes :: "nat \<Rightarrow> int \<Rightarrow> bytes" where
  "be_bytes 0 n = []"
| "be_bytes (Suc k) n = char_of (n div 256 ^ k mod 256) # be_bytes k n"

definition be_word :: "bytes \<Rightarrow> w32" where
  "be_word bs = of_int (foldl (\<lambda>a b. 256 * a + of_char b) 0 bs)"

definition sha_pad :: "bytes \<Rightarrow> bytes" where
  "sha_pad m =
     (let n = length m in m @ [chr 128] @ replicate ((119 - n mod 64) mod 64) (chr 0) @ be_bytes 8 (8 * int n))"

fun chunks :: "nat \<Rightarrow> nat \<Rightarrow> 'a list \<Rightarrow> 'a list list" where
  "chunks 0 k xs = []"
| "chunks (Suc n) k xs = take k xs # chunks n k (drop k xs)"

definition small_sigma0 :: "w32 \<Rightarrow> w32" where
  "small_sigma0 x = word_rotr 7 x XOR word_rotr 18 x XOR drop_bit 3 x"

definition small_sigma1 :: "w32 \<Rightarrow> w32" where
  "small_sigma1 x = word_rotr 17 x XOR word_rotr 19 x XOR drop_bit 10 x"

definition big_sigma0 :: "w32 \<Rightarrow> w32" where
  "big_sigma0 x = word_rotr 2 x XOR word_rotr 13 x XOR word_rotr 22 x"

definition big_sigma1 :: "w32 \<Rightarrow> w32" where
  "big_sigma1 x = word_rotr 6 x XOR word_rotr 11 x XOR word_rotr 25 x"

definition sha_ch :: "w32 \<Rightarrow> w32 \<Rightarrow> w32 \<Rightarrow> w32" where
  "sha_ch x y z = (x AND y) XOR (NOT x AND z)"

definition sha_maj :: "w32 \<Rightarrow> w32 \<Rightarrow> w32 \<Rightarrow> w32" where
  "sha_maj x y z = (x AND y) XOR (x AND z) XOR (y AND z)"

text \<open>The message schedule, newest word first.\<close>

fun sha_expand :: "nat \<Rightarrow> w32 list \<Rightarrow> w32 list" where
  "sha_expand 0 ws = ws"
| "sha_expand (Suc n) ws =
     sha_expand n ((small_sigma1 (ws ! 1) + ws ! 6 + small_sigma0 (ws ! 14) + ws ! 15) # ws)"

fun sha_round :: "w32 list \<Rightarrow> w32 \<times> w32 \<Rightarrow> w32 list" where
  "sha_round [a, b, c, d, e, f, g, h] (k, w) =
     (let t1 = h + big_sigma1 e + sha_ch e f g + k + w; t2 = big_sigma0 a + sha_maj a b c
      in [t1 + t2, a, b, c, d + t1, e, f, g])"
| "sha_round st _ = st"

definition sha_block :: "w32 list \<Rightarrow> bytes \<Rightarrow> w32 list" where
  "sha_block st blk =
     (let ws = rev (sha_expand 48 (rev (map be_word (chunks 16 4 blk))))
      in map2 (+) st (foldl sha_round st (zip sha_k ws)))"

definition sha256 :: "bytes \<Rightarrow> string" where
  "sha256 m =
     (let p = sha_pad m; st = foldl sha_block sha_h0 (chunks (length p div 64) 64 p)
      in to_hex (concat (map (\<lambda>w. be_bytes 4 (uint w)) st)))"

section \<open>It provides the interface\<close>

lemma length_be_bytes [simp]: "length (be_bytes k n) = k"
  by (induction k) auto

lemma length_sha_round [simp]: "length (sha_round st kw) = length st"
  by (induction st kw rule: sha_round.induct) (auto simp: Let_def)

lemma length_foldl_sha_round [simp]: "length (foldl sha_round st kws) = length st"
  by (induction kws arbitrary: st) auto

lemma length_sha_block [simp]: "length (sha_block st blk) = length st"
  by (simp add: sha_block_def Let_def)

lemma length_foldl_sha_block [simp]: "length (foldl sha_block st blks) = length st"
  by (induction blks arbitrary: st) auto

lemma length_concat_be_bytes: "length (concat (map (\<lambda>w. be_bytes 4 (f w)) ws)) = 4 * length ws"
  by (induction ws) auto

lemma length_sha_h0: "length sha_h0 = 8"
  by (simp add: sha_h0_def sha_primes_def)

lemma is_sha256_hex_sha256: "is_sha256_hex (sha256 m)"
  by (simp add: is_sha256_hex_def sha256_def Let_def to_hex_lower length_concat_be_bytes length_sha_h0)

interpretation sha256: hex_digest sha256
  by unfold_locales (rule is_sha256_hex_sha256)

end
