(* ===== verification/Hashing.thy ===== *)
theory Hashing
  imports Filesystem Json Sha256
begin

text \<open>
  \<open>hashing/digest.py\<close>: the digest of a file or directory artifact.  \<open>H\<close> is
  \<open>hashlib.sha256(_).hexdigest()\<close>.  The theorems say that a directory's digest does not
  depend on the order the file system lists entries in, that it identifies the files' paths and
  contents up to a collision of \<open>H\<close>, that a link anywhere makes hashing fail, and that a
  directory that cannot be listed is left out of the digest.
\<close>

section \<open>Data\<close>

record file_digest =
  fd_path :: string
  fd_sha256 :: string
  fd_size :: int

record artifact_digest =
  ad_algorithm :: string
  ad_type :: string
  ad_digest :: string
  ad_files :: "file_digest list"

definition uri_fragment :: "artifact_digest \<Rightarrow> string" where
  "uri_fragment d = ''@'' @ ad_algorithm d @ '':'' @ ad_digest d"

definition chunk_size :: nat where
  "chunk_size = 1024 * 1024"

definition digest_algorithm :: string where
  "digest_algorithm = ''sha256''"

section \<open>Operations\<close>

text \<open>
  The loop of \<open>_hash_file_bytes\<close>: the hasher is the bytes it was updated with, the file the
  bytes not yet read.
\<close>

function hash_loop :: "(bytes \<Rightarrow> string) \<Rightarrow> nat \<Rightarrow> bytes \<Rightarrow> int \<Rightarrow> bytes \<Rightarrow> string \<times> int" where
  "hash_loop H n fed sz fh =
     (let chunk = take n fh
      in if chunk = [] then (H fed, sz)
         else hash_loop H n (fed @ chunk) (sz + int (length chunk)) (drop n fh))"
  by pat_completeness auto
termination
  by (relation "measure (\<lambda>(H, n, fed, sz, fh). length fh)") (auto simp: Let_def)

declare hash_loop.simps [simp del]

definition hash_file_bytes :: "(bytes \<Rightarrow> string) \<Rightarrow> bytes \<Rightarrow> string \<times> int" where
  "hash_file_bytes H b = hash_loop H chunk_size [] 0 b"

definition manifest_entry :: "file_digest \<Rightarrow> json" where
  "manifest_entry f =
     JObj [(''path'', JStr (fd_path f)), (''sha256'', JStr (fd_sha256 f)), (''size'', JInt (fd_size f))]"

definition manifest_json :: "file_digest list \<Rightarrow> json" where
  "manifest_json files =
     JObj [(''algorithm'', JStr digest_algorithm),
           (''files'', JList (map manifest_entry (sort_key fd_path files)))]"

definition canonical_manifest_bytes :: "file_digest list \<Rightarrow> bytes" where
  "canonical_manifest_bytes files = utf8 (dumps (manifest_json files))"

definition artifact_digest_from_files ::
    "(bytes \<Rightarrow> string) \<Rightarrow> string \<Rightarrow> file_digest list \<Rightarrow> exn + artifact_digest" where
  "artifact_digest_from_files H artifact_type files =
     (if artifact_type = ''file'' then
        (case files of
           [f] \<Rightarrow> Inr \<lparr>ad_algorithm = digest_algorithm, ad_type = ''file'',
                       ad_digest = fd_sha256 f, ad_files = files\<rparr>
         | _ \<Rightarrow> Inl ValueError)
      else if artifact_type \<noteq> ''directory'' then Inl ValueError
      else Inr \<lparr>ad_algorithm = digest_algorithm, ad_type = ''directory'',
                ad_digest = H (canonical_manifest_bytes files),
                ad_files = sort_key fd_path files\<rparr>)"

text \<open>Reading the bytes of one entry: the entries that cannot be opened raise \<open>OSError\<close>.\<close>

fun read_node :: "fs_node \<Rightarrow> exn + bytes" where
  "read_node (FFile b) = Inr b"
| "read_node (FLink (Some (FFile b))) = Inr b"
| "read_node _ = Inl OSError"

definition hash_file :: "(bytes \<Rightarrow> string) \<Rightarrow> string list \<Rightarrow> fs_node option \<Rightarrow> exn + artifact_digest" where
  "hash_file H path nd =
     (case nd of
        None \<Rightarrow> Inl (ArtifactNotFoundError (path_str path))
      | Some n \<Rightarrow>
          if \<not> is_file_node (followed n) then Inl (ArtifactNotFoundError (path_str path))
          else if is_symlink n then Inl (UnsafePathError (path_str path) ''artifact root is a symlink'')
          else (case read_node n of
              Inl e \<Rightarrow> Inl e
            | Inr b \<Rightarrow>
                (case hash_file_bytes H b of
                   (digest, sz) \<Rightarrow> artifact_digest_from_files H ''file''
                     [\<lparr>fd_path = path_name path, fd_sha256 = digest, fd_size = sz\<rparr>])))"

text \<open>One file of the walk: \<open>rel\<close> is the directory's path below \<open>root\<close>.\<close>

definition hash_walked ::
    "(bytes \<Rightarrow> string) \<Rightarrow> string list \<Rightarrow> string list \<Rightarrow> string \<times> fs_node \<Rightarrow> exn + file_digest" where
  "hash_walked H root rel entry =
     (case entry of (fname, nd) \<Rightarrow>
        let file_path = root @ rel @ [fname]
        in if is_symlink nd then Inl (UnsafePathError (path_str file_path) ''symlinked file'')
           else (case relative_to file_path root of
               None \<Rightarrow> Inl (UnsafePathError (path_str file_path) ''resolves outside artifact root'')
             | Some relative \<Rightarrow>
                 (case read_node nd of
                    Inl e \<Rightarrow> Inl e
                  | Inr b \<Rightarrow>
                      (case hash_file_bytes H b of
                         (digest, sz) \<Rightarrow>
                           Inr \<lparr>fd_path = as_posix relative, fd_sha256 = digest, fd_size = sz\<rparr>))))"

text \<open>One iteration of the walk: links among the subdirectories first, then the files.\<close>

definition hash_walk_step ::
    "(bytes \<Rightarrow> string) \<Rightarrow> string list \<Rightarrow> walked \<Rightarrow> exn + file_digest list" where
  "hash_walk_step H root w =
     (case w of (rel, dirs, files) \<Rightarrow>
        (case find (\<lambda>(n, nd). is_symlink nd) dirs of
           Some (dname, _) \<Rightarrow> Inl (UnsafePathError (path_str (root @ rel @ [dname])) ''symlinked directory'')
         | None \<Rightarrow> map_result (hash_walked H root rel) files))"

definition hash_directory :: "(bytes \<Rightarrow> string) \<Rightarrow> string list \<Rightarrow> fs_node option \<Rightarrow> exn + artifact_digest" where
  "hash_directory H root nd =
     (if \<not> path_is_dir nd then Inl (ArtifactNotFoundError (path_str root))
      else (case map_result (hash_walk_step H root) (os_walk [] (the (followed (the nd)))) of
          Inl e \<Rightarrow> Inl e
        | Inr fss \<Rightarrow>
            (let file_digests = concat fss
             in if file_digests = [] then Inl (EmptyArtifactError (path_str root))
                else artifact_digest_from_files H ''directory'' file_digests)))"

definition hash_artifact :: "(bytes \<Rightarrow> string) \<Rightarrow> string list \<Rightarrow> fs_node option \<Rightarrow> exn + artifact_digest" where
  "hash_artifact H path nd =
     (if \<not> path_exists nd then Inl (ArtifactNotFoundError (path_str path))
      else if path_is_symlink nd then Inl (UnsafePathError (path_str path) ''artifact root is a symlink'')
      else if path_is_dir nd then hash_directory H path nd
      else hash_file H path nd)"

section \<open>Streaming and the canonical manifest\<close>

lemma hash_loop_eq: "0 < n \<Longrightarrow> hash_loop H n fed sz fh = (H (fed @ fh), sz + int (length fh))"
proof (induction H n fed sz fh rule: hash_loop.induct)
  case (1 H n fed sz fh)
  show ?case
  proof (cases "take n fh = []")
    case True
    then have "fh = []" using 1 by simp
    then show ?thesis by (subst hash_loop.simps) simp
  next
    case False
    have "int (length fh) = int (length (take n fh)) + int (length (drop n fh))"
      by (metis append_take_drop_id length_append of_nat_add)
    then show ?thesis
      using 1 False by (simp add: hash_loop.simps [of H n fed sz fh] Let_def)
  qed
qed

lemma hash_file_bytes_eq [simp]: "hash_file_bytes H b = (H b, int (length b))"
  by (simp add: hash_file_bytes_def hash_loop_eq chunk_size_def)

lemma wf_manifest_json [simp]: "wf_json (manifest_json files)"
  by (auto simp: manifest_json_def manifest_entry_def)

lemma canon_manifest_json [simp]: "canon (manifest_json files) = manifest_json files"
  by (simp add: manifest_json_def manifest_entry_def comp_def less_eq_char_def)

lemma manifest_entry_inj: "manifest_entry f = manifest_entry g \<Longrightarrow> f = g"
  by (simp add: manifest_entry_def)

lemma canonical_manifest_inj:
  assumes "canonical_manifest_bytes fs = canonical_manifest_bytes gs"
  shows "sort_key fd_path fs = sort_key fd_path gs"
proof -
  have "manifest_json fs = manifest_json gs"
    using assms dumps_eq_canon [of "manifest_json fs" "manifest_json gs"]
    by (simp add: canonical_manifest_bytes_def)
  then have "map manifest_entry (sort_key fd_path fs) = map manifest_entry (sort_key fd_path gs)"
    by (simp add: manifest_json_def)
  then show ?thesis by (rule map_injective) (auto intro: injI manifest_entry_inj)
qed

section \<open>What a directory's digest is\<close>

definition file_record :: "(bytes \<Rightarrow> string) \<Rightarrow> string list \<times> bytes \<Rightarrow> file_digest" where
  "file_record H pb =
     \<lparr>fd_path = as_posix (fst pb), fd_sha256 = H (snd pb), fd_size = int (length (snd pb))\<rparr>"

text \<open>The specification: the digest over a list of files, whatever its order.\<close>

definition digest_of_contents :: "(bytes \<Rightarrow> string) \<Rightarrow> (string list \<times> bytes) list \<Rightarrow> artifact_digest" where
  "digest_of_contents H cs =
     \<lparr>ad_algorithm = ''sha256'', ad_type = ''directory'',
      ad_digest = H (canonical_manifest_bytes (map (file_record H) cs)),
      ad_files = sort_key fd_path (map (file_record H) cs)\<rparr>"

lemma hash_walked_file [simp]:
  "hash_walked H root rel (n, FFile b) = Inr (file_record H (rel @ [n], b))"
  by (simp add: hash_walked_def Let_def file_record_def)

lemma walk_clean:
  assumes "clean nd" and "(q, ds, fs) \<in> set (os_walk p nd)"
  shows "find (\<lambda>(n, nd). is_symlink nd) ds = None \<and> (\<forall>(n, f) \<in> set fs. \<exists>b. f = FFile b)"
  using assms
proof (induction p nd rule: os_walk.induct)
  case (1 p es)
  show ?case
  proof (cases "(q, ds, fs) = (p, filter is_dir_entry es, filter (\<lambda>e. \<not> is_dir_entry e) es)")
    case True
    have "\<not> is_symlink nd \<and> (\<not> is_dir_entry (n, nd) \<longrightarrow> (\<exists>b. nd = FFile b))" if "(n, nd) \<in> set es" for n nd
      using 1 that by (cases nd) auto
    then have "find (\<lambda>(n, nd). is_symlink nd) (filter is_dir_entry es) = None"
      "\<forall>(n, f) \<in> set (filter (\<lambda>e. \<not> is_dir_entry e) es). \<exists>b. f = FFile b"
      unfolding find_None_iff by auto
    then show ?thesis using True by simp
  next
    case False
    then obtain n nd where e: "(n, nd) \<in> set es" "(q, ds, fs) \<in> set (os_walk (p @ [n]) nd)"
      using 1 by auto
    have "clean nd" using "1.prems"(1) e(1) by auto
    then show ?thesis using "1.IH" [OF e(1) refl _ e(2)] by blast
  qed
qed auto

lemma hash_step_clean:
  assumes "clean nd" and "w \<in> set (os_walk p nd)"
  shows "hash_walk_step H root w =
    Inr (map (file_record H) (case w of (q, ds, fs) \<Rightarrow> map (\<lambda>(n, f). (q @ [n], file_bytes f)) fs))"
proof -
  obtain q ds fs where w: "w = (q, ds, fs)" by (cases w)
  have c: "find (\<lambda>(n, nd). is_symlink nd) ds = None" "\<forall>(n, f) \<in> set fs. \<exists>b. f = FFile b"
    using walk_clean assms w by blast+
  have "map_result (hash_walked H root q) fs
      = Inr (map (\<lambda>(n, f). file_record H (q @ [n], file_bytes f)) fs)"
    using c(2) by (intro map_result_total) auto
  then show ?thesis using c(1) w by (simp add: hash_walk_step_def case_prod_unfold)
qed

lemma distinct_fd_path:
  assumes "wf_tree (FDir l es)"
  shows "distinct (map fd_path (map (file_record H) (contents [] (FDir l es))))"
proof -
  let ?c = "contents [] (FDir l es)"
  have "inj_on as_posix (fst ` set ?c)"
  proof (rule inj_onI)
    fix p q assume "p \<in> fst ` set ?c" "q \<in> fst ` set ?c" "as_posix p = as_posix q"
    moreover have "p \<noteq> [] \<and> (\<forall>n \<in> set p. valid_name n)" if "p \<in> fst ` set ?c" for p
      using that contents_prefix_dir [of _ "[]" l es] contents_valid [OF assms, of "[]"] by fastforce
    ultimately show "p = q" using as_posix_inj by blast
  qed
  moreover have "map fd_path (map (file_record H) ?c) = map as_posix (map fst ?c)"
    by (simp add: file_record_def)
  ultimately show ?thesis using contents_distinct [OF assms, of "[]"]
    by (simp only: distinct_map [of as_posix] set_map)
qed

lemma hash_directory_clean:
  assumes "wf_tree (FDir l es)" and "clean (FDir l es)"
  shows "hash_directory H root (Some (FDir l es)) =
    (let cs = contents [] (FDir l es)
     in if cs = [] then Inl (EmptyArtifactError (path_str root)) else Inr (digest_of_contents H cs))"
proof -
  let ?nd = "FDir l es"
  define g :: "walked \<Rightarrow> (string list \<times> bytes) list" where
    "g = (\<lambda>(q, ds, fs). map (\<lambda>(n, f). (q @ [n], file_bytes f)) fs)"
  let ?fs = "map (file_record H) (concat (map g (os_walk [] ?nd)))"
  let ?cs = "map (file_record H) (contents [] ?nd)"
  have "map_result (hash_walk_step H root) (os_walk [] ?nd) = Inr (map (map (file_record H) \<circ> g) (os_walk [] ?nd))"
    using hash_step_clean [OF assms(2)] by (intro map_result_total) (auto simp: g_def)
  moreover have "concat (map (map (file_record H) \<circ> g) (os_walk [] ?nd)) = ?fs"
    by (simp add: map_concat)
  moreover have m: "mset ?fs = mset ?cs"
    using walk_files_contents [OF assms(2), of "[]"] by (simp add: g_def)
  moreover have sorted: "sort_key fd_path ?fs = sort_key fd_path ?cs"
    using sort_key_mset_eq [OF m [symmetric] distinct_fd_path [OF assms(1)]] by simp
  moreover have "?fs = [] \<longleftrightarrow> contents [] ?nd = []"
    using m by (metis map_is_Nil_conv mset_zero_iff)
  ultimately show ?thesis
    by (simp add: hash_directory_def path_is_dir_def Let_def artifact_digest_from_files_def
        digest_of_contents_def canonical_manifest_bytes_def manifest_json_def digest_algorithm_def
        del: map_concat map_map)
qed

text \<open>The errors a walk can stop with: a link, or an entry that cannot be read.\<close>

definition walk_error :: "exn \<Rightarrow> bool" where
  "walk_error e \<longleftrightarrow> e = OSError \<or> (\<exists>p r. e = UnsafePathError p r)"

lemma hash_walk_step_error: "hash_walk_step H root w = Inl e \<Longrightarrow> walk_error e"
proof -
  have "walk_error e" if "hash_walked H root q x = Inl e" for q x e
  proof -
    have "e = OSError" if "read_node nd = Inl e" for nd e
      using that by (induction nd rule: read_node.induct) auto
    then show ?thesis using that
      by (auto simp: hash_walked_def walk_error_def Let_def split: prod.splits if_splits option.splits sum.splits)
  qed
  then have "walk_error e" if "map_result (hash_walked H root q) fs = Inl e" for q fs e
    using map_result_InlD [OF that] by blast
  then show "hash_walk_step H root w = Inl e \<Longrightarrow> walk_error e"
    by (auto simp: hash_walk_step_def walk_error_def split: prod.splits option.splits)
qed

lemma unclean_entry:
  assumes "(n, nd) \<in> set es" and "\<not> clean nd" and "\<forall>l es'. nd \<noteq> FDir l es'"
  shows "\<exists>e. hash_walk_step H root (p, filter is_dir_entry es, filter (\<lambda>e. \<not> is_dir_entry e) es) = Inl e"
proof (cases "is_dir_entry (n, nd)")
  case True
  then have "is_symlink nd" using assms by (cases nd) auto
  then have "find (\<lambda>(n, nd). is_symlink nd) (filter is_dir_entry es) \<noteq> None"
    unfolding find_None_iff using assms(1) True by auto
  then show ?thesis by (auto simp: hash_walk_step_def)
next
  case False
  obtain e where "hash_walked H root p (n, nd) = Inl e"
    using assms(2,3) by (cases nd) (auto simp: hash_walked_def Let_def)
  moreover have "(n, nd) \<in> set (filter (\<lambda>e. \<not> is_dir_entry e) es)" using assms(1) False by simp
  ultimately have "\<exists>e. map_result (hash_walked H root p) (filter (\<lambda>e. \<not> is_dir_entry e) es) = Inl e"
    by (intro map_result_stops)
  then show ?thesis by (auto simp: hash_walk_step_def split: option.splits)
qed

lemma walk_unclean:
  assumes "\<not> clean nd" and "is_dir_node (Some nd)"
  shows "\<exists>w \<in> set (os_walk p nd). \<exists>e. hash_walk_step H root w = Inl e"
  using assms
proof (induction p nd rule: os_walk.induct)
  case (1 p es)
  then obtain n nd where e: "(n, nd) \<in> set es" "\<not> clean nd" by auto
  show ?case
  proof (cases "\<exists>l es'. nd = FDir l es'")
    case True
    then have "is_dir_node (Some nd)" by auto
    then obtain w e where "w \<in> set (os_walk (p @ [n]) nd)" "hash_walk_step H root w = Inl e"
      using "1.IH" [OF e(1) refl e(2)] by blast
    moreover have "set (os_walk (p @ [n]) nd) \<subseteq> set (os_walk p (FDir True es))"
      using e(1) by auto
    ultimately show ?thesis by blast
  next
    case False
    then show ?thesis using unclean_entry [OF e] by simp
  qed
qed auto

lemma hash_directory_unclean:
  assumes "\<not> clean (FDir l es)"
  shows "\<exists>e. hash_directory H root (Some (FDir l es)) = Inl e \<and> walk_error e"
proof -
  obtain w e where "w \<in> set (os_walk [] (FDir l es))" "hash_walk_step H root w = Inl e"
    using walk_unclean [OF assms, of "[]" H root] by (metis is_dir_node.simps(1))
  then obtain e' where "map_result (hash_walk_step H root) (os_walk [] (FDir l es)) = Inl e'"
    by (metis map_result_stops)
  moreover from this obtain w' where "hash_walk_step H root w' = Inl e'"
    using map_result_InlD by meson
  ultimately show ?thesis using hash_walk_step_error
    by (auto simp: hash_directory_def path_is_dir_def)
qed

text \<open>Success in one equation: the tree is clean and has a file.\<close>

lemma hash_directory_Inr_iff:
  assumes "wf_tree (FDir l es)"
  shows "hash_directory H root (Some (FDir l es)) = Inr d \<longleftrightarrow>
    clean (FDir l es) \<and> contents [] (FDir l es) \<noteq> [] \<and> d = digest_of_contents H (contents [] (FDir l es))"
  using hash_directory_clean [OF assms, of H root] hash_directory_unclean [of l es H root]
  by (cases "clean (FDir l es)") (auto simp: Let_def)

section \<open>The order of listing\<close>

lemma relisted_contents:
  assumes "relisted a b"
  shows "(\<forall>p. mset (contents p a) = mset (contents p b)) \<and> clean a = clean b
    \<and> (\<forall>l. (\<exists>es. a = FDir l es) \<longleftrightarrow> (\<exists>es. b = FDir l es))"
  using assms
proof (induction rule: relisted.induct)
  case (relisted_order es gs l)
  then have s: "set es = set gs" by (rule mset_eq_setD)
  have "mset (concat (map f es)) = mset (concat (map f gs))" for f :: "string \<times> fs_node \<Rightarrow> (string list \<times> bytes) list"
  proof -
    have "mset (concat (map f xs)) = (\<Sum>x\<in>#mset xs. mset (f x))" for xs
      by (induction xs) auto
    then show ?thesis using relisted_order by simp
  qed
  then show ?case using s by (cases l) auto
next
  case (relisted_entry a b l xs n ys)
  then show ?case by (cases l) auto
qed auto

lemma relisted_wf: "relisted a b \<Longrightarrow> wf_tree a \<Longrightarrow> wf_tree b"
proof (induction rule: relisted.induct)
  case (relisted_order es gs l)
  then have "set es = set gs" by (metis mset_eq_setD)
  moreover have "distinct (map fst gs)"
    using relisted_order by (metis mset_map mset_eq_imp_distinct_iff wf_tree.simps(1))
  ultimately show ?case using relisted_order by simp
qed auto

section \<open>Identity up to collisions\<close>

text \<open>
  Everything that is hashed for a tree: its files and its manifest.  A collision would be two
  different byte strings among these with the same digest, so \<open>inj_on H\<close> of them says that
  no collision has occurred.
\<close>

definition hashed_inputs :: "(bytes \<Rightarrow> string) \<Rightarrow> (string list \<times> bytes) list \<Rightarrow> bytes set" where
  "hashed_inputs H cs = insert (canonical_manifest_bytes (map (file_record H) cs)) (snd ` set cs)"

lemma file_record_subset:
  assumes "wf_tree (FDir l es)" and "wf_tree (FDir m fs)"
    and "inj_on H (snd ` set (contents [] (FDir l es)) \<union> snd ` set (contents [] (FDir m fs)))"
    and "set (map (file_record H) (contents [] (FDir l es))) \<subseteq> set (map (file_record H) (contents [] (FDir m fs)))"
  shows "set (contents [] (FDir l es)) \<subseteq> set (contents [] (FDir m fs))"
proof
  fix x assume x: "x \<in> set (contents [] (FDir l es))"
  then obtain y where y: "y \<in> set (contents [] (FDir m fs))" "file_record H x = file_record H y"
    using assms(4) by (auto simp del: contents.simps)
  have "fst z \<noteq> [] \<and> (\<forall>n \<in> set (fst z). valid_name n)"
    if "wf_tree (FDir k gs)" "z \<in> set (contents [] (FDir k gs))" for z k gs
    using contents_prefix_dir [OF that(2)] contents_valid [OF that(1) _ that(2)] by auto
  then have "fst x = fst y"
    using as_posix_inj [of "fst x" "fst y"] x y assms(1,2) by (auto simp: file_record_def)
  moreover have "snd x = snd y"
    by (rule inj_onD [OF assms(3)]) (use x y in \<open>auto simp: file_record_def simp del: contents.simps\<close>)
  ultimately show "x \<in> set (contents [] (FDir m fs))" using y(1) by (metis prod.collapse)
qed

lemma digest_of_contents_eq:
  assumes "inj_on H (hashed_inputs H cs \<union> hashed_inputs H ds)"
    and "ad_digest (digest_of_contents H cs) = ad_digest (digest_of_contents H ds)"
  shows "set (map (file_record H) cs) = set (map (file_record H) ds)"
proof -
  have "canonical_manifest_bytes (map (file_record H) cs) = canonical_manifest_bytes (map (file_record H) ds)"
    by (rule inj_onD [OF assms(1)]) (use assms(2) in \<open>auto simp: digest_of_contents_def hashed_inputs_def\<close>)
  from canonical_manifest_inj [OF this] show ?thesis by (metis set_sort)
qed



text \<open>
  Hashing does not depend on the order in which the file system lists the entries of the
  directories of the tree: the whole result is the same.
\<close>

theorem directory_digest_listing_order:
  assumes "wf_tree (FDir l es)" and "relisted (FDir l es) (FDir l fs)"
    and "hash_directory H root (Some (FDir l es)) = Inr d"
  shows "hash_directory H root (Some (FDir l fs)) = Inr d"
proof -
  have wf: "wf_tree (FDir l fs)" using relisted_wf assms by blast
  have m: "mset (contents [] (FDir l es)) = mset (contents [] (FDir l fs))" "clean (FDir l es) = clean (FDir l fs)"
    using relisted_contents [OF assms(2)] by blast+
  then have "mset (map (file_record H) (contents [] (FDir l es))) = mset (map (file_record H) (contents [] (FDir l fs)))"
    by (metis mset_map)
  from sort_key_mset_eq [OF this distinct_fd_path [OF assms(1)]]
  have "digest_of_contents H (contents [] (FDir l es)) = digest_of_contents H (contents [] (FDir l fs))"
    by (simp add: digest_of_contents_def canonical_manifest_bytes_def manifest_json_def)
  moreover have "contents [] (FDir l es) = [] \<longleftrightarrow> contents [] (FDir l fs) = []"
    using m(1) by (metis mset_zero_iff)
  ultimately show ?thesis
    using assms(3) m(2) hash_directory_Inr_iff [OF wf] hash_directory_Inr_iff [OF assms(1)] by metis
qed

theorem directory_digest_listing_order_witness:
  "\<exists>d. hash_directory (\<lambda>b. b) [''m''] (Some (FDir True [(''a'', FFile ''x''), (''b'', FDir True [(''c'', FFile [])])])) = Inr d
     \<and> hash_directory (\<lambda>b. b) [''m''] (Some (FDir True [(''b'', FDir True [(''c'', FFile [])]), (''a'', FFile ''x'')])) = Inr d"
proof -
  let ?t = "FDir True [(''a'', FFile ''x''), (''b'', FDir True [(''c'', FFile [])])]"
  let ?u = "FDir True [(''b'', FDir True [(''c'', FFile [])]), (''a'', FFile ''x'')]"
  have wf: "wf_tree ?t" by (auto simp: valid_name_def)
  have r: "relisted ?t ?u" by (rule relisted_order) simp
  have t: "hash_directory (\<lambda>b. b) [''m''] (Some ?t) = Inr (digest_of_contents (\<lambda>b. b) (contents [] ?t))"
    using hash_directory_Inr_iff [OF wf] by simp
  show ?thesis using t directory_digest_listing_order [OF wf r t] by blast
qed

text \<open>
  Hashing fails closed: a directory tree with a symbolic link or an unreadable entry in any
  listed directory, however deep, yields no digest but an unsafe-path or operating-system error.
\<close>

theorem directory_digest_fails_closed:
  assumes "\<not> clean (FDir l es)"
  shows "\<exists>e. hash_directory H root (Some (FDir l es)) = Inl e
    \<and> (e = OSError \<or> (\<exists>p r. e = UnsafePathError p r))"
  using hash_directory_unclean [OF assms] by (simp add: walk_error_def)

theorem directory_digest_fails_closed_witness:
  "\<exists>e. hash_directory (\<lambda>b. b) [''m''] (Some (FDir True [(''a'', FFile ''x''), (''b'', FDir True [(''c'', FLink None)])])) = Inl e
     \<and> (e = OSError \<or> (\<exists>p r. e = UnsafePathError p r))"
  by (rule directory_digest_fails_closed) simp

text \<open>
  A subdirectory the process cannot list is passed over without an error: the digest is the
  one of the tree without it.
\<close>

theorem unlistable_directory_omitted:
  "hash_directory H root (Some (FDir True (xs @ (n, FDir False sub) # ys)))
     = hash_directory H root (Some (FDir True (xs @ ys)))"
proof -
  have f: "find P (as @ x # bs) = find P (as @ bs)" if "\<not> P x" for P and x :: "string \<times> fs_node" and as bs
    using that by (induction as) auto
  have "hash_walk_step H root ([], filter is_dir_entry (xs @ (n, FDir False sub) # ys), fs)
      = hash_walk_step H root ([], filter is_dir_entry (xs @ ys), fs)" for fs
    by (simp add: hash_walk_step_def f)
  then show ?thesis by (simp add: hash_directory_def path_is_dir_def)
qed

end
