(* ===== verification/Documents.thy ===== *)
theory Documents
  imports Hashing
begin

text \<open>
  \<open>manifest/\<close> and \<open>mbom/\<close>: the manifest of an artifact, the ML-BOM generated from it, and their
  canonical JSON, which is what gets hashed and signed.  The theorems say that the canonical bytes
  identify the document, and what a generated document claims.

  The models are pydantic's: \<open>model_dump(mode="json", exclude_none=True)\<close> writes the fields in
  their order, those that are \<open>None\<close> left out.  The serial number and the timestamp, drawn from
  \<open>uuid4\<close> and the clock, are arguments of the generator.
\<close>

section \<open>Dumping a model\<close>

definition drop_none :: "(string \<times> json option) list \<Rightarrow> json" where
  "drop_none fs = JObj (map (\<lambda>(k, v). (k, the v)) (filter (\<lambda>(k, v). v \<noteq> None) fs))"

definition opt_str :: "string option \<Rightarrow> json option" where
  "opt_str s = map_option JStr s"

lemma map_of_drop_none:
  "distinct (map fst fs) \<Longrightarrow>
     map_of (map (\<lambda>(k, v). (k, the v)) (filter (\<lambda>(k, v). v \<noteq> None) fs)) k = Option.bind (map_of fs k) id"
proof (induction fs)
  case (Cons kv fs)
  have none: "map_of fs k' = None" if "k' = fst kv" for k'
    using Cons.prems that by (simp add: map_of_eq_None_iff)
  show ?case using Cons none by (cases kv; cases "snd kv") auto
qed simp

lemma wf_drop_none:
  "wf_json (drop_none fs) \<longleftrightarrow> distinct (map fst (filter (\<lambda>(k, v). v \<noteq> None) fs)) \<and> (\<forall>(k, v) \<in> set fs. \<forall>j. v = Some j \<longrightarrow> wf_json j)"
  by (fastforce simp: drop_none_def comp_def case_prod_unfold)

lemma distinct_drop_none: "distinct (map fst fs) \<Longrightarrow> distinct (map fst (filter P fs))"
  by (induction fs) (auto simp: image_iff)

lemma map_of_JObj_canon:
  assumes "canon (JObj kvs) = canon (JObj lvs)" "distinct (map fst kvs)" "distinct (map fst lvs)"
  shows "map_option canon (map_of kvs k) = map_option canon (map_of lvs k)"
  using assms(1) map_of_canon [OF assms(2), of k] map_of_canon [OF assms(3), of k] by simp

text \<open>The bytes of a dumped model determine each of its fields.\<close>

lemma drop_none_fields:
  assumes "dumps (drop_none fs) = dumps (drop_none gs)"
    and "map fst fs = map fst gs" and "distinct (map fst fs)"
    and "wf_json (drop_none fs)" "wf_json (drop_none gs)"
  shows "map (\<lambda>(k, v). map_option canon v) fs = map (\<lambda>(k, v). map_option canon v) gs"
proof (rule nth_equalityI)
  show len: "length (map (\<lambda>(k, v). map_option canon v) fs) = length (map (\<lambda>(k, v). map_option canon v) gs)"
    using map_eq_imp_length_eq [OF assms(2)] by simp
  fix i assume "i < length (map (\<lambda>(k, v). map_option canon v) fs)"
  then have i: "i < length fs" "i < length gs" using len by simp_all
  have dg: "distinct (map fst gs)" using assms(2,3) by simp
  have k: "fst (fs ! i) = fst (gs ! i)" using assms(2) i by (metis nth_map)
  have c: "canon (drop_none fs) = canon (drop_none gs)" using dumps_eq_canon assms(1,4,5) by blast
  have "map_option canon (Option.bind (map_of fs (fst (fs ! i))) id) = map_option canon (Option.bind (map_of gs (fst (fs ! i))) id)"
    using map_of_JObj_canon [OF c [unfolded drop_none_def]] assms(3) dg
    by (simp only: map_of_drop_none [symmetric] fst_conv map_map comp_def case_prod_unfold)
      (simp add: distinct_drop_none comp_def)
  moreover have "map_of fs (fst (fs ! i)) = Some (snd (fs ! i))" "map_of gs (fst (fs ! i)) = Some (snd (gs ! i))"
    using assms(3) dg i unfolding k by (simp_all add: k [symmetric] map_of_eq_Some_iff)
      (metis k nth_mem prod.collapse map_of_eq_Some_iff)+
  ultimately have "map_option canon (snd (fs ! i)) = map_option canon (snd (gs ! i))" by simp
  then show "map (\<lambda>(k, v). map_option canon v) fs ! i = map (\<lambda>(k, v). map_option canon v) gs ! i"
    using i by (simp add: case_prod_unfold)
qed

lemma canon_JStr_opt [simp]: "map_option canon (opt_str s) = opt_str s"
  by (cases s) (simp_all add: opt_str_def)

lemma opt_str_inj [simp]: "opt_str s = opt_str t \<longleftrightarrow> s = t"
  by (cases s; cases t) (simp_all add: opt_str_def)

lemma opt_str_eq_Some [simp]: "opt_str s = Some j \<longleftrightarrow> (\<exists>t. s = Some t \<and> j = JStr t)"
  by (cases s) (auto simp: opt_str_def)

section \<open>The manifest\<close>

record manifest_file_entry =
  mf_path :: string
  mf_sha256 :: string
  mf_size :: int

record manifest =
  m_schema_version :: string
  m_artifact_type :: string
  m_algorithm :: string
  m_digest :: string
  m_model_id :: "string option"
  m_artifact_name :: "string option"
  m_version :: "string option"
  m_format :: "string option"
  m_framework :: "string option"
  m_license :: "string option"
  m_creator :: "string option"
  m_source_location :: "string option"
  m_files :: "manifest_file_entry list"

definition manifest_schema_version :: string where
  "manifest_schema_version = ''1''"

text \<open>The \<open>Literal\<close> annotations, which pydantic checks when a manifest is built.\<close>

definition valid_manifest :: "manifest \<Rightarrow> bool" where
  "valid_manifest m \<longleftrightarrow> m_artifact_type m \<in> {''file'', ''directory''} \<and> m_algorithm m = ''sha256''"

definition file_entry_json :: "manifest_file_entry \<Rightarrow> json" where
  "file_entry_json f =
     JObj [(''path'', JStr (mf_path f)), (''sha256'', JStr (mf_sha256 f)), (''size'', JInt (mf_size f))]"

definition manifest_fields :: "manifest \<Rightarrow> (string \<times> json option) list" where
  "manifest_fields m =
     [(''schema_version'', Some (JStr (m_schema_version m))),
      (''artifact_type'', Some (JStr (m_artifact_type m))),
      (''algorithm'', Some (JStr (m_algorithm m))),
      (''digest'', Some (JStr (m_digest m))),
      (''model_id'', opt_str (m_model_id m)),
      (''artifact_name'', opt_str (m_artifact_name m)),
      (''version'', opt_str (m_version m)),
      (''format'', opt_str (m_format m)),
      (''framework'', opt_str (m_framework m)),
      (''license'', opt_str (m_license m)),
      (''creator'', opt_str (m_creator m)),
      (''source_location'', opt_str (m_source_location m)),
      (''files'', Some (JList (map file_entry_json (m_files m))))]"

definition manifest_canonical_json :: "manifest \<Rightarrow> bytes" where
  "manifest_canonical_json m = utf8 (dumps (drop_none (manifest_fields m)))"

record declared_metadata =
  dm_model_id :: "string option"
  dm_artifact_name :: "string option"
  dm_version :: "string option"
  dm_format :: "string option"
  dm_framework :: "string option"
  dm_license :: "string option"
  dm_creator :: "string option"
  dm_source_location :: "string option"

definition no_metadata :: declared_metadata where
  "no_metadata = \<lparr>dm_model_id = None, dm_artifact_name = None, dm_version = None, dm_format = None,
     dm_framework = None, dm_license = None, dm_creator = None, dm_source_location = None\<rparr>"

text \<open>\<open>precomputed\<close> is \<open>precomputed_digest\<close>; without it the artifact \<open>nd\<close> at \<open>path\<close> is hashed.\<close>

definition build_manifest ::
    "(bytes \<Rightarrow> string) \<Rightarrow> string list \<Rightarrow> fs_node option \<Rightarrow> declared_metadata option
       \<Rightarrow> artifact_digest option \<Rightarrow> exn + manifest" where
  "build_manifest H path nd metadata precomputed =
     (case (case precomputed of Some d \<Rightarrow> Inr d | None \<Rightarrow> hash_artifact H path nd) of
        Inl e \<Rightarrow> Inl e
      | Inr d \<Rightarrow>
          (let meta = (case metadata of None \<Rightarrow> no_metadata | Some m \<Rightarrow> m);
               file_entries = map (\<lambda>f. \<lparr>mf_path = fd_path f, mf_sha256 = fd_sha256 f, mf_size = fd_size f\<rparr>) (ad_files d);
               m = \<lparr>m_schema_version = manifest_schema_version, m_artifact_type = ad_type d,
                    m_algorithm = ad_algorithm d, m_digest = ad_digest d,
                    m_model_id = dm_model_id meta,
                    m_artifact_name = or_str (dm_artifact_name meta) (Some (path_name path)),
                    m_version = dm_version meta, m_format = dm_format meta,
                    m_framework = dm_framework meta, m_license = dm_license meta,
                    m_creator = dm_creator meta, m_source_location = dm_source_location meta,
                    m_files = (if ad_type d = ''directory'' then file_entries else [])\<rparr>
           in if valid_manifest m then Inr m else Inl ValidationError))"

lemma file_entry_json_inj: "canon (file_entry_json f) = canon (file_entry_json g) \<Longrightarrow> f = g"
proof -
  assume c: "canon (file_entry_json f) = canon (file_entry_json g)"
  note k = map_of_JObj_canon [OF c [unfolded file_entry_json_def], simplified]
  show ?thesis using k [of "''path''"] k [of "''sha256''"] k [of "''size''"]
    by (cases f; cases g) simp
qed

lemma map_inj_canon:
  assumes "\<And>x y. canon (f x) = canon (f y) \<Longrightarrow> x = y" and "map canon (map f xs) = map canon (map f ys)"
  shows "xs = ys"
  by (rule map_injective [of "canon \<circ> f"]) (use assms in \<open>auto intro: injI\<close>)

lemma wf_drop_noneI:
  "distinct (map fst fs) \<Longrightarrow> list_all (\<lambda>(k, v). case v of None \<Rightarrow> True | Some j \<Rightarrow> wf_json j) fs \<Longrightarrow> wf_json (drop_none fs)"
  by (auto simp: wf_drop_none list_all_iff distinct_drop_none split: option.splits)

lemma wf_opt_str [simp]: "(case opt_str s of None \<Rightarrow> True | Some j \<Rightarrow> wf_json j)"
  by (cases s) (simp_all add: opt_str_def)

lemma wf_manifest_fields: "wf_json (drop_none (manifest_fields m))"
  by (rule wf_drop_noneI) (simp_all add: manifest_fields_def file_entry_json_def)

text \<open>
  The canonical bytes of a manifest, over which it is identified, determine every field of it:
  absent metadata is told from empty metadata, and the files are told apart with their order.
\<close>

theorem manifest_bytes_identify:
  "manifest_canonical_json m = manifest_canonical_json m' \<longleftrightarrow> m = m'"
proof
  assume "manifest_canonical_json m = manifest_canonical_json m'"
  then have "dumps (drop_none (manifest_fields m)) = dumps (drop_none (manifest_fields m'))"
    using wf_manifest_fields by (simp add: manifest_canonical_json_def)
  from drop_none_fields [OF this _ _ wf_manifest_fields wf_manifest_fields]
  have e: "map (\<lambda>(k, v). map_option canon v) (manifest_fields m) = map (\<lambda>(k, v). map_option canon v) (manifest_fields m')"
    by (simp add: manifest_fields_def)
  then have "map canon (map file_entry_json (m_files m)) = map canon (map file_entry_json (m_files m'))"
    by (simp add: manifest_fields_def)
  then have "m_files m = m_files m'" by (rule map_inj_canon [where f = file_entry_json, rotated]) (rule file_entry_json_inj)
  then show "m = m'" using e by (cases m; cases m') (simp add: manifest_fields_def)
qed simp

section \<open>The ML-BOM\<close>

datatype evidence_level = DECLARED | SIGNED | VERIFIED | INDEPENDENTLY_TESTED | HUMAN_APPROVED

fun evidence_value :: "evidence_level \<Rightarrow> string" where
  "evidence_value DECLARED = ''DECLARED''"
| "evidence_value SIGNED = ''SIGNED''"
| "evidence_value VERIFIED = ''VERIFIED''"
| "evidence_value INDEPENDENTLY_TESTED = ''INDEPENDENTLY_TESTED''"
| "evidence_value HUMAN_APPROVED = ''HUMAN_APPROVED''"

record evidenced_field =
  ef_value :: string
  ef_evidence :: evidence_level

record mbom_properties =
  mp_artifact_digest :: string
  mp_artifact_type :: string
  mp_parent_models :: "evidenced_field list"
  mp_dataset_references :: "evidenced_field list"
  mp_training_code_commit :: "evidenced_field option"
  mp_framework :: "evidenced_field option"
  mp_license :: "evidenced_field option"
  mp_trust_status :: string

record mbom_metadata =
  mm_timestamp :: string
  mm_tool_name :: string
  mm_tool_version :: string

record mbom_component =
  mc_type :: string
  mc_name :: string
  mc_version :: "string option"

record mlbom =
  b_bom_format :: string
  b_spec_version :: string
  b_schema_version :: string
  b_serial_number :: string
  b_version :: int
  b_metadata :: mbom_metadata
  b_components :: "mbom_component list"
  b_modelguard :: mbom_properties

definition mbom_schema_version :: string where "mbom_schema_version = ''1''"
definition cyclonedx_spec_version :: string where "cyclonedx_spec_version = ''1.6''"
definition tool_version :: string where "tool_version = ''0.9.0''"

definition evidenced_json :: "evidenced_field \<Rightarrow> json" where
  "evidenced_json f = JObj [(''value'', JStr (ef_value f)), (''evidence'', JStr (evidence_value (ef_evidence f)))]"

definition properties_fields :: "mbom_properties \<Rightarrow> (string \<times> json option) list" where
  "properties_fields p =
     [(''artifact_digest'', Some (JStr (mp_artifact_digest p))),
      (''artifact_type'', Some (JStr (mp_artifact_type p))),
      (''parent_models'', Some (JList (map evidenced_json (mp_parent_models p)))),
      (''dataset_references'', Some (JList (map evidenced_json (mp_dataset_references p)))),
      (''training_code_commit'', map_option evidenced_json (mp_training_code_commit p)),
      (''framework'', map_option evidenced_json (mp_framework p)),
      (''license'', map_option evidenced_json (mp_license p)),
      (''trust_status'', Some (JStr (mp_trust_status p)))]"

definition metadata_json :: "mbom_metadata \<Rightarrow> json" where
  "metadata_json m =
     JObj [(''timestamp'', JStr (mm_timestamp m)), (''tool_name'', JStr (mm_tool_name m)),
           (''tool_version'', JStr (mm_tool_version m))]"

definition component_fields :: "mbom_component \<Rightarrow> (string \<times> json option) list" where
  "component_fields c =
     [(''type'', Some (JStr (mc_type c))), (''name'', Some (JStr (mc_name c))), (''version'', opt_str (mc_version c))]"

definition mlbom_fields :: "mlbom \<Rightarrow> (string \<times> json option) list" where
  "mlbom_fields b =
     [(''bomFormat'', Some (JStr (b_bom_format b))),
      (''specVersion'', Some (JStr (b_spec_version b))),
      (''schema_version'', Some (JStr (b_schema_version b))),
      (''serialNumber'', Some (JStr (b_serial_number b))),
      (''version'', Some (JInt (b_version b))),
      (''metadata'', Some (metadata_json (b_metadata b))),
      (''components'', Some (JList (map (\<lambda>c. drop_none (component_fields c)) (b_components b)))),
      (''modelguard'', Some (drop_none (properties_fields (b_modelguard b))))]"

definition mlbom_canonical_json :: "mlbom \<Rightarrow> bytes" where
  "mlbom_canonical_json b = utf8 (dumps (drop_none (mlbom_fields b)))"

text \<open>\<open>MLBOM.to_json\<close>, the text written to disk.\<close>

definition mlbom_to_json :: "mlbom \<Rightarrow> string" where
  "mlbom_to_json b = dumps_indented True 0 (drop_none (mlbom_fields b))"

record declared_provenance =
  dp_parent_models :: "string list"
  dp_dataset_references :: "string list"
  dp_training_code_commit :: "string option"
  dp_framework :: "string option"
  dp_license :: "string option"

definition no_provenance :: declared_provenance where
  "no_provenance = \<lparr>dp_parent_models = [], dp_dataset_references = [], dp_training_code_commit = None,
     dp_framework = None, dp_license = None\<rparr>"

definition declared :: "string \<Rightarrow> evidenced_field" where
  "declared v = \<lparr>ef_value = v, ef_evidence = DECLARED\<rparr>"

definition declared_if :: "string option \<Rightarrow> evidenced_field option" where
  "declared_if v = (if truthy v then map_option declared v else None)"

definition generate_mbom :: "string \<Rightarrow> string \<Rightarrow> manifest \<Rightarrow> declared_provenance option \<Rightarrow> mlbom" where
  "generate_mbom uuid now m provenance =
     (let prov = (case provenance of None \<Rightarrow> no_provenance | Some p \<Rightarrow> p);
          properties = \<lparr>mp_artifact_digest = m_algorithm m @ '':'' @ m_digest m,
            mp_artifact_type = m_artifact_type m,
            mp_parent_models = map declared (dp_parent_models prov),
            mp_dataset_references = map declared (dp_dataset_references prov),
            mp_training_code_commit = declared_if (dp_training_code_commit prov),
            mp_framework = declared_if (or_str (dp_framework prov) (m_framework m)),
            mp_license = declared_if (or_str (dp_license prov) (m_license m)),
            mp_trust_status = ''unknown''\<rparr>
      in \<lparr>b_bom_format = ''CycloneDX'', b_spec_version = cyclonedx_spec_version,
          b_schema_version = mbom_schema_version, b_serial_number = ''urn:uuid:'' @ uuid, b_version = 1,
          b_metadata = \<lparr>mm_timestamp = now, mm_tool_name = ''modelguard'', mm_tool_version = tool_version\<rparr>,
          b_components = [\<lparr>mc_type = ''machine-learning-model'',
             mc_name = the (or_str (m_artifact_name m) (Some ''unnamed-model'')), mc_version = m_version m\<rparr>],
          b_modelguard = properties\<rparr>)"

lemma evidence_value_inj [simp]: "evidence_value a = evidence_value b \<longleftrightarrow> a = b"
  by (cases a; cases b) simp_all

lemma evidenced_json_inj: "canon (evidenced_json f) = canon (evidenced_json g) \<Longrightarrow> f = g"
proof -
  assume c: "canon (evidenced_json f) = canon (evidenced_json g)"
  note k = map_of_JObj_canon [OF c [unfolded evidenced_json_def], simplified]
  show ?thesis using k [of "''value''"] k [of "''evidence''"] by (cases f; cases g) simp
qed

lemma metadata_json_inj: "canon (metadata_json f) = canon (metadata_json g) \<Longrightarrow> f = g"
proof -
  assume c: "canon (metadata_json f) = canon (metadata_json g)"
  note k = map_of_JObj_canon [OF c [unfolded metadata_json_def], simplified]
  show ?thesis using k [of "''timestamp''"] k [of "''tool_name''"] k [of "''tool_version''"]
    by (cases f; cases g) simp
qed

lemma opt_evidenced_inj:
  "map_option canon (map_option evidenced_json x) = map_option canon (map_option evidenced_json y) \<Longrightarrow> x = y"
  by (cases x; cases y) (auto dest: evidenced_json_inj)

lemma wf_evidenced: "wf_json (evidenced_json f)"
  by (simp add: evidenced_json_def)

lemma wf_component: "wf_json (drop_none (component_fields c))"
  by (rule wf_drop_noneI) (simp_all add: component_fields_def)

lemma wf_properties: "wf_json (drop_none (properties_fields p))"
  by (rule wf_drop_noneI) (simp_all add: properties_fields_def wf_evidenced comp_def split: option.split)

lemma wf_mlbom: "wf_json (drop_none (mlbom_fields b))"
  by (rule wf_drop_noneI) (simp_all add: mlbom_fields_def metadata_json_def wf_component wf_properties)

lemma canon_drop_none_fields:
  assumes "canon (drop_none fs) = canon (drop_none gs)"
    and "map fst fs = map fst gs" and "distinct (map fst fs)"
    and "wf_json (drop_none fs)" "wf_json (drop_none gs)"
  shows "map (\<lambda>(k, v). map_option canon v) fs = map (\<lambda>(k, v). map_option canon v) gs"
  by (rule drop_none_fields [OF _ assms(2-5)]) (metis assms(1) dumps_canon)

lemma component_inj: "canon (drop_none (component_fields c)) = canon (drop_none (component_fields d)) \<Longrightarrow> c = d"
  by (drule canon_drop_none_fields [OF _ _ _ wf_component wf_component])
    (simp_all add: component_fields_def)

lemma properties_inj:
  assumes "canon (drop_none (properties_fields p)) = canon (drop_none (properties_fields q))"
  shows "p = q"
proof -
  from canon_drop_none_fields [OF assms _ _ wf_properties wf_properties]
  have e: "map (\<lambda>(k, v). map_option canon v) (properties_fields p) = map (\<lambda>(k, v). map_option canon v) (properties_fields q)"
    by (simp add: properties_fields_def)
  note j = map_inj_canon [where f = evidenced_json, OF evidenced_json_inj]
  have "mp_parent_models p = mp_parent_models q" by (rule j) (use e in \<open>simp_all add: properties_fields_def\<close>)
  moreover have "mp_dataset_references p = mp_dataset_references q"
    by (rule j) (use e in \<open>simp_all add: properties_fields_def\<close>)
  moreover have "mp_training_code_commit p = mp_training_code_commit q"
    by (rule opt_evidenced_inj) (use e in \<open>simp add: properties_fields_def\<close>)
  moreover have "mp_framework p = mp_framework q"
    by (rule opt_evidenced_inj) (use e in \<open>simp add: properties_fields_def\<close>)
  moreover have "mp_license p = mp_license q"
    by (rule opt_evidenced_inj) (use e in \<open>simp add: properties_fields_def\<close>)
  ultimately show ?thesis using e by (cases p; cases q) (simp add: properties_fields_def)
qed

lemma mlbom_canonical_inj: "mlbom_canonical_json b = mlbom_canonical_json b' \<longleftrightarrow> b = b'"
proof
  assume "mlbom_canonical_json b = mlbom_canonical_json b'"
  then have "dumps (drop_none (mlbom_fields b)) = dumps (drop_none (mlbom_fields b'))"
    using wf_mlbom by (simp add: mlbom_canonical_json_def)
  from drop_none_fields [OF this _ _ wf_mlbom wf_mlbom]
  have e: "map (\<lambda>(k, v). map_option canon v) (mlbom_fields b) = map (\<lambda>(k, v). map_option canon v) (mlbom_fields b')"
    by (simp add: mlbom_fields_def)
  have "b_components b = b_components b'"
    by (rule map_inj_canon [where f = "\<lambda>c. drop_none (component_fields c)", OF component_inj])
      (use e in \<open>simp_all add: mlbom_fields_def\<close>)
  moreover have "b_modelguard b = b_modelguard b'"
    by (rule properties_inj) (use e in \<open>simp add: mlbom_fields_def\<close>)
  moreover have "b_metadata b = b_metadata b'"
    by (rule metadata_json_inj) (use e in \<open>simp add: mlbom_fields_def\<close>)
  ultimately show "b = b'" using e by (cases b; cases b') (simp add: mlbom_fields_def)
qed simp

text \<open>
  The canonical bytes of an ML-BOM, whose hash the signature covers, determine every field of
  it, the evidence levels included.
\<close>

theorem mbom_bytes_identify: "mlbom_canonical_json b = mlbom_canonical_json b' \<longleftrightarrow> b = b'"
  by (rule mlbom_canonical_inj)

text \<open>Every claim of a set of properties, with its evidence.\<close>

definition claims_of :: "mbom_properties \<Rightarrow> evidenced_field list" where
  "claims_of p = mp_parent_models p @ mp_dataset_references p @ List.map_filter id
     [mp_training_code_commit p, mp_framework p, mp_license p]"

lemma generated_claims_declared:
  "list_all (\<lambda>f. ef_evidence f = DECLARED) (claims_of (b_modelguard (generate_mbom uuid now m prov)))"
proof -
  have d: "declared_if v = Some f \<Longrightarrow> ef_evidence f = DECLARED" for f v
    by (cases v) (auto simp: declared_if_def declared_def split: if_splits)
  have s: "f \<in> set (List.map_filter id xs) \<longleftrightarrow> Some f \<in> set xs" for f and xs :: "evidenced_field option list"
    by (induction xs) (auto simp: List.map_filter_def)
  show ?thesis
    using d by (auto simp only: claims_of_def generate_mbom_def Let_def list_all_iff set_append s list.set mlbom.simps
        mbom_properties.simps Un_iff insert_iff empty_iff set_map image_iff declared_def evidenced_field.simps)
qed

text \<open>
  An ML-BOM generated from the manifest of an artifact names the digest the artifact hashes
  to, is not marked trusted, and never presents a declared claim as better evidence.
\<close>

theorem generated_mbom_bound:
  assumes "build_manifest H path nd meta None = Inr m"
  shows "\<exists>d. hash_artifact H path nd = Inr d
    \<and> mp_artifact_digest (b_modelguard (generate_mbom uuid now m prov)) = ''sha256:'' @ ad_digest d
    \<and> mp_trust_status (b_modelguard (generate_mbom uuid now m prov)) = ''unknown''
    \<and> list_all (\<lambda>f. ef_evidence f = DECLARED) (claims_of (b_modelguard (generate_mbom uuid now m prov)))"
proof -
  obtain d where d: "hash_artifact H path nd = Inr d"
    using assms by (cases "hash_artifact H path nd") (simp_all add: build_manifest_def)
  have m: "m_digest m = ad_digest d" "m_algorithm m = ''sha256''"
    using assms d by (auto simp: build_manifest_def Let_def valid_manifest_def split: if_splits)
  have "list_all (\<lambda>f. ef_evidence f = DECLARED) (claims_of (b_modelguard (generate_mbom uuid now m prov)))"
    by (rule generated_claims_declared)
  then show ?thesis using d m by (simp add: generate_mbom_def Let_def)
qed

theorem generated_mbom_bound_witness:
  "\<exists>d. hash_artifact sha256 [''m.bin''] (Some (FFile ''w'')) = Inr d
    \<and> mp_artifact_digest (b_modelguard (generate_mbom ''u'' ''t''
        \<lparr>m_schema_version = ''1'', m_artifact_type = ''file'', m_algorithm = ''sha256'',
         m_digest = sha256 ''w'', m_model_id = None, m_artifact_name = Some ''m.bin'', m_version = None,
         m_format = None, m_framework = None, m_license = None, m_creator = None,
         m_source_location = None, m_files = []\<rparr> None)) = ''sha256:'' @ ad_digest d"
  using generated_mbom_bound [of sha256 "[''m.bin'']" "Some (FFile ''w'')" None
    "\<lparr>m_schema_version = ''1'', m_artifact_type = ''file'', m_algorithm = ''sha256'',
         m_digest = sha256 ''w'', m_model_id = None, m_artifact_name = Some ''m.bin'', m_version = None,
         m_format = None, m_framework = None, m_license = None, m_creator = None,
         m_source_location = None, m_files = []\<rparr>" "''u''" "''t''" None]
  by (auto simp: build_manifest_def hash_artifact_def hash_file_def Let_def no_metadata_def valid_manifest_def
      manifest_schema_version_def path_name_def or_str_def artifact_digest_from_files_def digest_algorithm_def
      path_exists_def path_is_dir_def path_is_symlink_def hash_file_bytes_def hash_loop.simps chunk_size_def)

definition text_size :: "string option \<Rightarrow> nat" where
  "text_size s = (case s of None \<Rightarrow> 0 | Some t \<Rightarrow> length t)"

lemma length_drop_none:
  "length (dumps (drop_none fs)) \<le> 2 + (\<Sum>(k, v) \<leftarrow> fs. 6 * length k + 4 + (case v of None \<Rightarrow> 0 | Some j \<Rightarrow> length (dumps j)))"
proof -
  have "(\<Sum>(k, v) \<leftarrow> map (\<lambda>(k, v). (k, the v)) (filter (\<lambda>(k, v). v \<noteq> None) fs). 6 * length k + 4 + length (dumps v))
     \<le> (\<Sum>(k, v) \<leftarrow> fs. 6 * length k + 4 + (case v of None \<Rightarrow> 0 | Some j \<Rightarrow> length (dumps j)))"
    by (induction fs) (auto split: option.splits)
  with length_dumps_JObj show ?thesis unfolding drop_none_def by (rule order_trans [OF _ add_left_mono])
qed

lemma opt_str_size: "(case opt_str s of None \<Rightarrow> 0 | Some j \<Rightarrow> length (dumps j)) \<le> 6 * text_size s + 2"
  using length_enc_str by (auto simp: opt_str_def text_size_def split: option.splits)

text \<open>Documents for concrete runs.\<close>

definition sample_mlbom :: mlbom where
  "sample_mlbom = \<lparr>b_bom_format = ''CycloneDX'', b_spec_version = ''1.6'', b_schema_version = ''1'',
     b_serial_number = ''urn:uuid:u'', b_version = 1,
     b_metadata = \<lparr>mm_timestamp = ''t'', mm_tool_name = ''modelguard'', mm_tool_version = ''0.9.0''\<rparr>,
     b_components = [],
     b_modelguard = \<lparr>mp_artifact_digest = ''d'', mp_artifact_type = ''file'', mp_parent_models = [],
       mp_dataset_references = [], mp_training_code_commit = None, mp_framework = None, mp_license = None,
       mp_trust_status = ''unknown''\<rparr>\<rparr>"

definition sample_manifest :: manifest where
  "sample_manifest = \<lparr>m_schema_version = ''1'', m_artifact_type = ''file'', m_algorithm = ''sha256'',
     m_digest = ''d'', m_model_id = Some ''demo'', m_artifact_name = Some ''a'', m_version = Some ''1'',
     m_format = None, m_framework = None, m_license = None, m_creator = None, m_source_location = None,
     m_files = []\<rparr>"

end
