(* ===== verification/Schemas.thy ===== *)
theory Schemas
  imports Documents
begin

text \<open>
  Reading documents back: \<open>model_validate\<close> of the manifest, the ML-BOM and a registry's record on parsed
  JSON, field by field as the models of \<open>manifest/models.py\<close>, \<open>mbom/models.py\<close> and
  \<open>registry/models.py\<close> declare them (\<open>extra="forbid"\<close>, defaults, aliases, literals, patterns).
  The theorems say that what a model dumps, with its \<open>None\<close> fields left out or written as \<open>null\<close>,
  is read back as the model it was.

  pydantic and PyYAML are not part of the program.  What their documentation leaves to a table of
  conversions is the record \<open>libs\<close>: an \<open>int\<close>, \<open>bool\<close> or \<open>datetime\<close> field given a value of another
  JSON type and the text of a \<open>datetime\<close> in a dump, \<open>yaml.safe_load\<close> (\<open>None\<close> for a \<open>YAMLError\<close>), and
  \<open>str\<close> of a parsed value, and the time a model with an absent time stamp takes.  A YAML value that JSON has no form for, a timestamp, is an object of its own.
\<close>

section \<open>Fields of a model\<close>

datatype datetime = Naive int | Aware int

fun instant :: "datetime \<Rightarrow> int" where
  "instant (Naive t) = t"
| "instant (Aware t) = t"

fun is_aware :: "datetime \<Rightarrow> bool" where
  "is_aware (Naive t) = False"
| "is_aware (Aware t) = True"

record libs =
  lb_int :: "json \<Rightarrow> int option"
  lb_bool :: "json \<Rightarrow> bool option"
  lb_datetime :: "json \<Rightarrow> datetime option"
  lb_time :: "datetime \<Rightarrow> string"
  lb_yaml :: "string \<Rightarrow> json option"
  lb_str :: "json \<Rightarrow> string"
  lb_now :: string

text \<open>
  A \<open>str\<close> field takes strings only, \<open>str | None\<close> also \<open>null\<close>; an absent member has the field's default
  (\<open>None\<close> of the reader where there is none), and a member of no field is refused.
\<close>

definition str_field :: "json dict \<Rightarrow> string \<Rightarrow> string option \<Rightarrow> string option" where
  "str_field d k dflt =
     (case map_of d k of None \<Rightarrow> dflt | Some (JStr s) \<Rightarrow> Some s | Some _ \<Rightarrow> None)"

definition opt_field :: "json dict \<Rightarrow> string \<Rightarrow> string option option" where
  "opt_field d k =
     (case map_of d k of None \<Rightarrow> Some None | Some JNull \<Rightarrow> Some None | Some (JStr s) \<Rightarrow> Some (Some s) | Some _ \<Rightarrow> None)"

definition known_members :: "string list \<Rightarrow> 'v dict \<Rightarrow> bool" where
  "known_members ks d \<longleftrightarrow> list_all (\<lambda>(k, v). k \<in> set ks) d"

definition int_field :: "libs \<Rightarrow> json dict \<Rightarrow> string \<Rightarrow> int option \<Rightarrow> int option" where
  "int_field L d k dflt =
     (case map_of d k of None \<Rightarrow> dflt | Some (JInt i) \<Rightarrow> Some i | Some j \<Rightarrow> lb_int L j)"

definition bool_field :: "libs \<Rightarrow> json dict \<Rightarrow> string \<Rightarrow> bool option \<Rightarrow> bool option" where
  "bool_field L d k dflt =
     (case map_of d k of None \<Rightarrow> dflt | Some (JBool b) \<Rightarrow> Some b | Some j \<Rightarrow> lb_bool L j)"

definition datetime_field :: "libs \<Rightarrow> json dict \<Rightarrow> string \<Rightarrow> datetime option option" where
  "datetime_field L d k =
     (case map_of d k of None \<Rightarrow> Some None | Some JNull \<Rightarrow> Some None | Some j \<Rightarrow> map_option Some (lb_datetime L j))"

definition enum_field :: "(string \<times> 'a) list \<Rightarrow> json dict \<Rightarrow> string \<Rightarrow> 'a option \<Rightarrow> 'a option" where
  "enum_field members d k dflt =
     (case map_of d k of None \<Rightarrow> dflt | Some (JStr s) \<Rightarrow> map_of members s | Some _ \<Rightarrow> None)"

definition list_field :: "json dict \<Rightarrow> string \<Rightarrow> (json \<Rightarrow> 'a option) \<Rightarrow> 'a list option \<Rightarrow> 'a list option" where
  "list_field d k item dflt =
     (case map_of d k of None \<Rightarrow> dflt | Some (JList vs) \<Rightarrow> those (map item vs) | Some _ \<Rightarrow> None)"

definition opt_model :: "json dict \<Rightarrow> string \<Rightarrow> (json \<Rightarrow> 'a option) \<Rightarrow> 'a option option" where
  "opt_model d k read =
     (case map_of d k of None \<Rightarrow> Some None | Some JNull \<Rightarrow> Some None | Some j \<Rightarrow> map_option Some (read j))"

fun json_str :: "json \<Rightarrow> string option" where
  "json_str (JStr s) = Some s"
| "json_str _ = None"

text \<open>With \<open>populate_by_name\<close> a field is looked up by its alias first, then by its name.\<close>

definition member_of :: "'v dict \<Rightarrow> string \<Rightarrow> string \<Rightarrow> string" where
  "member_of d alias name = (if map_of d alias \<noteq> None then alias else name)"

section \<open>Dumps and what they hold\<close>

text \<open>\<open>model_dump\<close> without \<open>exclude_none\<close>.\<close>

definition with_nulls :: "(string \<times> json option) list \<Rightarrow> json" where
  "with_nulls fs = JObj (map (\<lambda>(k, v). (k, case v of None \<Rightarrow> JNull | Some j \<Rightarrow> j)) fs)"

text \<open>
  A document is known up to the order of the members of its objects: \<open>canon\<close> sorts them.  A parsed object
  holds the fields of a dump: each present one under its name, an absent one not or as \<open>null\<close>.
\<close>

definition dumped :: "(string \<times> json option) list \<Rightarrow> json dict \<Rightarrow> bool" where
  "dumped fs d \<longleftrightarrow> fst ` set d \<subseteq> fst ` set fs
     \<and> (\<forall>k v. map_of fs k = Some v \<longrightarrow>
          (case v of Some j \<Rightarrow> \<exists>j'. map_of d k = Some j' \<and> canon j' = canon j | None \<Rightarrow> map_of d k \<in> {None, Some JNull}))"

lemma canon_leaf [simp]:
  "canon j = JNull \<longleftrightarrow> j = JNull" "canon j = JStr s \<longleftrightarrow> j = JStr s" "canon j = JInt i \<longleftrightarrow> j = JInt i"
  "canon j = JBool b \<longleftrightarrow> j = JBool b"
  by (cases j; simp)+

lemma canon_JListE: "canon j = JList vs \<Longrightarrow> (\<And>ws. j = JList ws \<Longrightarrow> map canon ws = vs \<Longrightarrow> thesis) \<Longrightarrow> thesis"
  by (cases j) auto

lemma canon_JObjE:
  assumes "canon j = canon (JObj kvs)" and "distinct (map fst kvs)"
  obtains d where "j = JObj d" and "fst ` set d = fst ` set kvs"
    and "\<And>k. map_option canon (map_of d k) = map_option canon (map_of kvs k)"
proof -
  obtain d where d: "j = JObj d" using assms(1) by (cases j) auto
  have s: "sort_key fst (map (\<lambda>(k, v). (k, canon v)) d) = sort_key fst (map (\<lambda>(k, v). (k, canon v)) kvs)"
    using assms(1) by (simp add: d)
  then have "mset (map (\<lambda>(k, v). (k, canon v)) d) = mset (map (\<lambda>(k, v). (k, canon v)) kvs)" by (metis mset_sort)
  then have "image_mset fst (mset (map (\<lambda>(k, v). (k, canon v)) d)) = image_mset fst (mset (map (\<lambda>(k, v). (k, canon v)) kvs))"
    by simp
  then have m: "mset (map fst d) = mset (map fst kvs)" by (simp add: image_mset.compositionality comp_def case_prod_unfold)
  then have "distinct (map fst d)" using assms(2) by (metis distinct_count_atmost_1 set_mset_mset)
  from map_of_JObj_canon [OF _ this assms(2)] show thesis
    using that [OF d] assms(1) mset_eq_setD [OF m] by (simp add: d)
qed

lemma dumpedI:
  assumes "fst ` set d \<subseteq> fst ` set fs"
    and "\<And>k j. map_of fs k = Some (Some j) \<Longrightarrow> map_option canon (map_of d k) = Some (canon j)"
    and "\<And>k. map_of fs k = Some None \<Longrightarrow> map_option canon (map_of d k) \<in> {None, Some JNull}"
  shows "dumped fs d"
proof -
  have "case v of Some j \<Rightarrow> \<exists>j'. map_of d k = Some j' \<and> canon j' = canon j | None \<Rightarrow> map_of d k \<in> {None, Some JNull}"
    if "map_of fs k = Some v" for k v
    using that assms(2) [of k] assms(3) [of k] by (cases v) auto
  then show ?thesis using assms(1) by (simp add: dumped_def)
qed

lemma map_of_with_nulls:
  "map_of (map (\<lambda>(k, v). (k, case v of None \<Rightarrow> JNull | Some j \<Rightarrow> j)) fs) k
     = map_option (\<lambda>v. case v of None \<Rightarrow> JNull | Some j \<Rightarrow> j) (map_of fs k)"
  by (induction fs) auto

lemma dumped_drop_none:
  assumes "canon j = canon (drop_none fs)" and "distinct (map fst fs)"
  obtains d where "j = JObj d" and "dumped fs d"
proof -
  let ?kvs = "map (\<lambda>(k, v). (k, the v)) (filter (\<lambda>(k, v). v \<noteq> None) fs)"
  have dk: "distinct (map fst ?kvs)" using distinct_drop_none [OF assms(2)] by (simp add: comp_def case_prod_unfold)
  obtain d where d: "j = JObj d" "fst ` set d = fst ` set ?kvs"
      "\<And>k. map_option canon (map_of d k) = map_option canon (map_of ?kvs k)"
    by (rule canon_JObjE [OF _ dk]) (use assms(1) in \<open>auto simp: drop_none_def\<close>)
  have "dumped fs d"
  proof (rule dumpedI)
    show "fst ` set d \<subseteq> fst ` set fs" unfolding d(2) by (auto intro: image_eqI [where x = "(k, v)" for k v])
  qed (simp_all only: d(3) map_of_drop_none [OF assms(2)], simp_all)
  then show thesis by (rule that [OF d(1)])
qed

lemma dumped_with_nulls:
  assumes "canon j = canon (with_nulls fs)" and "distinct (map fst fs)"
  obtains d where "j = JObj d" and "dumped fs d"
proof -
  let ?kvs = "map (\<lambda>(k, v). (k, case v of None \<Rightarrow> JNull | Some j \<Rightarrow> j)) fs"
  have dk: "distinct (map fst ?kvs)" using assms(2) by (simp add: comp_def case_prod_unfold)
  obtain d where d: "j = JObj d" "fst ` set d = fst ` set ?kvs"
      "\<And>k. map_option canon (map_of d k) = map_option canon (map_of ?kvs k)"
    by (rule canon_JObjE [OF _ dk]) (use assms(1) in \<open>auto simp: with_nulls_def\<close>)
  have "dumped fs d"
  proof (rule dumpedI)
    show "fst ` set d \<subseteq> fst ` set fs" unfolding d(2) by force
  qed (simp_all only: d(3) map_of_with_nulls, simp_all)
  then show thesis by (rule that [OF d(1)])
qed

lemma wf_with_nulls:
  "distinct (map fst fs) \<Longrightarrow> list_all (\<lambda>(k, v). case v of None \<Rightarrow> True | Some j \<Rightarrow> wf_json j) fs \<Longrightarrow> wf_json (with_nulls fs)"
  by (auto simp: with_nulls_def list_all_iff comp_def case_prod_unfold split: option.splits)

lemma length_with_nulls:
  "length (dumps (with_nulls fs)) \<le> 2 + (\<Sum>(k, v) \<leftarrow> fs. 6 * length k + 4 + (case v of None \<Rightarrow> 4 | Some j \<Rightarrow> length (dumps j)))"
proof -
  have "(\<Sum>(k, v) \<leftarrow> map (\<lambda>(k, v). (k, case v of None \<Rightarrow> JNull | Some j \<Rightarrow> j)) fs. 6 * length k + 4 + length (dumps v))
     \<le> (\<Sum>(k, v) \<leftarrow> fs. 6 * length k + 4 + (case v of None \<Rightarrow> 4 | Some j \<Rightarrow> length (dumps j)))"
    by (induction fs) (auto split: option.splits)
  with length_dumps_JObj show ?thesis unfolding with_nulls_def by (rule order_trans [OF _ add_left_mono])
qed

text \<open>It is enough to read every object that holds the fields.\<close>

lemma read_drop_none:
  assumes "canon j = canon (drop_none fs)" and "distinct (map fst fs)" and "\<And>d. dumped fs d \<Longrightarrow> read (JObj d) = Some x"
  shows "read j = Some x"
  using dumped_drop_none [OF assms(1,2)] assms(3) by metis

lemma read_with_nulls:
  assumes "canon j = canon (with_nulls fs)" and "distinct (map fst fs)" and "\<And>d. dumped fs d \<Longrightarrow> read (JObj d) = Some x"
  shows "read j = Some x"
  using dumped_with_nulls [OF assms(1,2)] assms(3) by metis

named_theorems field_of_dump \<open>what a field's reader finds in the dump of a model\<close>

lemma known_members_dumped [field_of_dump]: "dumped fs d \<Longrightarrow> fst ` set fs \<subseteq> set ks \<Longrightarrow> known_members ks d"
  by (force simp: dumped_def known_members_def list_all_iff)

lemma str_field_dumped [field_of_dump]: "dumped fs d \<Longrightarrow> map_of fs k = Some (Some (JStr s)) \<Longrightarrow> str_field d k x = Some s"
  by (force simp: dumped_def str_field_def)

lemma opt_field_dumped [field_of_dump]: "dumped fs d \<Longrightarrow> map_of fs k = Some (opt_str s) \<Longrightarrow> opt_field d k = Some s"
  by (cases s) (force simp: dumped_def opt_field_def opt_str_def)+

lemma int_field_dumped [field_of_dump]: "dumped fs d \<Longrightarrow> map_of fs k = Some (Some (JInt i)) \<Longrightarrow> int_field L d k x = Some i"
  by (force simp: dumped_def int_field_def)

lemma bool_field_dumped [field_of_dump]: "dumped fs d \<Longrightarrow> map_of fs k = Some (Some (JBool b)) \<Longrightarrow> bool_field L d k x = Some b"
  by (force simp: dumped_def bool_field_def)

lemma enum_field_dumped [field_of_dump]:
  "dumped fs d \<Longrightarrow> map_of fs k = Some (Some (JStr s)) \<Longrightarrow> enum_field ms d k x = map_of ms s"
  by (force simp: dumped_def enum_field_def)

text \<open>A reader takes back a value from every form of its dump.\<close>

definition reads_back :: "(json \<Rightarrow> 'a option) \<Rightarrow> ('a \<Rightarrow> json) \<Rightarrow> 'a set \<Rightarrow> bool" where
  "reads_back read dump A \<longleftrightarrow> (\<forall>x \<in> A. \<forall>j. canon j = canon (dump x) \<longrightarrow> read j = Some x)"

lemma those_reads: "reads_back f g A \<Longrightarrow> set xs \<subseteq> A \<Longrightarrow> map canon vs = map (canon \<circ> g) xs \<Longrightarrow> those (map f vs) = Some xs"
proof (induction xs arbitrary: vs)
  case (Cons x xs)
  then obtain v ws where "vs = v # ws" "canon v = canon (g x)" "map canon ws = map (canon \<circ> g) xs" by auto
  moreover have "f v = Some x" using Cons.prems(1,2) calculation(2) by (auto simp: reads_back_def)
  ultimately show ?case using Cons.IH [OF Cons.prems(1)] Cons.prems(2) by simp
qed simp

lemma list_field_dumped:
  assumes "dumped fs d" and "map_of fs k = Some (Some (JList (map g xs)))" and "reads_back f g A" and "set xs \<subseteq> A"
  shows "list_field d k f y = Some xs"
proof -
  obtain j where j: "map_of d k = Some j" "canon j = JList (map (canon \<circ> g) xs)" using assms(1,2) by (force simp: dumped_def)
  obtain vs where "j = JList vs" "map canon vs = map (canon \<circ> g) xs" by (rule canon_JListE [OF j(2)])
  then show ?thesis using those_reads [OF assms(3,4)] j(1) by (simp add: list_field_def)
qed

lemma opt_model_dumped:
  assumes "dumped fs d" and "map_of fs k = Some (map_option g x)" and "reads_back f g UNIV" and "\<And>y. g y \<noteq> JNull"
  shows "opt_model d k f = Some x"
proof (cases x)
  case None
  then show ?thesis using assms(1,2) by (force simp: dumped_def opt_model_def)
next
  case (Some y)
  then obtain j where j: "map_of d k = Some j" "canon j = canon (g y)" using assms(1,2) by (force simp: dumped_def)
  then have "f j = Some y" "j \<noteq> JNull" using assms(3) assms(4) [of y] by (auto simp: reads_back_def) (metis canon.simps(3) canon_leaf(1))
  then show ?thesis using j(1) Some by (cases j) (simp_all add: opt_model_def)
qed

lemma model_dumped:
  "dumped fs d \<Longrightarrow> map_of fs k = Some (Some (g x)) \<Longrightarrow> reads_back read g A \<Longrightarrow> x \<in> A \<Longrightarrow> Option.bind (map_of d k) read = Some x"
  by (force simp: dumped_def reads_back_def)

lemma member_of_alias: "dumped fs d \<Longrightarrow> map_of fs alias = Some (Some j) \<Longrightarrow> member_of d alias name = alias"
  by (force simp: dumped_def member_of_def)

lemma member_of_name: "dumped fs d \<Longrightarrow> alias \<notin> fst ` set fs \<Longrightarrow> member_of d alias name = name"
  by (auto simp: dumped_def member_of_def map_of_eq_None_iff)

section \<open>The manifest\<close>

definition file_entry_of_json :: "libs \<Rightarrow> json \<Rightarrow> manifest_file_entry option" where
  "file_entry_of_json L j =
     (case j of
        JObj d \<Rightarrow>
          if \<not> known_members [''path'', ''sha256'', ''size''] d then None
          else (case (str_field d ''path'' None, str_field d ''sha256'' None, int_field L d ''size'' None) of
              (Some p, Some h, Some n) \<Rightarrow> Some \<lparr>mf_path = p, mf_sha256 = h, mf_size = n\<rparr>
            | _ \<Rightarrow> None)
      | _ \<Rightarrow> None)"

definition manifest_of_json :: "libs \<Rightarrow> json \<Rightarrow> manifest option" where
  "manifest_of_json L j =
     (case j of
        JObj d \<Rightarrow>
          if \<not> known_members [''schema_version'', ''artifact_type'', ''algorithm'', ''digest'', ''model_id'', ''artifact_name'',
               ''version'', ''format'', ''framework'', ''license'', ''creator'', ''source_location'', ''files''] d then None
          else
            (case (str_field d ''schema_version'' (Some manifest_schema_version), str_field d ''artifact_type'' None,
                   str_field d ''algorithm'' (Some ''sha256''), str_field d ''digest'' None, opt_field d ''model_id'',
                   opt_field d ''artifact_name'', opt_field d ''version'', opt_field d ''format'', opt_field d ''framework'',
                   opt_field d ''license'', opt_field d ''creator'', opt_field d ''source_location'',
                   list_field d ''files'' (file_entry_of_json L) (Some [])) of
               (Some sv, Some t, Some a, Some h, Some i, Some n, Some v, Some f, Some w, Some l, Some c, Some s, Some fs) \<Rightarrow>
                 (let m = \<lparr>m_schema_version = sv, m_artifact_type = t, m_algorithm = a, m_digest = h, m_model_id = i,
                        m_artifact_name = n, m_version = v, m_format = f, m_framework = w, m_license = l, m_creator = c,
                        m_source_location = s, m_files = fs\<rparr>
                  in if valid_manifest m then Some m else None)
             | _ \<Rightarrow> None)
      | _ \<Rightarrow> None)"

lemma file_entry_reads: "reads_back (file_entry_of_json L) file_entry_json UNIV"
proof -
  have "file_entry_json f = drop_none [(''path'', Some (JStr (mf_path f))), (''sha256'', Some (JStr (mf_sha256 f))),
      (''size'', Some (JInt (mf_size f)))]" for f
    by (simp add: file_entry_json_def drop_none_def)
  then show ?thesis
    by (auto simp: reads_back_def file_entry_of_json_def field_of_dump elim!: read_drop_none)
qed

text \<open>The dump has its absent fields left out, or as \<open>null\<close>.\<close>

lemma manifest_of_dumped:
  assumes d: "dumped (manifest_fields m) d" and "valid_manifest m"
  shows "manifest_of_json L (JObj d) = Some m"
proof -
  have "list_field d ''files'' (file_entry_of_json L) y = Some (m_files m)" for y
    by (rule list_field_dumped [OF d _ file_entry_reads]) (simp_all add: manifest_fields_def)
  then show ?thesis
    using assms(2) unfolding manifest_of_json_def
    by (simp add: field_of_dump [OF d] manifest_fields_def Let_def valid_manifest_def)
qed

lemma manifest_reads:
  "reads_back (manifest_of_json L) (\<lambda>m. drop_none (manifest_fields m)) (Collect valid_manifest)"
  "reads_back (manifest_of_json L) (\<lambda>m. with_nulls (manifest_fields m)) (Collect valid_manifest)"
  by (auto simp: reads_back_def manifest_fields_def [THEN arg_cong [where f = "map fst"]]
      intro!: manifest_of_dumped elim!: read_drop_none read_with_nulls)

section \<open>The ML-BOM\<close>

definition evidence_levels :: "(string \<times> evidence_level) list" where
  "evidence_levels = map (\<lambda>l. (evidence_value l, l)) [DECLARED, SIGNED, VERIFIED, INDEPENDENTLY_TESTED, HUMAN_APPROVED]"

definition evidenced_of_json :: "json \<Rightarrow> evidenced_field option" where
  "evidenced_of_json j =
     (case j of
        JObj d \<Rightarrow>
          if \<not> known_members [''value'', ''evidence''] d then None
          else (case (str_field d ''value'' None, enum_field evidence_levels d ''evidence'' (Some DECLARED)) of
              (Some v, Some l) \<Rightarrow> Some \<lparr>ef_value = v, ef_evidence = l\<rparr>
            | _ \<Rightarrow> None)
      | _ \<Rightarrow> None)"

definition properties_of_json :: "json \<Rightarrow> mbom_properties option" where
  "properties_of_json j =
     (case j of
        JObj d \<Rightarrow>
          if \<not> known_members [''artifact_digest'', ''artifact_type'', ''parent_models'', ''dataset_references'',
               ''training_code_commit'', ''framework'', ''license'', ''trust_status''] d then None
          else
            (case (str_field d ''artifact_digest'' None, str_field d ''artifact_type'' None,
                   list_field d ''parent_models'' evidenced_of_json (Some []),
                   list_field d ''dataset_references'' evidenced_of_json (Some []),
                   opt_model d ''training_code_commit'' evidenced_of_json, opt_model d ''framework'' evidenced_of_json,
                   opt_model d ''license'' evidenced_of_json, str_field d ''trust_status'' (Some ''unknown'')) of
               (Some h, Some t, Some ps, Some ds, Some c, Some f, Some l, Some s) \<Rightarrow>
                 Some \<lparr>mp_artifact_digest = h, mp_artifact_type = t, mp_parent_models = ps, mp_dataset_references = ds,
                       mp_training_code_commit = c, mp_framework = f, mp_license = l, mp_trust_status = s\<rparr>
             | _ \<Rightarrow> None)
      | _ \<Rightarrow> None)"

definition metadata_of_json :: "json \<Rightarrow> mbom_metadata option" where
  "metadata_of_json j =
     (case j of
        JObj d \<Rightarrow>
          if \<not> known_members [''timestamp'', ''tool_name'', ''tool_version''] d then None
          else (case (str_field d ''timestamp'' None, str_field d ''tool_name'' (Some ''modelguard''),
                      str_field d ''tool_version'' (Some tool_version)) of
              (Some t, Some n, Some v) \<Rightarrow> Some \<lparr>mm_timestamp = t, mm_tool_name = n, mm_tool_version = v\<rparr>
            | _ \<Rightarrow> None)
      | _ \<Rightarrow> None)"

definition component_of_json :: "json \<Rightarrow> mbom_component option" where
  "component_of_json j =
     (case j of
        JObj d \<Rightarrow>
          if \<not> known_members [''type'', ''name'', ''version''] d then None
          else (case (str_field d ''type'' (Some ''machine-learning-model''), str_field d ''name'' None, opt_field d ''version'') of
              (Some t, Some n, Some v) \<Rightarrow> Some \<lparr>mc_type = t, mc_name = n, mc_version = v\<rparr>
            | _ \<Rightarrow> None)
      | _ \<Rightarrow> None)"

definition mlbom_of_json :: "libs \<Rightarrow> json \<Rightarrow> mlbom option" where
  "mlbom_of_json L j =
     (case j of
        JObj d \<Rightarrow>
          (let bf = member_of d ''bomFormat'' ''bom_format''; sv = member_of d ''specVersion'' ''spec_version'';
               sn = member_of d ''serialNumber'' ''serial_number''
           in if \<not> known_members [bf, sv, ''schema_version'', sn, ''version'', ''metadata'', ''components'', ''modelguard''] d
              then None
              else
                (case (str_field d bf (Some ''CycloneDX''), str_field d sv (Some cyclonedx_spec_version),
                       str_field d ''schema_version'' (Some mbom_schema_version), str_field d sn None,
                       int_field L d ''version'' (Some 1), Option.bind (map_of d ''metadata'') metadata_of_json,
                       list_field d ''components'' component_of_json None,
                       Option.bind (map_of d ''modelguard'') properties_of_json) of
                   (Some f, Some s, Some c, Some n, Some v, Some m, Some cs, Some p) \<Rightarrow>
                     Some \<lparr>b_bom_format = f, b_spec_version = s, b_schema_version = c, b_serial_number = n, b_version = v,
                           b_metadata = m, b_components = cs, b_modelguard = p\<rparr>
                 | _ \<Rightarrow> None))
      | _ \<Rightarrow> None)"

lemma evidence_levels_value: "map_of evidence_levels (evidence_value l) = Some l"
  by (cases l) (simp_all add: evidence_levels_def)

lemma evidenced_reads: "reads_back evidenced_of_json evidenced_json UNIV"
proof -
  have "evidenced_json f = drop_none [(''value'', Some (JStr (ef_value f))), (''evidence'', Some (JStr (evidence_value (ef_evidence f))))]" for f
    by (simp add: evidenced_json_def drop_none_def)
  then show ?thesis
    by (auto simp: reads_back_def evidenced_of_json_def field_of_dump evidence_levels_value elim!: read_drop_none)
qed

lemma properties_of_dumped:
  assumes d: "dumped (properties_fields p) d"
  shows "properties_of_json (JObj d) = Some p"
proof -
  have "list_field d ''parent_models'' evidenced_of_json y = Some (mp_parent_models p)"
    "list_field d ''dataset_references'' evidenced_of_json y = Some (mp_dataset_references p)" for y
    by (rule list_field_dumped [OF d _ evidenced_reads], simp_all add: properties_fields_def)+
  moreover have "opt_model d ''training_code_commit'' evidenced_of_json = Some (mp_training_code_commit p)"
    "opt_model d ''framework'' evidenced_of_json = Some (mp_framework p)"
    "opt_model d ''license'' evidenced_of_json = Some (mp_license p)"
    by (rule opt_model_dumped [OF d _ evidenced_reads], simp_all add: properties_fields_def evidenced_json_def)+
  ultimately show ?thesis
    unfolding properties_of_json_def by (simp add: field_of_dump [OF d] properties_fields_def)
qed

lemma metadata_reads: "reads_back metadata_of_json metadata_json UNIV"
proof -
  have "metadata_json m = drop_none [(''timestamp'', Some (JStr (mm_timestamp m))), (''tool_name'', Some (JStr (mm_tool_name m))),
           (''tool_version'', Some (JStr (mm_tool_version m)))]" for m
    by (simp add: metadata_json_def drop_none_def)
  then show ?thesis
    by (auto simp: reads_back_def metadata_of_json_def field_of_dump elim!: read_drop_none)
qed

lemma component_of_dumped: "dumped (component_fields c) d \<Longrightarrow> component_of_json (JObj d) = Some c"
  by (simp add: component_of_json_def field_of_dump component_fields_def)

lemma nested_reads:
  "reads_back component_of_json (\<lambda>c. drop_none (component_fields c)) UNIV"
  "reads_back component_of_json (\<lambda>c. with_nulls (component_fields c)) UNIV"
  "reads_back properties_of_json (\<lambda>p. drop_none (properties_fields p)) UNIV"
  "reads_back properties_of_json (\<lambda>p. with_nulls (properties_fields p)) UNIV"
  by (auto simp: reads_back_def component_fields_def [THEN arg_cong [where f = "map fst"]]
      properties_fields_def [THEN arg_cong [where f = "map fst"]] component_of_dumped properties_of_dumped
      elim!: read_drop_none read_with_nulls)

text \<open>The dump of an ML-BOM inside a registry's record: field names instead of aliases, and nulls.\<close>

definition mlbom_record_fields :: "mlbom \<Rightarrow> (string \<times> json option) list" where
  "mlbom_record_fields b =
     [(''bom_format'', Some (JStr (b_bom_format b))),
      (''spec_version'', Some (JStr (b_spec_version b))),
      (''schema_version'', Some (JStr (b_schema_version b))),
      (''serial_number'', Some (JStr (b_serial_number b))),
      (''version'', Some (JInt (b_version b))),
      (''metadata'', Some (metadata_json (b_metadata b))),
      (''components'', Some (JList (map (\<lambda>c. with_nulls (component_fields c)) (b_components b)))),
      (''modelguard'', Some (with_nulls (properties_fields (b_modelguard b))))]"

lemma mlbom_of_dumped:
  assumes "dumped (mlbom_fields b) d \<or> dumped (mlbom_record_fields b) d"
  shows "mlbom_of_json L (JObj d) = Some b"
  using assms
proof
  assume d: "dumped (mlbom_fields b) d"
  have m: "member_of d ''bomFormat'' ''bom_format'' = ''bomFormat''" "member_of d ''specVersion'' ''spec_version'' = ''specVersion''"
    "member_of d ''serialNumber'' ''serial_number'' = ''serialNumber''"
    by (rule member_of_alias [OF d], simp add: mlbom_fields_def)+
  have "list_field d ''components'' component_of_json y = Some (b_components b)" for y
    by (rule list_field_dumped [OF d _ nested_reads(1)]) (simp_all add: mlbom_fields_def)
  moreover have "Option.bind (map_of d ''metadata'') metadata_of_json = Some (b_metadata b)"
    "Option.bind (map_of d ''modelguard'') properties_of_json = Some (b_modelguard b)"
    by (rule model_dumped [OF d _ metadata_reads], simp_all add: mlbom_fields_def) (rule model_dumped [OF d _ nested_reads(3)], simp_all add: mlbom_fields_def)
  ultimately show ?thesis
    unfolding mlbom_of_json_def json.case m Let_def by (simp add: field_of_dump [OF d] mlbom_fields_def)
next
  assume d: "dumped (mlbom_record_fields b) d"
  have m: "member_of d ''bomFormat'' ''bom_format'' = ''bom_format''" "member_of d ''specVersion'' ''spec_version'' = ''spec_version''"
    "member_of d ''serialNumber'' ''serial_number'' = ''serial_number''"
    by (rule member_of_name [OF d], simp add: mlbom_record_fields_def)+
  have "list_field d ''components'' component_of_json y = Some (b_components b)" for y
    by (rule list_field_dumped [OF d _ nested_reads(2)]) (simp_all add: mlbom_record_fields_def)
  moreover have "Option.bind (map_of d ''metadata'') metadata_of_json = Some (b_metadata b)"
    "Option.bind (map_of d ''modelguard'') properties_of_json = Some (b_modelguard b)"
    by (rule model_dumped [OF d _ metadata_reads], simp_all add: mlbom_record_fields_def) (rule model_dumped [OF d _ nested_reads(4)], simp_all add: mlbom_record_fields_def)
  ultimately show ?thesis
    unfolding mlbom_of_json_def json.case m Let_def by (simp add: field_of_dump [OF d] mlbom_record_fields_def)
qed

lemma mlbom_reads:
  "reads_back (mlbom_of_json L) (\<lambda>b. drop_none (mlbom_fields b)) UNIV"
  "reads_back (mlbom_of_json L) (\<lambda>b. with_nulls (mlbom_record_fields b)) UNIV"
  by (auto simp: reads_back_def mlbom_fields_def [THEN arg_cong [where f = "map fst"]]
      mlbom_record_fields_def [THEN arg_cong [where f = "map fst"]] mlbom_of_dumped
      elim!: read_drop_none read_with_nulls)

text \<open>A manifest or an ML-BOM that was written is read back, field by field, as the one that was.\<close>

lemma manifest_of_dump: "valid_manifest m \<Longrightarrow> canon j = canon (drop_none (manifest_fields m)) \<Longrightarrow> manifest_of_json L j = Some m"
  using manifest_reads(1) by (auto simp: reads_back_def)

lemma mlbom_of_dump: "canon j = canon (drop_none (mlbom_fields b)) \<Longrightarrow> mlbom_of_json L j = Some b"
  using mlbom_reads(1) by (auto simp: reads_back_def)

text \<open>Libraries for concrete runs: no conversions, and JSON as the YAML it is.\<close>

definition sample_libs :: libs where
  "sample_libs = \<lparr>lb_int = \<lambda>_. None, lb_bool = \<lambda>_. None, lb_datetime = \<lambda>_. None, lb_time = \<lambda>_. ''t'', lb_yaml = loads, lb_str = dumps, lb_now = ''t''\<rparr>"

lemma sample_libs_yaml: "lb_yaml sample_libs = loads"
  by (simp add: sample_libs_def)

end
