(* ===== verification/Signing.thy ===== *)
theory Signing
  imports Schemas
begin

text \<open>
  \<open>signing/schemes.py\<close>, \<open>envelope.py\<close>, \<open>verifier.py\<close>, \<open>signer.py\<close> and \<open>providers.py\<close>: the
  signature schemes and their registry, the signed payload and its envelope, verification, and
  signing with a provider.  The cryptographic primitives are an argument, \<open>crypto\<close>, as are a
  provider's methods.  The theorems characterise when an envelope verifies, and say that the
  signed bytes determine the payload and that whatever the signer returns verifies.
\<close>

section \<open>Schemes\<close>

text \<open>
  What the \<open>cryptography\<close> package does when it parses a key and checks a signature with it: it
  accepts, raises \<open>InvalidSignature\<close>, or raises \<open>ValueError\<close> for a malformed key.
\<close>

datatype crypto_result = Accepts | RaisesInvalidSignature | RaisesValueError

record crypto =
  cr_ed25519 :: "bytes \<Rightarrow> bytes \<Rightarrow> bytes \<Rightarrow> crypto_result"
  cr_ecdsa_p256 :: "bytes \<Rightarrow> bytes \<Rightarrow> bytes \<Rightarrow> crypto_result"

definition algorithm_ed25519 :: string where "algorithm_ed25519 = ''ed25519''"
definition algorithm_ecdsa_p256_sha256 :: string where "algorithm_ecdsa_p256_sha256 = ''ecdsa-p256-sha256''"

definition ed25519_public_key_len :: nat where "ed25519_public_key_len = 32"
definition ed25519_signature_len :: nat where "ed25519_signature_len = 64"
definition p256_public_key_len :: nat where "p256_public_key_len = 65"
definition p256_min_signature_len :: nat where "p256_min_signature_len = 8"
definition p256_max_signature_len :: nat where "p256_max_signature_len = 72"
definition max_key_bytes :: nat where "max_key_bytes = 128"
definition max_signature_bytes :: nat where "max_signature_bytes = 128"

text \<open>A verifier: public key, signature, message.\<close>

type_synonym verifier = "bytes \<Rightarrow> bytes \<Rightarrow> bytes \<Rightarrow> exn + unit"

definition crypto_outcome :: "crypto_result \<Rightarrow> exn + unit" where
  "crypto_outcome r =
     (case r of Accepts \<Rightarrow> Inr () | RaisesInvalidSignature \<Rightarrow> Inl SignatureInvalidError
      | RaisesValueError \<Rightarrow> Inl SignatureInvalidError)"

definition ed25519_verify :: "crypto \<Rightarrow> verifier" where
  "ed25519_verify C public_key signature message =
     (if length public_key \<noteq> ed25519_public_key_len then Inl SignatureInvalidError
      else if length signature \<noteq> ed25519_signature_len then Inl SignatureInvalidError
      else crypto_outcome (cr_ed25519 C public_key signature message))"

definition ecdsa_p256_verify :: "crypto \<Rightarrow> verifier" where
  "ecdsa_p256_verify C public_key signature message =
     (if length public_key \<noteq> p256_public_key_len \<or> hd public_key \<noteq> CHR 0x04 then Inl SignatureInvalidError
      else if \<not> (p256_min_signature_len \<le> length signature \<and> length signature \<le> p256_max_signature_len)
        then Inl SignatureInvalidError
      else crypto_outcome (cr_ecdsa_p256 C public_key signature message))"

definition default_verifiers :: "crypto \<Rightarrow> verifier dict" where
  "default_verifiers C =
     [(algorithm_ed25519, ed25519_verify C), (algorithm_ecdsa_p256_sha256, ecdsa_p256_verify C)]"

fun add_verifiers :: "verifier dict \<Rightarrow> (string \<times> verifier) list \<Rightarrow> exn + verifier dict" where
  "add_verifiers reg [] = Inr reg"
| "add_verifiers reg ((alg, v) # extra) =
     (if map_of reg alg \<noteq> None then Inl UnsupportedSignatureSchemeError
      else add_verifiers (reg @ [(alg, v)]) extra)"

definition verifier_registry :: "crypto \<Rightarrow> (string \<times> verifier) list \<Rightarrow> exn + verifier dict" where
  "verifier_registry C extra = add_verifiers (default_verifiers C) extra"

definition key_fingerprint :: "(bytes \<Rightarrow> string) \<Rightarrow> bytes \<Rightarrow> string" where
  "key_fingerprint H public_key = H public_key"

definition decode_hex_strict :: "nat \<Rightarrow> string \<Rightarrow> exn + bytes" where
  "decode_hex_strict max_bytes s =
     (if length s > 2 * max_bytes then Inl SignatureInvalidError
      else if length s mod 2 \<noteq> 0 \<or> \<not> list_all is_lower_hex s then Inl SignatureInvalidError
      else Inr (of_hex s))"

text \<open>
  The contract of \<open>SignatureVerifier\<close>: any failure is a \<open>SignatureInvalidError\<close>.
\<close>

locale signature_verifier =
  fixes verify :: verifier
  assumes failure: "verify pk sig msg = Inl e \<Longrightarrow> catches SignatureInvalidErrorC e"
begin

lemma outcome: "verify pk sig msg = Inr () \<or> (\<exists>e. verify pk sig msg = Inl e \<and> is_modelguard e)"
  using failure [of pk sig msg] by (cases "verify pk sig msg") (auto simp: catches_signature_invalid is_modelguard_iff)

end

lemma crypto_outcome_failure: "crypto_outcome r = Inl e \<Longrightarrow> e = SignatureInvalidError"
  by (cases r) (simp_all add: crypto_outcome_def)

interpretation ed25519: signature_verifier "ed25519_verify C" for C
  by unfold_locales
    (auto simp: ed25519_verify_def catches_signature_invalid split: if_splits dest: crypto_outcome_failure)

interpretation ecdsa_p256: signature_verifier "ecdsa_p256_verify C" for C
  by unfold_locales
    (auto simp: ecdsa_p256_verify_def catches_signature_invalid split: if_splits dest: crypto_outcome_failure)

lemma default_verifier: "map_of (default_verifiers C) alg = Some v \<Longrightarrow> signature_verifier v"
  using ed25519.signature_verifier_axioms ecdsa_p256.signature_verifier_axioms
  by (auto simp: default_verifiers_def split: if_splits)

section \<open>The payload and its envelope\<close>

definition schema_version_legacy :: string where "schema_version_legacy = ''1''"
definition schema_version_bound :: string where "schema_version_bound = ''2''"
definition signature_type_ed25519_local :: string where "signature_type_ed25519_local = ''ed25519-local''"
definition max_envelope_bytes :: nat where "max_envelope_bytes = 64 * 1024"

record signature_payload =
  sp_schema_version :: string
  sp_artifact_digest :: string
  sp_mbom_digest :: string
  sp_model_id :: "string option"
  sp_version :: "string option"
  sp_signer_identity :: string
  sp_signed_at :: string
  sp_signature_algorithm :: "string option"
  sp_key_id :: "string option"

record signature_envelope =
  se_signature_type :: string
  se_payload :: signature_payload
  se_signature :: string
  se_public_key :: string

definition payload_fields :: "signature_payload \<Rightarrow> (string \<times> json option) list" where
  "payload_fields p =
     [(''schema_version'', Some (JStr (sp_schema_version p))),
      (''artifact_digest'', Some (JStr (sp_artifact_digest p))),
      (''mbom_digest'', Some (JStr (sp_mbom_digest p))),
      (''model_id'', opt_str (sp_model_id p)),
      (''version'', opt_str (sp_version p)),
      (''signer_identity'', Some (JStr (sp_signer_identity p))),
      (''signed_at'', Some (JStr (sp_signed_at p))),
      (''signature_algorithm'', opt_str (sp_signature_algorithm p)),
      (''key_id'', opt_str (sp_key_id p))]"

definition payload_canonical_json :: "signature_payload \<Rightarrow> bytes" where
  "payload_canonical_json p = utf8 (dumps (drop_none (payload_fields p)))"

lemma wf_payload: "wf_json (drop_none (payload_fields p))"
  by (rule wf_drop_noneI) (simp_all add: payload_fields_def)

lemma payload_canonical_inj: "payload_canonical_json p = payload_canonical_json q \<longleftrightarrow> p = q"
proof
  assume "payload_canonical_json p = payload_canonical_json q"
  then have "dumps (drop_none (payload_fields p)) = dumps (drop_none (payload_fields q))"
    using wf_payload by (simp add: payload_canonical_json_def)
  from drop_none_fields [OF this _ _ wf_payload wf_payload] show "p = q"
    by (cases p; cases q) (simp add: payload_fields_def)
qed simp

text \<open>
  \<open>model_validate\<close> on parsed JSON, as pydantic documents it for these models: a \<open>str\<close> field takes
  a string only, an optional one \<open>null\<close> as well, a field with a default may be absent, and unknown
  members are refused.
\<close>

definition payload_of_json :: "json \<Rightarrow> signature_payload option" where
  "payload_of_json j =
     (case j of
        JObj d \<Rightarrow>
          if \<not> known_members [''schema_version'', ''artifact_digest'', ''mbom_digest'', ''model_id'', ''version'',
               ''signer_identity'', ''signed_at'', ''signature_algorithm'', ''key_id''] d then None
          else
            (case (str_field d ''schema_version'' (Some schema_version_legacy), str_field d ''artifact_digest'' None,
                   str_field d ''mbom_digest'' None, opt_field d ''model_id'', opt_field d ''version'',
                   str_field d ''signer_identity'' None, str_field d ''signed_at'' None,
                   opt_field d ''signature_algorithm'', opt_field d ''key_id'') of
               (Some sv, Some ad, Some md, Some mi, Some v, Some si, Some sa, Some alg, Some k) \<Rightarrow>
                 Some \<lparr>sp_schema_version = sv, sp_artifact_digest = ad, sp_mbom_digest = md,
                       sp_model_id = mi, sp_version = v, sp_signer_identity = si, sp_signed_at = sa,
                       sp_signature_algorithm = alg, sp_key_id = k\<rparr>
             | _ \<Rightarrow> None)
      | _ \<Rightarrow> None)"

definition envelope_of_json :: "json \<Rightarrow> signature_envelope option" where
  "envelope_of_json j =
     (case j of
        JObj d \<Rightarrow>
          if \<not> known_members [''signature_type'', ''payload'', ''signature'', ''public_key''] d then None
          else
            (case (str_field d ''signature_type'' (Some signature_type_ed25519_local),
                   Option.bind (map_of d ''payload'') payload_of_json,
                   str_field d ''signature'' None, str_field d ''public_key'' None) of
               (Some t, Some p, Some s, Some k) \<Rightarrow>
                 Some \<lparr>se_signature_type = t, se_payload = p, se_signature = s, se_public_key = k\<rparr>
             | _ \<Rightarrow> None)
      | _ \<Rightarrow> None)"

text \<open>\<open>bytes.decode("utf-8")\<close> onto the modelled code points.\<close>

fun utf8_decode :: "bytes \<Rightarrow> string option" where
  "utf8_decode [] = Some []"
| "utf8_decode (b # bs) =
     (if ord b < 128 then map_option (Cons b) (utf8_decode bs)
      else if ord b = 194 \<or> ord b = 195 then
        (case bs of
           c # cs \<Rightarrow>
             if 128 \<le> ord c \<and> ord c < 192
             then map_option (Cons (chr ((ord b - 192) * 64 + (ord c - 128)))) (utf8_decode cs) else None
         | [] \<Rightarrow> None)
      else None)"

definition read_file :: "fs_node option \<Rightarrow> exn + bytes" where
  "read_file nd = (case nd of None \<Rightarrow> Inl OSError | Some n \<Rightarrow> read_node n)"

text \<open>
  \<open>load_envelope\<close>.  Nesting too deep for the parser raises \<open>RecursionError\<close>, which is reported
  like a document of the wrong shape; the parser of the model has no depth limit and such a document
  fails its validation.
\<close>

definition load_envelope :: "fs_node option \<Rightarrow> exn + signature_envelope" where
  "load_envelope nd =
     (case read_file nd of
        Inl e \<Rightarrow> if catches OSErrorC e then Inl MalformedSignatureError else Inl e
      | Inr content \<Rightarrow>
          (let raw = take (max_envelope_bytes + 1) content
           in if length raw > max_envelope_bytes then Inl MalformedSignatureError
              else (case Option.bind (utf8_decode raw) loads of
                  None \<Rightarrow> Inl MalformedSignatureError
                | Some j \<Rightarrow>
                    (case envelope_of_json j of None \<Rightarrow> Inl MalformedSignatureError | Some env \<Rightarrow> Inr env))))"

section \<open>Verification\<close>

record signature_check =
  sc_algorithm :: string
  sc_key_fingerprint :: string
  sc_format_version :: string
  sc_key_bound :: bool

record tamper_check_result =
  tc_current_digest :: string
  tc_signed_digest :: string
  tc_matches :: bool

text \<open>The scheme and the key the payload commits to, fixed before any key or signature byte is read.\<close>

definition signature_scheme :: "bool \<Rightarrow> signature_envelope \<Rightarrow> exn + string \<times> string option" where
  "signature_scheme allow_legacy_v1 env =
     (let p = se_payload env; version = sp_schema_version p
      in if version = schema_version_legacy then
           (if \<not> allow_legacy_v1 then Inl UnsupportedSignatureSchemeError
            else if sp_signature_algorithm p \<noteq> None \<or> sp_key_id p \<noteq> None then Inl SignatureInvalidError
            else if se_signature_type env \<noteq> signature_type_ed25519_local then Inl UnsupportedSignatureSchemeError
            else Inr (algorithm_ed25519, None))
         else if version = schema_version_bound then
           (case (sp_signature_algorithm p, sp_key_id p) of
              (Some alg, Some kid) \<Rightarrow>
                if se_signature_type env \<noteq> alg then Inl SignatureInvalidError else Inr (alg, Some kid)
            | _ \<Rightarrow> Inl SignatureInvalidError)
         else Inl UnsupportedSignatureSchemeError)"

definition verify_envelope_signature ::
    "(bytes \<Rightarrow> string) \<Rightarrow> verifier dict \<Rightarrow> bool \<Rightarrow> signature_envelope \<Rightarrow> exn + signature_check" where
  "verify_envelope_signature H verifiers allow_legacy_v1 env =
     (case signature_scheme allow_legacy_v1 env of Inl e \<Rightarrow> Inl e | Inr (algorithm, claimed_key_id) \<Rightarrow>
     (case map_of verifiers algorithm of None \<Rightarrow> Inl UnsupportedSignatureSchemeError | Some verify \<Rightarrow>
     (case decode_hex_strict max_key_bytes (se_public_key env) of Inl e \<Rightarrow> Inl e | Inr public_key \<Rightarrow>
     (case decode_hex_strict max_signature_bytes (se_signature env) of Inl e \<Rightarrow> Inl e | Inr signature \<Rightarrow>
     (let fingerprint = key_fingerprint H public_key
      in if claimed_key_id \<noteq> None \<and> claimed_key_id \<noteq> Some fingerprint then Inl SignatureInvalidError
         else (case verify public_key signature (payload_canonical_json (se_payload env)) of
             Inl e \<Rightarrow> Inl e
           | Inr _ \<Rightarrow>
               Inr \<lparr>sc_algorithm = algorithm, sc_key_fingerprint = fingerprint,
                    sc_format_version = sp_schema_version (se_payload env),
                    sc_key_bound = (claimed_key_id \<noteq> None)\<rparr>))))))"

definition check_signature_bytes ::
    "(bytes \<Rightarrow> string) \<Rightarrow> verifier dict \<Rightarrow> bool \<Rightarrow> signature_envelope \<Rightarrow> exn + unit" where
  "check_signature_bytes H verifiers allow_legacy_v1 env =
     (case verify_envelope_signature H verifiers allow_legacy_v1 env of Inl e \<Rightarrow> Inl e | Inr _ \<Rightarrow> Inr ())"

definition digest_ref :: "artifact_digest \<Rightarrow> string" where
  "digest_ref d = ad_algorithm d @ '':'' @ ad_digest d"

text \<open>\<open>current\<close> is what the hasher does with the artifact's path.\<close>

definition check_artifact_digest :: "exn + artifact_digest \<Rightarrow> signature_envelope \<Rightarrow> exn + tamper_check_result" where
  "check_artifact_digest current env =
     (case current of
        Inl e \<Rightarrow> Inl e
      | Inr d \<Rightarrow>
          Inr \<lparr>tc_current_digest = digest_ref d, tc_signed_digest = sp_artifact_digest (se_payload env),
               tc_matches = (digest_ref d = sp_artifact_digest (se_payload env))\<rparr>)"

definition mbom_ref :: "(bytes \<Rightarrow> string) \<Rightarrow> mlbom \<Rightarrow> string" where
  "mbom_ref H b = ''sha256:'' @ H (mlbom_canonical_json b)"

definition check_mbom_digest :: "(bytes \<Rightarrow> string) \<Rightarrow> mlbom \<Rightarrow> signature_envelope \<Rightarrow> bool" where
  "check_mbom_digest H b env \<longleftrightarrow> mbom_ref H b = sp_mbom_digest (se_payload env)"

definition verify_artifact ::
    "(bytes \<Rightarrow> string) \<Rightarrow> crypto \<Rightarrow> string list \<Rightarrow> fs_node option \<Rightarrow> mlbom \<Rightarrow> signature_envelope \<Rightarrow> exn + tamper_check_result" where
  "verify_artifact H C path nd b env =
     (case check_signature_bytes H (default_verifiers C) True env of Inl e \<Rightarrow> Inl e | Inr _ \<Rightarrow>
      if \<not> check_mbom_digest H b env then Inl SignatureInvalidError
      else (case check_artifact_digest (hash_artifact H path nd) env of Inl e \<Rightarrow> Inl e | Inr t \<Rightarrow>
        if \<not> tc_matches t then Inl (DigestMismatchError (tc_signed_digest t) (tc_current_digest t))
        else Inr t))"

section \<open>Signing\<close>

text \<open>What a provider's method returns: the types the signer tells apart.\<close>

datatype py_value = PyStr string | PyBytes bytes | PyOther

record signer_provider =
  pr_algorithm :: "exn + py_value"
  pr_identity :: "exn + py_value"
  pr_public_key :: "exn + py_value"
  pr_sign :: "bytes \<Rightarrow> exn + py_value"

definition provider_call :: "exn + py_value \<Rightarrow> exn + py_value" where
  "provider_call r =
     (case r of Inr v \<Rightarrow> Inr v | Inl e \<Rightarrow> if is_modelguard e then Inl e else Inl SigningProviderError)"

definition usable_bytes :: "nat \<Rightarrow> py_value \<Rightarrow> bytes option" where
  "usable_bytes bound v = (case v of PyBytes b \<Rightarrow> if 0 < length b \<and> length b \<le> bound then Some b else None | _ \<Rightarrow> None)"

definition signed_payload :: "(bytes \<Rightarrow> string) \<Rightarrow> string \<Rightarrow> manifest \<Rightarrow> mlbom \<Rightarrow> string \<Rightarrow> string \<Rightarrow> bytes \<Rightarrow> signature_payload" where
  "signed_payload H now m b identity algorithm public_key =
     \<lparr>sp_schema_version = schema_version_bound,
      sp_artifact_digest = m_algorithm m @ '':'' @ m_digest m,
      sp_mbom_digest = mbom_ref H b,
      sp_model_id = m_model_id m, sp_version = m_version m,
      sp_signer_identity = identity, sp_signed_at = now,
      sp_signature_algorithm = Some algorithm, sp_key_id = Some (key_fingerprint H public_key)\<rparr>"

definition sign_with_provider ::
    "(bytes \<Rightarrow> string) \<Rightarrow> verifier dict \<Rightarrow> string \<Rightarrow> manifest \<Rightarrow> mlbom \<Rightarrow> signer_provider \<Rightarrow> exn + signature_envelope" where
  "sign_with_provider H verifiers now m b provider =
     (case provider_call (pr_algorithm provider) of Inl e \<Rightarrow> Inl e | Inr alg \<Rightarrow>
     (case alg of
        PyStr algorithm \<Rightarrow>
          if map_of verifiers algorithm = None then Inl UnsupportedSignatureSchemeError else
          (case provider_call (pr_identity provider) of Inl e \<Rightarrow> Inl e | Inr ident \<Rightarrow>
          (case provider_call (pr_public_key provider) of Inl e \<Rightarrow> Inl e | Inr key \<Rightarrow>
          (case ident of
             PyStr identity \<Rightarrow>
               if identity = [] then Inl SigningProviderError else
               (case usable_bytes max_key_bytes key of None \<Rightarrow> Inl SigningProviderError | Some public_key \<Rightarrow>
               (let payload = signed_payload H now m b identity algorithm public_key
                in case provider_call (pr_sign provider (payload_canonical_json payload)) of Inl e \<Rightarrow> Inl e | Inr sig \<Rightarrow>
               (case usable_bytes max_signature_bytes sig of None \<Rightarrow> Inl SigningProviderError | Some signature \<Rightarrow>
               (let env = \<lparr>se_signature_type = algorithm, se_payload = payload,
                           se_signature = to_hex signature, se_public_key = to_hex public_key\<rparr>
                in case verify_envelope_signature H verifiers False env of
                     Inl e \<Rightarrow> if is_modelguard e then Inl SigningProviderError else Inl e
                   | Inr _ \<Rightarrow> Inr env))))
           | _ \<Rightarrow> Inl SigningProviderError)))
      | _ \<Rightarrow> Inl UnsupportedSignatureSchemeError))"

text \<open>\<open>LocalEd25519Signer\<close> over a local key pair: its public bytes and its signing function.\<close>

record local_key_pair =
  kp_identity :: string
  kp_private_key :: bytes
  kp_public_key :: bytes

definition local_signer :: "(bytes \<Rightarrow> bytes \<Rightarrow> bytes) \<Rightarrow> local_key_pair \<Rightarrow> signer_provider" where
  "local_signer ed_sign kp =
     \<lparr>pr_algorithm = Inr (PyStr algorithm_ed25519), pr_identity = Inr (PyStr (kp_identity kp)),
      pr_public_key = Inr (PyBytes (kp_public_key kp)),
      pr_sign = (\<lambda>msg. Inr (PyBytes (ed_sign (kp_private_key kp) msg)))\<rparr>"

definition sign_artifact ::
    "(bytes \<Rightarrow> string) \<Rightarrow> crypto \<Rightarrow> (bytes \<Rightarrow> bytes \<Rightarrow> bytes) \<Rightarrow> string \<Rightarrow> manifest \<Rightarrow> mlbom \<Rightarrow> local_key_pair
       \<Rightarrow> exn + signature_envelope" where
  "sign_artifact H C ed_sign now m b kp =
     sign_with_provider H (default_verifiers C) now m b (local_signer ed_sign kp)"

section \<open>Lemmas\<close>

lemma decode_hex_Inr_iff:
  "decode_hex_strict n s = Inr b \<longleftrightarrow> s = to_hex b \<and> length b \<le> n"
proof
  assume d: "decode_hex_strict n s = Inr b"
  then have s: "length s \<le> 2 * n" "even (length s)" "list_all is_lower_hex s" "b = of_hex s"
    by (auto simp: decode_hex_strict_def split: if_splits)
  have "to_hex (of_hex s) = s"
    using s(2,3) by (induction s rule: of_hex.induct) (auto simp: hex_pair [simplified])
  then show "s = to_hex b \<and> length b \<le> n" using s(1,4) by (metis to_hex_length mult_le_cancel1 zero_less_numeral linorder_not_less)
next
  assume "s = to_hex b \<and> length b \<le> n"
  then show "decode_hex_strict n s = Inr b" by (auto simp: decode_hex_strict_def to_hex_lower)
qed

text \<open>What the scheme of an envelope commits to.\<close>

definition commits ::
    "bool \<Rightarrow> signature_envelope \<Rightarrow> string \<Rightarrow> string option \<Rightarrow> bool" where
  "commits allow_legacy_v1 env algorithm key_id \<longleftrightarrow>
     (let p = se_payload env in
      (sp_schema_version p = schema_version_bound \<and> sp_signature_algorithm p = Some algorithm
         \<and> sp_key_id p = key_id \<and> key_id \<noteq> None \<and> se_signature_type env = algorithm)
      \<or> (allow_legacy_v1 \<and> sp_schema_version p = schema_version_legacy \<and> algorithm = algorithm_ed25519
         \<and> sp_signature_algorithm p = None \<and> sp_key_id p = None \<and> key_id = None
         \<and> se_signature_type env = signature_type_ed25519_local))"

lemma signature_scheme_Inr_iff:
  "signature_scheme allow env = Inr (alg, kid) \<longleftrightarrow> commits allow env alg kid"
  by (auto simp: signature_scheme_def commits_def Let_def schema_version_legacy_def schema_version_bound_def
      split: option.splits if_splits)

lemma verify_Inr_iff:
  "verify_envelope_signature H vs allow env = Inr chk \<longleftrightarrow>
     (\<exists>pk sg verify kid.
        se_public_key env = to_hex pk \<and> length pk \<le> max_key_bytes
        \<and> se_signature env = to_hex sg \<and> length sg \<le> max_signature_bytes
        \<and> commits allow env (sc_algorithm chk) kid \<and> (kid = None \<or> kid = Some (H pk))
        \<and> map_of vs (sc_algorithm chk) = Some verify
        \<and> verify pk sg (payload_canonical_json (se_payload env)) = Inr ()
        \<and> chk = \<lparr>sc_algorithm = sc_algorithm chk, sc_key_fingerprint = H pk,
                 sc_format_version = sp_schema_version (se_payload env), sc_key_bound = (kid \<noteq> None)\<rparr>)"
  (is "?l \<longleftrightarrow> ?r")
proof
  assume l: ?l
  obtain alg kid where s: "signature_scheme allow env = Inr (alg, kid)"
    using l by (auto simp: verify_envelope_signature_def split: sum.splits)
  obtain v where v: "map_of vs alg = Some v"
    using l s by (auto simp: verify_envelope_signature_def split: option.splits)
  obtain pk where pk: "decode_hex_strict max_key_bytes (se_public_key env) = Inr pk"
    using l s v by (auto simp: verify_envelope_signature_def split: sum.splits)
  obtain sg where sg: "decode_hex_strict max_signature_bytes (se_signature env) = Inr sg"
    using l s v pk by (auto simp: verify_envelope_signature_def split: sum.splits)
  have "(kid = None \<or> kid = Some (H pk)) \<and> v pk sg (payload_canonical_json (se_payload env)) = Inr ()
    \<and> chk = \<lparr>sc_algorithm = alg, sc_key_fingerprint = H pk,
             sc_format_version = sp_schema_version (se_payload env), sc_key_bound = (kid \<noteq> None)\<rparr>"
    using l s v pk sg
    by (auto simp: verify_envelope_signature_def Let_def key_fingerprint_def split: sum.splits if_splits)
  then show ?r
    using s v pk sg by (auto simp: signature_scheme_Inr_iff decode_hex_Inr_iff)
next
  assume ?r
  then obtain pk sg v kid where r: "decode_hex_strict max_key_bytes (se_public_key env) = Inr pk"
      "decode_hex_strict max_signature_bytes (se_signature env) = Inr sg"
      "signature_scheme allow env = Inr (sc_algorithm chk, kid)" "kid = None \<or> kid = Some (H pk)"
      "map_of vs (sc_algorithm chk) = Some v" "v pk sg (payload_canonical_json (se_payload env)) = Inr ()"
    and c: "chk = \<lparr>sc_algorithm = sc_algorithm chk, sc_key_fingerprint = H pk,
             sc_format_version = sp_schema_version (se_payload env), sc_key_bound = (kid \<noteq> None)\<rparr>"
    by (auto simp: signature_scheme_Inr_iff decode_hex_Inr_iff)
  have "verify_envelope_signature H vs allow env = Inr \<lparr>sc_algorithm = sc_algorithm chk, sc_key_fingerprint = H pk,
             sc_format_version = sp_schema_version (se_payload env), sc_key_bound = (kid \<noteq> None)\<rparr>"
    using r by (auto simp: verify_envelope_signature_def Let_def key_fingerprint_def)
  then show ?l using c by metis
qed

lemma commits_mono: "commits False env alg kid \<Longrightarrow> commits allow env alg kid"
  by (auto simp: commits_def Let_def)

lemma verify_allow: "verify_envelope_signature H vs False env = Inr chk \<Longrightarrow> verify_envelope_signature H vs allow env = Inr chk"
  unfolding verify_Inr_iff using commits_mono by metis

lemma signature_scheme_fails: "signature_scheme allow env = Inl e \<Longrightarrow> catches SignatureInvalidErrorC e"
  by (auto simp: signature_scheme_def Let_def catches_signature_invalid split: if_splits option.splits)

lemma decode_hex_fails: "decode_hex_strict n s = Inl e \<Longrightarrow> catches SignatureInvalidErrorC e"
  by (auto simp: decode_hex_strict_def catches_signature_invalid split: if_splits)

lemma verify_fails:
  assumes "\<And>alg v. map_of vs alg = Some v \<Longrightarrow> signature_verifier v"
    and "verify_envelope_signature H vs allow env = Inl e"
  shows "catches SignatureInvalidErrorC e"
  using assms(2) signature_verifier.failure [OF assms(1)]
  by (auto simp: verify_envelope_signature_def Let_def catches_signature_invalid
      dest!: signature_scheme_fails decode_hex_fails split: sum.splits option.splits if_splits prod.splits)

lemma sign_InrD:
  assumes "sign_with_provider H vs now m b provider = Inr env"
  shows "\<exists>chk identity public_key signature.
    verify_envelope_signature H vs False env = Inr chk
    \<and> pr_algorithm provider = Inr (PyStr (sc_algorithm chk)) \<and> pr_identity provider = Inr (PyStr identity) \<and> identity \<noteq> []
    \<and> pr_public_key provider = Inr (PyBytes public_key)
    \<and> se_payload env = signed_payload H now m b identity (sc_algorithm chk) public_key
    \<and> pr_sign provider (payload_canonical_json (se_payload env)) = Inr (PyBytes signature)
    \<and> se_public_key env = to_hex public_key \<and> se_signature env = to_hex signature"
proof -
  have pc: "provider_call r = Inr v \<longleftrightarrow> r = Inr v" for r v
    by (auto simp: provider_call_def split: sum.splits if_splits)
  have ub: "usable_bytes n v = Some x \<Longrightarrow> v = PyBytes x" for n v x
    by (auto simp: usable_bytes_def split: py_value.splits if_splits)
  obtain algorithm where 1: "pr_algorithm provider = Inr (PyStr algorithm)" "map_of vs algorithm \<noteq> None"
    using assms by (auto simp: sign_with_provider_def pc split: sum.splits py_value.splits if_splits)
  obtain identity where 2: "pr_identity provider = Inr (PyStr identity)" "identity \<noteq> []"
    using assms 1 by (auto simp: sign_with_provider_def pc split: sum.splits py_value.splits if_splits)
  obtain key public_key where 3: "pr_public_key provider = Inr key" "usable_bytes max_key_bytes key = Some public_key"
    using assms 1 2 by (auto simp: sign_with_provider_def pc split: sum.splits option.splits)
  let ?p = "signed_payload H now m b identity algorithm public_key"
  obtain sig signature where 4: "pr_sign provider (payload_canonical_json ?p) = Inr sig"
      "usable_bytes max_signature_bytes sig = Some signature"
    using assms 1 2 3 by (auto simp: sign_with_provider_def pc Let_def split: sum.splits option.splits)
  let ?env = "\<lparr>se_signature_type = algorithm, se_payload = ?p, se_signature = to_hex signature, se_public_key = to_hex public_key\<rparr>"
  obtain chk where 5: "verify_envelope_signature H vs False ?env = Inr chk" "env = ?env"
    using assms 1 2 3 4 by (auto simp: sign_with_provider_def pc Let_def split: sum.splits if_splits)
  then have "sc_algorithm chk = algorithm"
    by (auto simp: verify_Inr_iff commits_def signed_payload_def Let_def schema_version_legacy_def schema_version_bound_def)
  then show ?thesis using 1 2 3 4 5 ub [OF 3(2)] ub [OF 4(2)] by auto
qed

section \<open>Properties\<close>

text \<open>
  A scheme for concrete runs: the public key is the private key and a signature is a keyed hash.
\<close>

definition sample_crypto :: crypto where
  "sample_crypto = \<lparr>cr_ed25519 = (\<lambda>pk sig msg. if sig = sha256 (pk @ msg) then Accepts else RaisesInvalidSignature),
     cr_ecdsa_p256 = (\<lambda>pk sig msg. RaisesInvalidSignature)\<rparr>"

definition sample_key_pair :: local_key_pair where
  "sample_key_pair = \<lparr>kp_identity = ''alice'', kp_private_key = replicate 32 (CHR ''k''),
     kp_public_key = replicate 32 (CHR ''k'')\<rparr>"

definition sample_sign :: "bytes \<Rightarrow> bytes \<Rightarrow> bytes" where
  "sample_sign key msg = sha256 (key @ msg)"

lemma length_sha256 [simp]: "length (sha256 x) = 64"
  using is_sha256_hex_sha256 [of x] by (simp add: is_sha256_hex_def)

lemma local_signature_verifies:
  assumes "length pk = 32" and "length (ed_sign sk (payload_canonical_json p)) = 64"
    and "cr_ed25519 C pk (ed_sign sk (payload_canonical_json p)) (payload_canonical_json p) = Accepts"
    and "p = signed_payload H now m b identity algorithm_ed25519 pk"
  shows "verify_envelope_signature H (default_verifiers C) allow
    \<lparr>se_signature_type = algorithm_ed25519, se_payload = p,
     se_signature = to_hex (ed_sign sk (payload_canonical_json p)), se_public_key = to_hex pk\<rparr>
    = Inr \<lparr>sc_algorithm = algorithm_ed25519, sc_key_fingerprint = H pk, sc_format_version = ''2'', sc_key_bound = True\<rparr>"
  unfolding verify_Inr_iff using assms
  by (auto simp: commits_def Let_def signed_payload_def key_fingerprint_def schema_version_bound_def
      default_verifiers_def ed25519_verify_def crypto_outcome_def max_key_bytes_def max_signature_bytes_def
      ed25519_public_key_len_def ed25519_signature_len_def
      intro!: exI [of _ pk] exI [of _ "ed_sign sk (payload_canonical_json p)"])

text \<open>
  C4. What verifies under a key was signed by its holder, every field of it: if the scheme accepts
  under keys of this fingerprint only messages that are the canonical bytes of payloads from a set
  \<open>genuine\<close>, then the payload of an envelope that verifies is a member of \<open>genuine\<close>; and a format-2
  payload commits to that very algorithm and key.
\<close>

theorem verified_payload_was_signed:
  assumes "verify_envelope_signature H vs allow env = Inr chk"
    and "\<And>v pk sg msg. map_of vs (sc_algorithm chk) = Some v \<Longrightarrow> H pk = sc_key_fingerprint chk
      \<Longrightarrow> v pk sg msg = Inr () \<Longrightarrow> msg \<in> payload_canonical_json ` genuine"
  shows "se_payload env \<in> genuine
    \<and> (sc_key_bound chk \<longrightarrow> sp_signature_algorithm (se_payload env) = Some (sc_algorithm chk)
         \<and> sp_key_id (se_payload env) = Some (sc_key_fingerprint chk))"
proof -
  obtain pk sg v kid where c: "commits allow env (sc_algorithm chk) kid" "kid = None \<or> kid = Some (H pk)"
      "map_of vs (sc_algorithm chk) = Some v" "v pk sg (payload_canonical_json (se_payload env)) = Inr ()"
    and k: "sc_key_fingerprint chk = H pk" "sc_key_bound chk = (kid \<noteq> None)"
    using assms(1) unfolding verify_Inr_iff by (metis signature_check.select_convs(2,4))
  have "payload_canonical_json (se_payload env) \<in> payload_canonical_json ` genuine"
    using assms(2) [OF c(3) _ c(4)] k by simp
  then have "se_payload env \<in> genuine" by (auto simp: payload_canonical_inj)
  then show ?thesis using c(1,2) k by (auto simp: commits_def Let_def)
qed

text \<open>A scheme that accepts one message only.\<close>

definition one_payload :: signature_payload where
  "one_payload = signed_payload sha256 ''t'' sample_manifest sample_mlbom ''alice'' algorithm_ed25519 (replicate 32 (CHR ''k''))"

definition one_message_crypto :: crypto where
  "one_message_crypto = \<lparr>cr_ed25519 = (\<lambda>pk sig msg. if msg = payload_canonical_json one_payload then Accepts else RaisesInvalidSignature),
     cr_ecdsa_p256 = (\<lambda>pk sig msg. RaisesInvalidSignature)\<rparr>"

theorem verified_payload_was_signed_witness:
  "one_payload \<in> {one_payload} \<and> sp_signature_algorithm one_payload = Some algorithm_ed25519
     \<and> sp_key_id one_payload = Some (sha256 (replicate 32 (CHR ''k'')))"
proof -
  have accepted: "v pk sg msg = Inr () \<Longrightarrow> msg = payload_canonical_json one_payload"
    if "map_of (default_verifiers one_message_crypto) algorithm_ed25519 = Some v" for v pk sg msg
    using that
    by (auto simp: one_message_crypto_def default_verifiers_def ed25519_verify_def crypto_outcome_def split: if_splits)
  have "verify_envelope_signature sha256 (default_verifiers one_message_crypto) True
      \<lparr>se_signature_type = algorithm_ed25519, se_payload = one_payload,
       se_signature = to_hex (replicate 64 (CHR ''s'')), se_public_key = to_hex (replicate 32 (CHR ''k''))\<rparr>
    = Inr \<lparr>sc_algorithm = algorithm_ed25519, sc_key_fingerprint = sha256 (replicate 32 (CHR ''k'')),
           sc_format_version = ''2'', sc_key_bound = True\<rparr>"
    by (rule local_signature_verifies [where ed_sign = "\<lambda>_ _. replicate 64 (CHR ''s'')"])
      (simp_all add: one_message_crypto_def one_payload_def)
  from verified_payload_was_signed [OF this, of "{one_payload}"] accepted show ?thesis by simp
qed

definition local_envelope ::
    "(bytes \<Rightarrow> string) \<Rightarrow> (bytes \<Rightarrow> bytes \<Rightarrow> bytes) \<Rightarrow> string \<Rightarrow> manifest \<Rightarrow> mlbom \<Rightarrow> local_key_pair \<Rightarrow> signature_envelope" where
  "local_envelope H ed_sign now m b kp =
     (let p = signed_payload H now m b (kp_identity kp) algorithm_ed25519 (kp_public_key kp)
      in \<lparr>se_signature_type = algorithm_ed25519, se_payload = p,
          se_signature = to_hex (ed_sign (kp_private_key kp) (payload_canonical_json p)),
          se_public_key = to_hex (kp_public_key kp)\<rparr>)"

text \<open>A usable local key: its signatures are accepted under its public key.\<close>

definition usable_key :: "crypto \<Rightarrow> (bytes \<Rightarrow> bytes \<Rightarrow> bytes) \<Rightarrow> local_key_pair \<Rightarrow> bool" where
  "usable_key C ed_sign kp \<longleftrightarrow> kp_identity kp \<noteq> [] \<and> length (kp_public_key kp) = 32
     \<and> (\<forall>msg. length (ed_sign (kp_private_key kp) msg) = 64
          \<and> cr_ed25519 C (kp_public_key kp) (ed_sign (kp_private_key kp) msg) msg = Accepts)"

lemma local_envelope_verifies:
  assumes "usable_key C ed_sign kp"
  shows "verify_envelope_signature H (default_verifiers C) allow (local_envelope H ed_sign now m b kp) = Inr
      \<lparr>sc_algorithm = algorithm_ed25519, sc_key_fingerprint = H (kp_public_key kp),
       sc_format_version = ''2'', sc_key_bound = True\<rparr>"
  unfolding local_envelope_def Let_def
  by (rule local_signature_verifies) (use assms in \<open>simp_all add: usable_key_def\<close>)

lemma sign_artifact_local:
  assumes "usable_key C ed_sign kp"
  shows "sign_artifact H C ed_sign now m b kp = Inr (local_envelope H ed_sign now m b kp)"
  using assms local_envelope_verifies [OF assms, of H False now m b]
  by (simp add: sign_artifact_def sign_with_provider_def local_signer_def provider_call_def usable_bytes_def
      Let_def max_key_bytes_def max_signature_bytes_def default_verifiers_def usable_key_def local_envelope_def)

lemma sample_usable: "usable_key sample_crypto sample_sign sample_key_pair"
  by (simp add: usable_key_def sample_crypto_def sample_key_pair_def sample_sign_def)

text \<open>
  A usable local key signs every manifest and ML-BOM: \<open>sign_artifact\<close> returns an envelope that
  verifies, bound to the key, with the digests of the manifest and the ML-BOM.
\<close>

theorem local_key_signs:
  assumes "usable_key C ed_sign kp"
  shows "\<exists>env. sign_artifact H C ed_sign now m b kp = Inr env
    \<and> verify_envelope_signature H (default_verifiers C) allow env = Inr
        \<lparr>sc_algorithm = algorithm_ed25519, sc_key_fingerprint = H (kp_public_key kp),
         sc_format_version = ''2'', sc_key_bound = True\<rparr>
    \<and> sp_artifact_digest (se_payload env) = m_algorithm m @ '':'' @ m_digest m
    \<and> check_mbom_digest H b env \<and> sp_signer_identity (se_payload env) = kp_identity kp"
  using sign_artifact_local [OF assms] local_envelope_verifies [OF assms]
  by (simp add: local_envelope_def Let_def signed_payload_def check_mbom_digest_def)

theorem local_key_signs_witness:
  "\<exists>env. sign_artifact sha256 sample_crypto sample_sign ''t'' sample_manifest sample_mlbom sample_key_pair = Inr env
    \<and> verify_envelope_signature sha256 (default_verifiers sample_crypto) True env = Inr
        \<lparr>sc_algorithm = algorithm_ed25519, sc_key_fingerprint = sha256 (kp_public_key sample_key_pair),
         sc_format_version = ''2'', sc_key_bound = True\<rparr>"
  using local_key_signs [OF sample_usable] by blast

text \<open>
  Whatever a provider does, an envelope that \<open>sign_with_provider\<close> returns verifies, without the
  legacy format, under the algorithm and the key the provider reported; its payload carries the
  artifact's digest and the ML-BOM's hash.
\<close>

theorem signer_output_verifies:
  assumes "sign_with_provider H vs now m b provider = Inr env"
  shows "\<exists>chk pk. verify_envelope_signature H vs False env = Inr chk \<and> sc_key_bound chk
    \<and> pr_algorithm provider = Inr (PyStr (sc_algorithm chk))
    \<and> pr_public_key provider = Inr (PyBytes pk) \<and> sc_key_fingerprint chk = H pk
    \<and> sp_artifact_digest (se_payload env) = m_algorithm m @ '':'' @ m_digest m \<and> check_mbom_digest H b env
    \<and> sp_model_id (se_payload env) = m_model_id m \<and> sp_version (se_payload env) = m_version m"
proof -
  obtain chk identity pk where c: "verify_envelope_signature H vs False env = Inr chk"
      "pr_algorithm provider = Inr (PyStr (sc_algorithm chk))" "pr_public_key provider = Inr (PyBytes pk)"
      "se_payload env = signed_payload H now m b identity (sc_algorithm chk) pk" "se_public_key env = to_hex pk"
    using sign_InrD [OF assms] by blast
  obtain pk' kid where k: "se_public_key env = to_hex pk'" "commits False env (sc_algorithm chk) kid"
      "chk = \<lparr>sc_algorithm = sc_algorithm chk, sc_key_fingerprint = H pk',
             sc_format_version = sp_schema_version (se_payload env), sc_key_bound = (kid \<noteq> None)\<rparr>"
    using c(1) unfolding verify_Inr_iff by blast
  have "sc_key_fingerprint chk = H pk'" "sc_key_bound chk = (kid \<noteq> None)"
    by (subst k(3), simp)+
  moreover have "kid \<noteq> None" using k(2) by (simp add: commits_def Let_def)
  ultimately show ?thesis using c k(1) by (auto simp: signed_payload_def check_mbom_digest_def)
qed

theorem signer_output_verifies_witness:
  "\<exists>chk. verify_envelope_signature sha256 (default_verifiers sample_crypto) False
       (local_envelope sha256 sample_sign ''t'' sample_manifest sample_mlbom sample_key_pair) = Inr chk \<and> sc_key_bound chk"
  using signer_output_verifies [OF sign_artifact_local [OF sample_usable, unfolded sign_artifact_def]] by blast

text \<open>
  Verification with the built-in schemes fails with a signature error only, whatever the
  envelope holds: malformed hexadecimal, keys and signatures of any length, unknown formats and
  algorithms, inconsistent labels.
\<close>

theorem signature_failures_typed:
  "case verify_envelope_signature H (default_verifiers C) allow env of
     Inl e \<Rightarrow> e = SignatureInvalidError \<or> e = UnsupportedSignatureSchemeError
   | Inr chk \<Rightarrow> sc_key_fingerprint chk = H (of_hex (se_public_key env))"
proof (cases "verify_envelope_signature H (default_verifiers C) allow env")
  case (Inl e)
  then have "catches SignatureInvalidErrorC e" using verify_fails default_verifier by blast
  then show ?thesis using Inl by (simp add: catches_signature_invalid)
next
  case (Inr chk)
  then obtain pk where "se_public_key env = to_hex pk" "sc_key_fingerprint chk = H pk"
    unfolding verify_Inr_iff by (metis signature_check.select_convs(2))
  then show ?thesis using Inr by simp
qed

lemma verify_artifact_Inr_iff:
  "verify_artifact H C path nd b env = Inr t \<longleftrightarrow>
     (\<exists>chk d. verify_envelope_signature H (default_verifiers C) True env = Inr chk
        \<and> check_mbom_digest H b env \<and> hash_artifact H path nd = Inr d
        \<and> sp_artifact_digest (se_payload env) = digest_ref d
        \<and> t = \<lparr>tc_current_digest = digest_ref d, tc_signed_digest = digest_ref d, tc_matches = True\<rparr>)"
  by (auto simp: verify_artifact_def check_signature_bytes_def check_artifact_digest_def split: sum.splits if_splits)

text \<open>
  Signing then verifying an unchanged artifact succeeds: a manifest built from the artifact, any
  ML-BOM, a usable local key.
\<close>

theorem signed_artifact_verifies:
  assumes "build_manifest H path nd meta None = Inr m" and "usable_key C ed_sign kp"
    and "sign_artifact H C ed_sign now m b kp = Inr env"
  shows "\<exists>t. verify_artifact H C path nd b env = Inr t \<and> tc_matches t"
proof -
  obtain d where d: "hash_artifact H path nd = Inr d" "m_digest m = ad_digest d" "m_algorithm m = ad_algorithm d"
    using assms(1) by (auto simp: build_manifest_def Let_def split: sum.splits if_splits)
  have env: "env = local_envelope H ed_sign now m b kp" using assms(3) sign_artifact_local [OF assms(2)] by simp
  have "sp_artifact_digest (se_payload env) = digest_ref d" "check_mbom_digest H b env"
    using d by (simp_all add: env local_envelope_def Let_def signed_payload_def check_mbom_digest_def digest_ref_def)
  then show ?thesis
    using d(1) local_envelope_verifies [OF assms(2)] unfolding verify_artifact_Inr_iff env by auto
qed

definition built_manifest :: manifest where
  "built_manifest = \<lparr>m_schema_version = ''1'', m_artifact_type = ''file'', m_algorithm = ''sha256'',
     m_digest = sha256 ''w'', m_model_id = None, m_artifact_name = Some ''m.bin'', m_version = None,
     m_format = None, m_framework = None, m_license = None, m_creator = None, m_source_location = None, m_files = []\<rparr>"

lemma built_manifest: "build_manifest sha256 [''m.bin''] (Some (FFile ''w'')) None None = Inr built_manifest"
  by (simp add: built_manifest_def build_manifest_def hash_artifact_def hash_file_def Let_def no_metadata_def
      valid_manifest_def manifest_schema_version_def path_name_def or_str_def artifact_digest_from_files_def
      digest_algorithm_def path_exists_def path_is_dir_def path_is_symlink_def hash_file_bytes_def hash_loop.simps
      chunk_size_def)

theorem signed_artifact_verifies_witness:
  "\<exists>env t. sign_artifact sha256 sample_crypto sample_sign ''t'' built_manifest sample_mlbom sample_key_pair = Inr env
     \<and> verify_artifact sha256 sample_crypto [''m.bin''] (Some (FFile ''w'')) sample_mlbom env = Inr t \<and> tc_matches t"
  using signed_artifact_verifies [OF built_manifest sample_usable sign_artifact_local [OF sample_usable]]
    sign_artifact_local [OF sample_usable] by blast



section \<open>Reading an envelope\<close>

definition payload_json :: "signature_payload \<Rightarrow> json" where
  "payload_json p = with_nulls (payload_fields p)"

definition envelope_json :: "signature_envelope \<Rightarrow> json" where
  "envelope_json env =
     JObj [(''signature_type'', JStr (se_signature_type env)), (''payload'', payload_json (se_payload env)),
           (''signature'', JStr (se_signature env)), (''public_key'', JStr (se_public_key env))]"

lemma utf8_decode_ascii: "list_all (\<lambda>c. ord c < 128) s \<Longrightarrow> utf8_decode s = Some s"
  by (induction s) auto

lemma payload_of_dumped: "dumped (payload_fields p) d \<Longrightarrow> payload_of_json (JObj d) = Some p"
  by (simp add: payload_of_json_def field_of_dump payload_fields_def)

lemma payload_reads: "reads_back payload_of_json payload_json UNIV"
  by (auto simp: reads_back_def payload_json_def payload_fields_def [THEN arg_cong [where f = "map fst"]]
      intro!: payload_of_dumped elim!: read_with_nulls)

lemma wf_payload_json: "wf_json (payload_json p)"
  unfolding payload_json_def by (rule wf_with_nulls) (simp_all add: payload_fields_def)

lemma wf_envelope_json: "wf_json (envelope_json env)"
  by (simp add: envelope_json_def wf_payload_json)

lemma envelope_reads: "reads_back envelope_of_json envelope_json UNIV"
proof -
  have "envelope_of_json j = Some env" if j: "canon j = canon (envelope_json env)" for j env
  proof -
    let ?fs = "[(''signature_type'', Some (JStr (se_signature_type env))), (''payload'', Some (payload_json (se_payload env))),
           (''signature'', Some (JStr (se_signature env))), (''public_key'', Some (JStr (se_public_key env)))]"
    have "envelope_of_json (JObj d) = Some env" if d: "dumped ?fs d" for d
    proof -
      have "Option.bind (map_of d ''payload'') payload_of_json = Some (se_payload env)"
        by (rule model_dumped [OF d _ payload_reads]) simp_all
      then show ?thesis by (simp add: envelope_of_json_def field_of_dump [OF d])
    qed
    moreover have "envelope_json env = with_nulls ?fs" by (simp add: envelope_json_def with_nulls_def)
    ultimately show ?thesis using read_with_nulls [of j ?fs envelope_of_json env] j by simp
  qed
  then show ?thesis by (simp add: reads_back_def)
qed

lemma envelope_of_envelope_json: "envelope_of_json (canon (envelope_json env)) = Some env"
  using envelope_reads by (simp add: reads_back_def)

text \<open>What \<open>json.dumps\<close> writes is ASCII; the text of an envelope parses back.\<close>

lemma dumps_ascii: "wf_json j \<Longrightarrow> utf8_decode (dumps j) = Some (dumps j)"
  using printable_dumps [of j] by (intro utf8_decode_ascii) (auto simp: printable_def list_all_iff)

lemma envelope_text:
  "utf8_decode (dumps (envelope_json env)) = Some (dumps (envelope_json env))"
  "loads (dumps (envelope_json env)) = Some (canon (envelope_json env))"
  by (rule dumps_ascii [OF wf_envelope_json], rule loads_dumps [OF wf_envelope_json])

text \<open>
  Loading a signature file fails with \<open>MalformedSignatureError\<close> only, whatever the file holds or
  if there is none, and never accepts one of more than 64 KiB.
\<close>

theorem load_envelope_fails_cleanly:
  "case load_envelope nd of
     Inl e \<Rightarrow> e = MalformedSignatureError
   | Inr env \<Rightarrow> \<exists>content. read_file nd = Inr content \<and> length content \<le> max_envelope_bytes"
proof -
  have os: "e = OSError" if "read_file nd = Inl e" for e
    using that by (cases nd) (auto simp: read_file_def split: option.splits elim!: read_node.elims)
  show ?thesis
  proof (cases "read_file nd")
    case (Inl e)
    then show ?thesis using os by (simp add: load_envelope_def catches_def)
  next
    case (Inr content)
    then show ?thesis
      by (auto simp: load_envelope_def Let_def min_def split: option.splits if_splits)
  qed
qed

text \<open>
  An envelope written as JSON, its absent fields as \<open>null\<close>, is read back as it was, if the file is
  within the size limit.
\<close>

theorem envelope_file_round_trip:
  assumes "length (dumps (envelope_json env)) \<le> max_envelope_bytes"
  shows "load_envelope (Some (FFile (dumps (envelope_json env)))) = Inr env"
  using assms by (simp add: load_envelope_def read_file_def Let_def envelope_text envelope_of_envelope_json)

definition small_envelope :: signature_envelope where
  "small_envelope = \<lparr>se_signature_type = ''a'', se_payload = \<lparr>sp_schema_version = ''2'', sp_artifact_digest = ''d'',
     sp_mbom_digest = ''m'', sp_model_id = None, sp_version = Some ''1'', sp_signer_identity = ''s'',
     sp_signed_at = ''t'', sp_signature_algorithm = Some ''a'', sp_key_id = Some ''k''\<rparr>,
     se_signature = ''00'', se_public_key = ''ff''\<rparr>"

theorem envelope_file_round_trip_witness:
  "load_envelope (Some (FFile (dumps (envelope_json small_envelope)))) = Inr small_envelope"
proof (rule envelope_file_round_trip)
  have "length (dumps (envelope_json small_envelope)) \<le> 300" by code_simp
  then show "length (dumps (envelope_json small_envelope)) \<le> max_envelope_bytes" by (simp add: max_envelope_bytes_def)
qed

definition payload_size :: "signature_payload \<Rightarrow> nat" where
  "payload_size p = length (sp_schema_version p) + length (sp_artifact_digest p) + length (sp_mbom_digest p)
     + text_size (sp_model_id p) + text_size (sp_version p) + length (sp_signer_identity p) + length (sp_signed_at p)
     + text_size (sp_signature_algorithm p) + text_size (sp_key_id p)"

lemma length_payload_dumps:
  "length (dumps (drop_none (payload_fields p))) \<le> 6 * payload_size p + 700"
  "length (dumps (payload_json p)) \<le> 6 * payload_size p + 700"
proof -
  note sizes = length_dumps_JStr [of "sp_schema_version p"] length_dumps_JStr [of "sp_artifact_digest p"]
      length_dumps_JStr [of "sp_mbom_digest p"] opt_str_size [of "sp_model_id p"] opt_str_size [of "sp_version p"]
      length_dumps_JStr [of "sp_signer_identity p"] length_dumps_JStr [of "sp_signed_at p"]
      opt_str_size [of "sp_signature_algorithm p"] opt_str_size [of "sp_key_id p"]
  have null: "(case v of None \<Rightarrow> 4 | Some j \<Rightarrow> length (dumps j)) \<le> 4 + (case v of None \<Rightarrow> 0 | Some j \<Rightarrow> length (dumps j))" for v
    by (cases v) simp_all
  note nulls = null [of "opt_str (sp_model_id p)"] null [of "opt_str (sp_version p)"]
    null [of "opt_str (sp_signature_algorithm p)"] null [of "opt_str (sp_key_id p)"]
  show "length (dumps (drop_none (payload_fields p))) \<le> 6 * payload_size p + 700"
    using length_drop_none [of "payload_fields p"] sizes
    unfolding payload_fields_def payload_size_def by (simp del: dumps.simps)
  show "length (dumps (payload_json p)) \<le> 6 * payload_size p + 700"
    using length_with_nulls [of "payload_fields p"] sizes nulls
    unfolding payload_json_def payload_fields_def payload_size_def by (simp del: dumps.simps)
qed

lemma length_envelope_json:
  "length (dumps (envelope_json env)) \<le> 6 * (length (se_signature_type env) + payload_size (se_payload env)
     + length (se_signature env) + length (se_public_key env)) + 1000"
  using length_dumps_JObj [of "[(''signature_type'', JStr (se_signature_type env)), (''payload'', payload_json (se_payload env)),
           (''signature'', JStr (se_signature env)), (''public_key'', JStr (se_public_key env))]"]
    length_dumps_JStr [of "se_signature_type env"] length_payload_dumps(2) [of "se_payload env"]
    length_dumps_JStr [of "se_signature env"] length_dumps_JStr [of "se_public_key env"]
  unfolding envelope_json_def by (simp del: dumps.simps)

lemma local_envelope_fits:
  assumes "length (kp_public_key kp) = 32" and "\<And>msg. length (ed_sign (kp_private_key kp) msg) = 64" and "\<And>b. length (H b) = 64"
    and "length (kp_identity kp) + length now + text_size (m_model_id m) + text_size (m_version m)
           + length (m_algorithm m) + length (m_digest m) \<le> 10000"
  shows "length (dumps (envelope_json (local_envelope H ed_sign now m b kp))) \<le> max_envelope_bytes"
  using length_envelope_json [of "local_envelope H ed_sign now m b kp"] assms
  by (simp add: local_envelope_def Let_def signed_payload_def payload_size_def max_envelope_bytes_def
      schema_version_bound_def algorithm_ed25519_def mbom_ref_def key_fingerprint_def text_size_def)

text \<open>
  Signing never writes an envelope that loading refuses for its size: as long as the signer's identity,
  the model's id, its version, the digest and the time have at most 10,000 characters together, the
  envelope of a local key stays within the limit and is read back as it was.
\<close>

theorem signed_envelope_fits:
  assumes "usable_key C ed_sign kp" and "\<And>b. length (H b) = 64"
    and "sign_artifact H C ed_sign now m b kp = Inr env"
    and "length (kp_identity kp) + length now + text_size (m_model_id m) + text_size (m_version m)
           + length (m_algorithm m) + length (m_digest m) \<le> 10000"
  shows "length (dumps (envelope_json env)) \<le> max_envelope_bytes
    \<and> load_envelope (Some (FFile (dumps (envelope_json env)))) = Inr env"
proof -
  have env: "env = local_envelope H ed_sign now m b kp" using assms(3) sign_artifact_local [OF assms(1)] by simp
  have "length (dumps (envelope_json env)) \<le> max_envelope_bytes"
    unfolding env by (rule local_envelope_fits) (use assms in \<open>auto simp: usable_key_def\<close>)
  then show ?thesis by (simp add: load_envelope_def read_file_def Let_def envelope_text envelope_of_envelope_json)
qed

theorem signed_envelope_fits_witness:
  "\<exists>env. sign_artifact sha256 sample_crypto sample_sign ''t'' sample_manifest sample_mlbom sample_key_pair = Inr env
    \<and> length (dumps (envelope_json env)) \<le> max_envelope_bytes"
  using signed_envelope_fits [OF sample_usable, of sha256 "''t''" sample_manifest sample_mlbom]
    sign_artifact_local [OF sample_usable, of sha256 "''t''" sample_manifest sample_mlbom]
  by (simp add: sample_key_pair_def sample_manifest_def text_size_def)

section \<open>The registry of schemes\<close>

lemma add_verifiers_keeps:
  "add_verifiers reg extra = Inr vs \<Longrightarrow>
     (\<forall>alg v. map_of reg alg = Some v \<longrightarrow> map_of vs alg = Some v) \<and> (\<forall>alg v. (alg, v) \<in> set extra \<longrightarrow> map_of vs alg = Some v)"
proof (induction extra arbitrary: reg)
  case (Cons av extra)
  obtain alg v where av: "av = (alg, v)" by (cases av)
  have n: "map_of reg alg = None" and r: "add_verifiers (reg @ [(alg, v)]) extra = Inr vs"
    using Cons.prems by (auto simp: av split: if_splits)
  from Cons.IH [OF r] show ?case using n by (auto simp: av map_add_def split: option.splits)
qed simp

text \<open>
  Extending the registry of schemes never replaces one: the built-in schemes keep their
  verifiers, every extra verifier is registered, and a clash is refused.
\<close>

theorem schemes_not_replaced:
  "case verifier_registry C extra of
     Inl e \<Rightarrow> e = UnsupportedSignatureSchemeError
   | Inr vs \<Rightarrow> map_of vs algorithm_ed25519 = Some (ed25519_verify C)
       \<and> map_of vs algorithm_ecdsa_p256_sha256 = Some (ecdsa_p256_verify C)
       \<and> (\<forall>(alg, v) \<in> set extra. map_of vs alg = Some v)"
proof (cases "verifier_registry C extra")
  case (Inl e)
  have "add_verifiers reg extra = Inl e \<Longrightarrow> e = UnsupportedSignatureSchemeError" for reg
    by (induction reg extra rule: add_verifiers.induct) (auto split: if_splits)
  then show ?thesis using Inl by (simp add: verifier_registry_def)
next
  case (Inr vs)
  then show ?thesis
    using add_verifiers_keeps [of "default_verifiers C" extra vs]
    by (auto simp: verifier_registry_def default_verifiers_def algorithm_ed25519_def algorithm_ecdsa_p256_sha256_def)
qed

end
