(* ===== verification/Scanning.thy ===== *)
theory Scanning
  imports Signing
begin

text \<open>
  The scanners (\<open>scanning/\<close>): the walk that skips and reports links, the three built-in
  scanners, and the runner that isolates each scanner and binds the report to a digest.

  A finding's prose is a constructor with its variable parts (\<open>scan_message\<close>, which decides the
  remediation text too); its fresh id and timestamp are left out.  A scan reads a snapshot of the
  artifact: the node its path names.
\<close>

section \<open>Findings and reports\<close>

datatype finding_severity = INFO | LOW | MEDIUM | HIGH | CRITICAL

fun severity_rank :: "finding_severity \<Rightarrow> nat" where
  "severity_rank INFO = 0"
| "severity_rank LOW = 1"
| "severity_rank MEDIUM = 2"
| "severity_rank HIGH = 3"
| "severity_rank CRITICAL = 4"

datatype confidence = LowConfidence | MediumConfidence | HighConfidence

datatype scan_message =
    Skipped string
  | SecretMatched string
  | PickleExtension string
  | PickleHeader
  | NoLicenseDeclared
  | NoParentModel
  | ManifestMissing "string list"

record finding =
  fi_scanner :: string
  fi_category :: string
  fi_severity :: finding_severity
  fi_confidence :: confidence
  fi_component :: string
  fi_message :: scan_message
  fi_evidence :: "string option"

record scan_report =
  sr_artifact_digest :: string
  sr_statuses :: "string dict"
  sr_errors :: "exn dict"
  sr_findings :: "finding list"

definition all_scanners_ok :: "scan_report \<Rightarrow> bool" where
  "all_scanners_ok r = list_all (\<lambda>(_, st). st = ''ok'') (sr_statuses r)"

definition report_clean :: "scan_report \<Rightarrow> bool" where
  "report_clean r = (all_scanners_ok r \<and> length (sr_findings r) = 0)"

definition count_severity :: "scan_report \<Rightarrow> finding_severity \<Rightarrow> int" where
  "count_severity r sev = int (length (filter (\<lambda>f. fi_severity f = sev) (sr_findings r)))"

section \<open>The walk\<close>

text \<open>\<open>ScannableFile\<close>, with the node its absolute path names.\<close>

record scannable_file =
  sf_node :: fs_node
  sf_relative_path :: string

definition skip_finding :: "string \<Rightarrow> string \<Rightarrow> string \<Rightarrow> finding" where
  "skip_finding scanner path reason =
     \<lparr>fi_scanner = scanner, fi_category = ''scan_skipped'', fi_severity = LOW, fi_confidence = HighConfidence,
      fi_component = path, fi_message = Skipped reason, fi_evidence = None\<rparr>"

definition walk_file :: "string list \<Rightarrow> string \<Rightarrow> string list \<Rightarrow> string \<times> fs_node \<Rightarrow> finding + scannable_file" where
  "walk_file root scanner rel entry =
     (case entry of (fname, nd) \<Rightarrow>
        let file_path = root @ rel @ [fname]
        in if is_symlink nd then Inl (skip_finding scanner (path_str file_path) ''symlinked file'')
           else (case relative_to file_path root of
               None \<Rightarrow> Inl (skip_finding scanner (path_str file_path) ''resolves outside artifact root'')
             | Some relative \<Rightarrow> Inr \<lparr>sf_node = nd, sf_relative_path = as_posix relative\<rparr>))"

definition walk_dir :: "string list \<Rightarrow> string \<Rightarrow> walked \<Rightarrow> (finding + scannable_file) list" where
  "walk_dir root scanner w =
     (case w of (rel, dirs, files) \<Rightarrow>
        map (\<lambda>(dname, nd). Inl (skip_finding scanner (path_str (root @ rel @ [dname])) ''symlinked directory''))
          (filter (\<lambda>(dname, nd). is_symlink nd) dirs)
        @ map (walk_file root scanner rel) files)"

definition iter_scannable_files ::
    "string list \<Rightarrow> fs_node option \<Rightarrow> string \<Rightarrow> (finding + scannable_file) list" where
  "iter_scannable_files root nd scanner =
     (if path_is_symlink nd then [Inl (skip_finding scanner (path_str root) ''artifact root is a symlink'')]
      else if path_is_file nd then [Inr \<lparr>sf_node = the nd, sf_relative_path = path_name root\<rparr>]
      else if \<not> path_is_dir nd then []
      else concat (map (walk_dir root scanner) (os_walk [] (the nd))))"

text \<open>The loop both file scanners run over the walk.\<close>

definition scan_items :: "(scannable_file \<Rightarrow> finding list) \<Rightarrow> (finding + scannable_file) list \<Rightarrow> finding list" where
  "scan_items scan_file items = concat (map (\<lambda>item. case item of Inl f \<Rightarrow> [f] | Inr file \<Rightarrow> scan_file file) items)"

section \<open>Unsafe serialization\<close>

definition pickle_extensions :: "string list" where
  "pickle_extensions = [''.pkl'', ''.pickle'', ''.pt'', ''.pth'', ''.ckpt'', ''.joblib'', ''.dill'']"

definition pickle_proto_opcode :: nat where "pickle_proto_opcode = 0x80"
definition max_known_pickle_protocol :: nat where "max_known_pickle_protocol = 5"
definition sniff_bytes :: nat where "sniff_bytes = 8"

text \<open>\<open>Path(p).suffix\<close> as \<open>pathlib\<close> has it up to Python 3.13: from the last dot of the name,
  unless that is its first or its last character.\<close>

definition path_suffix :: "string \<Rightarrow> string" where
  "path_suffix p =
     (let name = last (split_on (CHR ''/'') p);
          ext = rev (takeWhile (\<lambda>c. c \<noteq> CHR ''.'') (rev name));
          stem = rev (tl (dropWhile (\<lambda>c. c \<noteq> CHR ''.'') (rev name)))
      in if CHR ''.'' \<in> set name \<and> stem \<noteq> [] \<and> ext \<noteq> [] then CHR ''.'' # ext else [])"

definition looks_like_pickle_header :: "bytes \<Rightarrow> bool" where
  "looks_like_pickle_header p =
     (length p \<ge> 2 \<and> ord (p ! 0) = pickle_proto_opcode \<and> ord (p ! 1) \<le> max_known_pickle_protocol)"

definition unsafe_name :: string where "unsafe_name = ''unsafe_serialization''"

definition unsafe_finding ::
    "finding_severity \<Rightarrow> confidence \<Rightarrow> string \<Rightarrow> scan_message \<Rightarrow> string \<Rightarrow> finding" where
  "unsafe_finding sev conf component msg evidence =
     \<lparr>fi_scanner = unsafe_name, fi_category = ''unsafe_deserialization'', fi_severity = sev, fi_confidence = conf,
      fi_component = component, fi_message = msg, fi_evidence = Some evidence\<rparr>"

definition unsafe_scan_file :: "scannable_file \<Rightarrow> finding list" where
  "unsafe_scan_file file =
     (let extension = py_lower (path_suffix (sf_relative_path file))
      in if extension \<in> set pickle_extensions
         then [unsafe_finding HIGH HighConfidence (sf_relative_path file) (PickleExtension extension) (''extension='' @ extension)]
         else (case read_node (sf_node file) of
             Inl e \<Rightarrow> []
           | Inr content \<Rightarrow>
               (let prefix = take sniff_bytes content
                in if looks_like_pickle_header prefix
                   then [unsafe_finding MEDIUM MediumConfidence (sf_relative_path file) PickleHeader
                           (''header_bytes='' @ to_hex (take 2 prefix))]
                   else [])))"

definition unsafe_scan ::
    "string list \<Rightarrow> fs_node option \<Rightarrow> manifest option \<Rightarrow> mlbom option \<Rightarrow> exn + finding list" where
  "unsafe_scan path nd manifest mbom = Inr (scan_items unsafe_scan_file (iter_scannable_files path nd unsafe_name))"

section \<open>Regular expressions\<close>

text \<open>
  The fragment of \<open>re\<close> the secret patterns use.  Text is a list of code points; a position is the
  code point before it and the text after it, and \<open>match_ends\<close> lists the positions at which a match begun
  at a position can end.  \<open>word\<close> says which code points beyond ASCII are alphanumeric.
\<close>

type_synonym position = "nat option \<times> nat list"

datatype regex =
    Empty
  | Class "(nat \<times> nat) list"
  | Boundary
  | Seq regex regex
  | Alt regex regex

definition in_class :: "(nat \<times> nat) list \<Rightarrow> nat \<Rightarrow> bool" where
  "in_class rs c = list_ex (\<lambda>(lo, hi). lo \<le> c \<and> c \<le> hi) rs"

definition is_word :: "(nat \<Rightarrow> bool) \<Rightarrow> nat option \<Rightarrow> bool" where
  "is_word word c =
     (case c of None \<Rightarrow> False | Some n \<Rightarrow> if n < 128 then in_class [(48, 57), (65, 90), (95, 95), (97, 122)] n else word n)"

definition head :: "nat list \<Rightarrow> nat option" where
  "head cs = (case cs of [] \<Rightarrow> None | c # _ \<Rightarrow> Some c)"

fun match_ends :: "(nat \<Rightarrow> bool) \<Rightarrow> regex \<Rightarrow> position \<Rightarrow> position list" where
  "match_ends word Empty p = [p]"
| "match_ends word (Class rs) (prev, rest) =
     (case rest of [] \<Rightarrow> [] | c # cs \<Rightarrow> if in_class rs c then [(Some c, cs)] else [])"
| "match_ends word Boundary (prev, rest) = (if is_word word prev \<noteq> is_word word (head rest) then [(prev, rest)] else [])"
| "match_ends word (Seq a b) p = concat (map (match_ends word b) (match_ends word a p))"
| "match_ends word (Alt a b) p = match_ends word a p @ match_ends word b p"

text \<open>A literal, \<open>r{n}\<close> and \<open>r{m,n}\<close>.\<close>

definition lit :: "string \<Rightarrow> regex" where
  "lit s = foldr (\<lambda>c. Seq (Class [(ord c, ord c)])) s Empty"

fun times :: "nat \<Rightarrow> regex \<Rightarrow> regex" where
  "times 0 r = Empty"
| "times (Suc n) r = Seq r (times n r)"

fun up_to :: "nat \<Rightarrow> regex \<Rightarrow> regex" where
  "up_to 0 r = Empty"
| "up_to (Suc n) r = Alt (Seq r (up_to n r)) Empty"

text \<open>\<open>pattern.search(text) is not None\<close>.\<close>

fun positions :: "nat option \<Rightarrow> nat list \<Rightarrow> position list" where
  "positions prev [] = [(prev, [])]"
| "positions prev (c # cs) = (prev, c # cs) # positions (Some c) cs"

definition search :: "(nat \<Rightarrow> bool) \<Rightarrow> regex \<Rightarrow> nat list \<Rightarrow> bool" where
  "search word r t = list_ex (\<lambda>p. match_ends word r p \<noteq> []) (positions None t)"

section \<open>Secrets\<close>

definition max_file_size :: nat where "max_file_size = 2 * 1024 * 1024"
definition binary_sniff_size :: nat where "binary_sniff_size = 1024"

definition upper_digit :: "(nat \<times> nat) list" where "upper_digit = [(48, 57), (65, 90)]"
definition alphanumeric :: "(nat \<times> nat) list" where "alphanumeric = [(65, 90), (97, 122), (48, 57)]"

text \<open>The characters of \<open>s\<close> as a class.\<close>

definition one_of :: "string \<Rightarrow> regex" where
  "one_of s = Class (map (\<lambda>c. (ord c, ord c)) s)"

definition aws_pattern :: regex where
  "aws_pattern = Seq Boundary (Seq (lit ''AKIA'') (Seq (times 16 (Class upper_digit)) Boundary))"

definition key_kinds :: "string list" where
  "key_kinds = [''RSA '', ''EC '', ''OPENSSH '', ''DSA '', ''ENCRYPTED '']"

definition pem_pattern :: regex where
  "pem_pattern =
     Seq (lit ''-----BEGIN '') (Seq (foldr (\<lambda>k. Alt (lit k)) key_kinds Empty) (lit ''PRIVATE KEY-----''))"

definition github_kinds :: string where "github_kinds = ''pousr''"

definition github_pattern :: regex where
  "github_pattern =
     Seq Boundary (Seq (lit ''gh'') (Seq (one_of github_kinds) (Seq (lit ''_'') (Seq (times 36 (Class alphanumeric)) Boundary))))"

definition slack_pattern :: regex where
  "slack_pattern =
     Seq Boundary (Seq (lit ''xox'') (Seq (one_of ''abposr'') (Seq (lit ''-'')
       (Seq (Seq (times 10 (Class (alphanumeric @ [(45, 45)]))) (up_to 62 (Class (alphanumeric @ [(45, 45)])))) Boundary))))"

definition secret_patterns :: "(string \<times> regex \<times> finding_severity) list" where
  "secret_patterns =
     [(''aws_access_key_id'', aws_pattern, CRITICAL),
      (''pem_private_key'', pem_pattern, CRITICAL),
      (''github_pat'', github_pattern, HIGH),
      (''slack_token'', slack_pattern, HIGH)]"

text \<open>\<open>bytes.decode("utf-8")\<close> onto code points: shortest forms only, no surrogates, up to U+10FFFF.\<close>

definition continuation :: "char \<Rightarrow> bool" where
  "continuation c \<longleftrightarrow> 128 \<le> ord c \<and> ord c < 192"

definition low6 :: "char \<Rightarrow> nat" where "low6 c = ord c - 128"

fun decode_utf8 :: "bytes \<Rightarrow> nat list option" where
  "decode_utf8 [] = Some []"
| "decode_utf8 (b # bs) =
     (if ord b < 128 then map_option (Cons (ord b)) (decode_utf8 bs)
      else (case bs of
          [] \<Rightarrow> None
        | c # cs \<Rightarrow>
            if \<not> continuation c then None
            else if 194 \<le> ord b \<and> ord b < 224 then map_option (Cons ((ord b - 192) * 64 + low6 c)) (decode_utf8 cs)
            else (case cs of
                [] \<Rightarrow> None
              | d # ds \<Rightarrow>
                  if \<not> continuation d then None
                  else if 224 \<le> ord b \<and> ord b < 240 then
                    (let n = ((ord b - 224) * 64 + low6 c) * 64 + low6 d
                     in if n < 2048 \<or> (55296 \<le> n \<and> n < 57344) then None else map_option (Cons n) (decode_utf8 ds))
                  else (case ds of
                      [] \<Rightarrow> None
                    | e # es \<Rightarrow>
                        if \<not> continuation e \<or> ord b < 240 then None
                        else (let n = (((ord b - 240) * 64 + low6 c) * 64 + low6 d) * 64 + low6 e
                              in if n < 65536 \<or> 1114112 \<le> n then None else map_option (Cons n) (decode_utf8 es))))))"

definition looks_binary :: "bytes \<Rightarrow> bool" where
  "looks_binary p \<longleftrightarrow> chr 0 \<in> set p"

definition secrets_name :: string where "secrets_name = ''secrets''"

definition secret_finding :: "string \<Rightarrow> finding_severity \<Rightarrow> string \<Rightarrow> finding" where
  "secret_finding category sev component =
     \<lparr>fi_scanner = secrets_name, fi_category = category, fi_severity = sev, fi_confidence = HighConfidence,
      fi_component = component, fi_message = SecretMatched category, fi_evidence = Some (''pattern='' @ category)\<rparr>"

text \<open>The size \<open>stat\<close> reports of a file that cannot be read does not matter: reading it fails next.\<close>

definition secrets_scan_file :: "(nat \<Rightarrow> bool) \<Rightarrow> scannable_file \<Rightarrow> finding list" where
  "secrets_scan_file word file =
     (case read_node (sf_node file) of
        Inl e \<Rightarrow> []
      | Inr raw \<Rightarrow>
          if length raw > max_file_size then []
          else if looks_binary (take binary_sniff_size raw) then []
          else (case decode_utf8 raw of
              None \<Rightarrow> []
            | Some t \<Rightarrow>
                map (\<lambda>(category, pattern, sev). secret_finding category sev (sf_relative_path file))
                  (filter (\<lambda>(category, pattern, sev). search word pattern t) secret_patterns)))"

definition secrets_scan ::
    "(nat \<Rightarrow> bool) \<Rightarrow> string list \<Rightarrow> fs_node option \<Rightarrow> manifest option \<Rightarrow> mlbom option \<Rightarrow> exn + finding list" where
  "secrets_scan word path nd manifest mbom =
     Inr (scan_items (secrets_scan_file word) (iter_scannable_files path nd secrets_name))"

section \<open>Metadata\<close>

definition metadata_name :: string where "metadata_name = ''metadata_completeness''"

definition metadata_finding :: "finding_severity \<Rightarrow> string \<Rightarrow> scan_message \<Rightarrow> finding" where
  "metadata_finding sev component msg =
     \<lparr>fi_scanner = metadata_name, fi_category = ''missing_metadata'', fi_severity = sev, fi_confidence = HighConfidence,
      fi_component = component, fi_message = msg, fi_evidence = None\<rparr>"

definition missing_names :: "manifest option \<Rightarrow> string list" where
  "missing_names manifest =
     map fst (filter (\<lambda>(n, present). \<not> present)
       [(''model_id'', truthy (Option.bind manifest m_model_id)), (''version'', truthy (Option.bind manifest m_version))])"

definition metadata_scan ::
    "string list \<Rightarrow> fs_node option \<Rightarrow> manifest option \<Rightarrow> mlbom option \<Rightarrow> exn + finding list" where
  "metadata_scan path nd manifest mbom =
     (if manifest = None \<and> mbom = None then Inr []
      else
        let has_license = truthy (Option.bind manifest m_license)
              \<or> Option.bind mbom (\<lambda>b. mp_license (b_modelguard b)) \<noteq> None;
            has_lineage = (case mbom of None \<Rightarrow> False | Some b \<Rightarrow> mp_parent_models (b_modelguard b) \<noteq> []);
            missing = missing_names manifest
        in Inr ((if has_license then [] else [metadata_finding LOW ''license'' NoLicenseDeclared])
              @ (if has_lineage then [] else [metadata_finding INFO ''parent_models'' NoParentModel])
              @ (if missing = [] then [] else [metadata_finding LOW (join ''/'' missing) (ManifestMissing missing)])))"

section \<open>The runner\<close>

text \<open>
  The protocol: a name, and a scan that may raise.  \<open>except Exception\<close> catches every modelled
  exception (\<open>catches_Exception\<close>); the report keeps the exception itself for \<open>str(exc)\<close>.
\<close>

type_synonym scanner =
  "string \<times> (string list \<Rightarrow> fs_node option \<Rightarrow> manifest option \<Rightarrow> mlbom option \<Rightarrow> exn + finding list)"

definition default_scanners :: "(nat \<Rightarrow> bool) \<Rightarrow> scanner list" where
  "default_scanners word =
     [(unsafe_name, unsafe_scan), (secrets_name, secrets_scan word), (metadata_name, metadata_scan)]"

fun run_loop ::
    "(scanner \<Rightarrow> exn + finding list) \<Rightarrow> scanner list \<Rightarrow> string dict \<times> exn dict \<times> finding list
       \<Rightarrow> string dict \<times> exn dict \<times> finding list" where
  "run_loop scan [] acc = acc"
| "run_loop scan (s # ss) (statuses, errors, findings) =
     run_loop scan ss
       (case scan s of
          Inl e \<Rightarrow> (AList.update (fst s) ''error'' statuses, AList.update (fst s) e errors, findings)
        | Inr fs \<Rightarrow> (AList.update (fst s) ''ok'' statuses, errors, findings @ fs))"

definition run_scanners ::
    "(bytes \<Rightarrow> string) \<Rightarrow> (nat \<Rightarrow> bool) \<Rightarrow> string list \<Rightarrow> fs_node option \<Rightarrow> manifest option \<Rightarrow> mlbom option
       \<Rightarrow> scanner list option \<Rightarrow> string option \<Rightarrow> exn + scan_report" where
  "run_scanners H word path nd manifest mbom scanners artifact_digest =
     (let active = (case scanners of None \<Rightarrow> default_scanners word | Some ss \<Rightarrow> ss)
      in case (case artifact_digest of
                 Some d \<Rightarrow> Inr d
               | None \<Rightarrow> (case hash_artifact H path nd of Inl e \<Rightarrow> Inl e | Inr d \<Rightarrow> Inr (digest_ref d))) of
           Inl e \<Rightarrow> Inl e
         | Inr d \<Rightarrow>
             (case run_loop (\<lambda>s. snd s path nd manifest mbom) active ([], [], []) of
                (statuses, errors, findings) \<Rightarrow>
                  Inr \<lparr>sr_artifact_digest = d, sr_statuses = statuses, sr_errors = errors, sr_findings = findings\<rparr>))"

section \<open>What is scanned\<close>

text \<open>The component a finding names: the file's path in the artifact, a single file's own name.\<close>

definition component_name :: "string list \<Rightarrow> string list \<Rightarrow> string" where
  "component_name root q = (if q = [] then path_name root else as_posix q)"

lemma contents_walked:
  assumes "(q, b) \<in> set (contents p nd)" and "is_dir_node (Some nd)"
  shows "\<exists>rel dirs files n. (rel, dirs, files) \<in> set (os_walk p nd) \<and> (n, FFile b) \<in> set files \<and> q = rel @ [n]"
  using assms
proof (induction p nd rule: os_walk.induct)
  case (1 p es)
  then obtain n nd where e: "(n, nd) \<in> set es" "(q, b) \<in> set (contents (p @ [n]) nd)" by auto
  show ?case
  proof (cases "is_dir_node (Some nd)")
    case True
    then obtain rel dirs files m where "(rel, dirs, files) \<in> set (os_walk (p @ [n]) nd)"
        "(m, FFile b) \<in> set files" "q = rel @ [m]"
      using 1 e by blast
    moreover from this(1) have "(rel, dirs, files) \<in> set (os_walk p (FDir True es))" using e(1) by force
    ultimately show ?thesis by blast
  next
    case False
    then have "nd = FFile b" "q = p @ [n]" using e(2) by (cases nd; auto)+
    moreover have "(p, filter is_dir_entry es, filter (\<lambda>e. \<not> is_dir_entry e) es) \<in> set (os_walk p (FDir True es))"
      by simp
    moreover have "(n, nd) \<in> set (filter (\<lambda>e. \<not> is_dir_entry e) es)" using e(1) calculation(1) by simp
    ultimately show ?thesis by blast
  qed
qed auto

lemma scanned_file:
  assumes "(q, b) \<in> set (contents [] n)" and "\<not> is_symlink n"
  shows "Inr \<lparr>sf_node = FFile b, sf_relative_path = component_name root q\<rparr>
           \<in> set (iter_scannable_files root (Some n) scanner)"
proof (cases n)
  case (FFile c)
  then show ?thesis using assms
    by (simp add: iter_scannable_files_def path_is_symlink_def path_is_file_def component_name_def)
next
  case (FDir l es)
  then obtain rel dirs files m where w: "(rel, dirs, files) \<in> set (os_walk [] n)" "(m, FFile b) \<in> set files" "q = rel @ [m]"
    using contents_walked [OF assms(1)] by auto
  have "Inr \<lparr>sf_node = FFile b, sf_relative_path = as_posix q\<rparr> = walk_file root scanner rel (m, FFile b)"
    using relative_to_append [of root "rel @ [m]"] w(3) by (simp add: walk_file_def Let_def)
  then have "Inr \<lparr>sf_node = FFile b, sf_relative_path = as_posix q\<rparr> \<in> set (walk_dir root scanner (rel, dirs, files))"
    using w(2) unfolding walk_dir_def by (auto simp: image_iff)
  then show ?thesis using w(1,3) FDir
    by (auto simp: iter_scannable_files_def path_is_symlink_def path_is_file_def path_is_dir_def component_name_def)
qed (use assms in auto)

lemma scan_items_file: "Inr file \<in> set items \<Longrightarrow> f \<in> set (scan_file file) \<Longrightarrow> f \<in> set (scan_items scan_file items)"
  by (force simp: scan_items_def)

section \<open>The runner's report\<close>

lemma run_loop_snd_snd:
  "snd (snd (run_loop scan ss (st, er, fs))) = fs @ concat (map (\<lambda>s. case scan s of Inl _ \<Rightarrow> [] | Inr f \<Rightarrow> f) ss)"
  by (induction ss arbitrary: st er fs) (auto split: sum.splits)

lemma run_loop_cong: "(\<And>s. s \<in> set ss \<Longrightarrow> f s = g s) \<Longrightarrow> run_loop f ss acc = run_loop g ss acc"
proof (induction ss arbitrary: acc)
  case (Cons s ss)
  then show ?case by (cases acc) simp
qed simp

lemma run_loop_other:
  "n \<notin> fst ` set ss \<Longrightarrow> map_of (fst (run_loop scan ss (st, er, fs))) n = map_of st n"
  by (induction ss arbitrary: st er fs) (auto split: sum.splits)

lemma run_loop_status:
  "distinct (map fst ss) \<Longrightarrow> s \<in> set ss \<Longrightarrow>
     map_of (fst (run_loop scan ss (st, er, fs))) (fst s) = Some (if is_ok (scan s) then ''ok'' else ''error'')"
  by (induction ss arbitrary: st er fs) (auto simp: run_loop_other is_ok_def split: sum.splits)

lemma run_loop_keys:
  "fst ` set (fst (run_loop scan ss (st, er, fs))) = fst ` set ss \<union> fst ` set st"
  by (induction ss arbitrary: st er fs) (auto simp: dict_keys_update split: sum.splits)

lemma run_loop_distinct:
  "distinct (map fst st) \<Longrightarrow> distinct (map fst (fst (run_loop scan ss (st, er, fs))))"
  by (induction ss arbitrary: st er fs) (auto simp: distinct_update split: sum.splits)

lemma run_scanners_InrD:
  assumes "run_scanners H word path nd m b ss d = Inr report"
  shows "sr_statuses report = fst (run_loop (\<lambda>s. snd s path nd m b) (case ss of None \<Rightarrow> default_scanners word | Some xs \<Rightarrow> xs) ([], [], []))"
    and "sr_findings report = concat (map (\<lambda>s. case snd s path nd m b of Inl _ \<Rightarrow> [] | Inr f \<Rightarrow> f)
           (case ss of None \<Rightarrow> default_scanners word | Some xs \<Rightarrow> xs))"
  using assms run_loop_snd_snd [of "\<lambda>s. snd s path nd m b" "case ss of None \<Rightarrow> default_scanners word | Some xs \<Rightarrow> xs" "[]" "[]" "[]"]
  by (auto simp: run_scanners_def split: sum.splits prod.splits)

lemma results_Nil:
  "(\<forall>s \<in> set ss. is_ok (f s)) \<and> concat (map (\<lambda>s. case f s of Inl _ \<Rightarrow> [] | Inr fs \<Rightarrow> fs) ss) = []
     \<longleftrightarrow> (\<forall>s \<in> set ss. f s = Inr [])"
proof (induction ss)
  case (Cons s ss)
  then show ?case by (cases "f s") auto
qed simp

text \<open>
  A scanner that raises is visible and harms no other.  With distinct names, every scanner's
  status says whether it finished, the findings are those of the scanners that did, in order, and
  the report is clean exactly when every scanner finished and found nothing.
\<close>

theorem scanner_failures_isolated:
  assumes "run_scanners H word path nd m b (Some ss) d = Inr report" and "distinct (map fst ss)"
  shows "(\<forall>s \<in> set ss. map_of (sr_statuses report) (fst s) = Some (if is_ok (snd s path nd m b) then ''ok'' else ''error''))
    \<and> sr_findings report = concat (map (\<lambda>s. case snd s path nd m b of Inl _ \<Rightarrow> [] | Inr fs \<Rightarrow> fs) ss)
    \<and> (all_scanners_ok report \<longleftrightarrow> (\<forall>s \<in> set ss. is_ok (snd s path nd m b)))
    \<and> (report_clean report \<longleftrightarrow> (\<forall>s \<in> set ss. snd s path nd m b = Inr []))"
proof (intro conjI)
  let ?run = "run_loop (\<lambda>s. snd s path nd m b) ss ([], [], [])"
  have st: "sr_statuses report = fst ?run" using run_scanners_InrD(1) [OF assms(1)] by simp
  show 1: "\<forall>s \<in> set ss. map_of (sr_statuses report) (fst s) = Some (if is_ok (snd s path nd m b) then ''ok'' else ''error'')"
    using run_loop_status [OF assms(2)] st by simp
  show 2: "sr_findings report = concat (map (\<lambda>s. case snd s path nd m b of Inl _ \<Rightarrow> [] | Inr fs \<Rightarrow> fs) ss)"
    using run_scanners_InrD(2) [OF assms(1)] by simp
  have d: "distinct (map fst (fst ?run))" by (rule run_loop_distinct) simp
  have k: "fst ` set (fst ?run) = fst ` set ss" using run_loop_keys [of _ ss "[]" "[]" "[]"] by simp
  show 3: "all_scanners_ok report \<longleftrightarrow> (\<forall>s \<in> set ss. is_ok (snd s path nd m b))"
  proof
    assume ok: "all_scanners_ok report"
    show "\<forall>s \<in> set ss. is_ok (snd s path nd m b)"
    proof
      fix s assume "s \<in> set ss"
      then have "map_of (sr_statuses report) (fst s) = Some (if is_ok (snd s path nd m b) then ''ok'' else ''error'')"
        using 1 by blast
      then have "(fst s, if is_ok (snd s path nd m b) then ''ok'' else ''error'') \<in> set (sr_statuses report)"
        by (rule map_of_SomeD)
      then have "(if is_ok (snd s path nd m b) then ''ok'' else ''error'') = ''ok''"
        using ok unfolding all_scanners_ok_def list_all_iff by blast
      then show "is_ok (snd s path nd m b)" by (rule contrapos_pp) simp
    qed
  next
    assume ok: "\<forall>s \<in> set ss. is_ok (snd s path nd m b)"
    have "x = ''ok''" if "(n, x) \<in> set (fst ?run)" for n x
    proof -
      have "n \<in> fst ` set ss" using imageI [OF that, of fst] unfolding k by simp
      then obtain s where s: "s \<in> set ss" "n = fst s" by blast
      then have "map_of (fst ?run) n = Some (if is_ok (snd s path nd m b) then ''ok'' else ''error'')"
        using bspec [OF 1 s(1)] st by simp
      then show ?thesis using map_of_is_SomeI [OF d that] bspec [OF ok s(1)] by simp
    qed
    then show "all_scanners_ok report" by (auto simp: all_scanners_ok_def list_all_iff st)
  qed
  show "report_clean report \<longleftrightarrow> (\<forall>s \<in> set ss. snd s path nd m b = Inr [])"
    unfolding report_clean_def 3 2 length_0_conv by (rule results_Nil)
qed

theorem scanner_failures_isolated_witness:
  "report_clean \<lparr>sr_artifact_digest = ''d'', sr_statuses = [(''a'', ''error''), (''b'', ''ok'')], sr_errors = [(''a'', OSError)], sr_findings = []\<rparr>
     \<longleftrightarrow> (\<forall>s \<in> set [(''a'', \<lambda>_ _ _ _. Inl OSError), (''b'', \<lambda>_ _ _ _. Inr [])]. snd s [] None None None = Inr [])"
  using scanner_failures_isolated [of "\<lambda>b. b" "\<lambda>_. False" "[]" None None None
      "[(''a'', \<lambda>_ _ _ _. Inl OSError), (''b'', \<lambda>_ _ _ _. Inr [])]" "Some ''d''"]
  by (simp add: run_scanners_def)

text \<open>With a repeated name the last run decides: a crash disappears behind it.\<close>

lemma repeated_name_hides_crash:
  assumes "f path nd m b = Inl e" and "g path nd m b = Inr []"
    and "run_scanners H word path nd m b (Some [(n, f), (n, g)]) (Some d) = Inr report"
  shows "report_clean report"
  using assms by (auto simp: run_scanners_def report_clean_def all_scanners_ok_def)

lemma run_scanners_with_digest: "\<exists>r. run_scanners H word root nd m b ss (Some d) = Inr r"
  by (auto simp: run_scanners_def split: prod.splits)

text \<open>What a built-in scanner finds is in the report.\<close>

lemma default_scan_reported:
  assumes "run_scanners H word root nd m b None d = Inr report"
    and "(name, scan) \<in> set (default_scanners word)" and "scan root nd m b = Inr fs" and "f \<in> set fs"
  shows "f \<in> set (sr_findings report)"
proof -
  have "f \<in> set (case snd (name, scan) root nd m b of Inl _ \<Rightarrow> [] | Inr g \<Rightarrow> g)" using assms(3,4) by simp
  then show ?thesis
    unfolding run_scanners_InrD(2) [OF assms(1)] option.case set_concat set_map by (blast intro: assms(2))
qed

lemma reported_unclean:
  "f \<in> set (sr_findings report) \<Longrightarrow> \<not> report_clean report \<and> 0 < count_severity report (fi_severity f)"
proof -
  assume f: "f \<in> set (sr_findings report)"
  then have "filter (\<lambda>g. fi_severity g = fi_severity f) (sr_findings report) \<noteq> []" by (auto simp: filter_empty_conv)
  with f show ?thesis by (auto simp: report_clean_def count_severity_def)
qed

section \<open>Pickle files\<close>

lemma pickle_reported:
  assumes "run_scanners H word root (Some n) m b None d = Inr report"
    and "(q, content) \<in> set (contents [] n)" and "\<not> is_symlink n"
    and "sev = (if py_lower (path_suffix (component_name root q)) \<in> set pickle_extensions then HIGH else MEDIUM)"
    and "sev = HIGH \<or> looks_like_pickle_header (take 8 content)"
  shows "(\<exists>f \<in> set (sr_findings report). fi_component f = component_name root q
            \<and> fi_category f = ''unsafe_deserialization'' \<and> fi_severity f = sev)
    \<and> \<not> report_clean report \<and> 0 < count_severity report sev"
proof -
  let ?file = "\<lparr>sf_node = FFile content, sf_relative_path = component_name root q\<rparr>"
  obtain f where f: "f \<in> set (unsafe_scan_file ?file)" "fi_component f = component_name root q"
      "fi_category f = ''unsafe_deserialization''" "fi_severity f = sev"
    using assms(4,5)
    by (cases "py_lower (path_suffix (component_name root q)) \<in> set pickle_extensions")
      (auto simp: unsafe_scan_file_def unsafe_finding_def sniff_bytes_def Let_def)
  have "f \<in> set (scan_items unsafe_scan_file (iter_scannable_files root (Some n) unsafe_name))"
    using scanned_file [OF assms(2,3)] f(1) by (rule scan_items_file [of ?file])
  then have r: "f \<in> set (sr_findings report)"
    by (intro default_scan_reported [OF assms(1), of unsafe_name unsafe_scan])
      (auto simp: default_scanners_def unsafe_scan_def)
  show ?thesis using r f reported_unclean [OF r] by blast
qed

text \<open>
  No pickle escapes the default scan: every file of the artifact, however deep, whose extension
  is a pickle one or whose first bytes are a pickle header is reported under its path, with severity
  HIGH for the extension and MEDIUM for the header alone, and the report is not clean.
\<close>

theorem pickle_files_reported:
  assumes "run_scanners H word root (Some n) m b None d = Inr report"
    and "(q, content) \<in> set (contents [] n)" and "\<not> is_symlink n"
    and "sev = (if py_lower (path_suffix (component_name root q)) \<in> set pickle_extensions then HIGH else MEDIUM)"
    and "sev = HIGH \<or> looks_like_pickle_header (take 8 content)"
  shows "(\<exists>f \<in> set (sr_findings report). fi_component f = component_name root q
            \<and> fi_category f = ''unsafe_deserialization'' \<and> fi_severity f = sev)
    \<and> \<not> report_clean report \<and> 0 < count_severity report sev"
  using pickle_reported [OF assms] .

definition sample_artifact :: fs_node where
  "sample_artifact = FDir True [(''w'', FDir True [(''m.PKL'', FFile ''x'')])]"

theorem pickle_files_reported_witness:
  "0 < count_severity (case run_scanners (\<lambda>b. b) (\<lambda>_. False) [''a''] (Some sample_artifact) None None None (Some ''d'') of
        Inr r \<Rightarrow> r) HIGH"
proof -
  obtain r where r: "run_scanners (\<lambda>b. b) (\<lambda>_. False) [''a''] (Some sample_artifact) None None None (Some ''d'') = Inr r"
    using run_scanners_with_digest by blast
  have x: "HIGH = (if py_lower (path_suffix (component_name [''a''] [''w'', ''m.PKL''])) \<in> set pickle_extensions then HIGH else MEDIUM)"
    by code_simp
  have "(''w'' # [''m.PKL''], ''x'') \<in> set (contents [] sample_artifact)" by (simp add: sample_artifact_def)
  from pickle_files_reported [OF r this _ x] show ?thesis using r by (simp add: sample_artifact_def)
qed

section \<open>Credentials\<close>

text \<open>The position after reading \<open>xs\<close>, and what each construct matches.\<close>

definition advance :: "nat option \<Rightarrow> nat list \<Rightarrow> nat option" where
  "advance prev xs = (if xs = [] then prev else Some (last xs))"

lemma advance_simps [simp]: "advance prev [] = prev" "advance prev (c # xs) = advance (Some c) xs"
  by (simp_all add: advance_def)

lemma advance_append [simp]: "advance (advance prev xs) ys = advance prev (xs @ ys)"
  by (simp add: advance_def)

lemma match_ends_Seq_iff: "p' \<in> set (match_ends word (Seq a b) p) \<longleftrightarrow> (\<exists>q \<in> set (match_ends word a p). p' \<in> set (match_ends word b q))"
  by simp

lemma match_ends_Boundary_iff:
  "p' \<in> set (match_ends word Boundary (prev, rest)) \<longleftrightarrow> is_word word prev \<noteq> is_word word (head rest) \<and> p' = (prev, rest)"
  by auto

lemma match_ends_Class_iff:
  "p' \<in> set (match_ends word (Class rs) (prev, rest)) \<longleftrightarrow> (\<exists>c r. rest = c # r \<and> in_class rs c \<and> p' = (Some c, r))"
  by (cases rest) auto

lemma match_ends_lit_iff:
  "p' \<in> set (match_ends word (lit s) (prev, rest)) \<longleftrightarrow> (\<exists>r. rest = map ord s @ r \<and> p' = (advance prev (map ord s), r))"
proof (induction s arbitrary: prev rest)
  case (Cons c s)
  have "lit (c # s) = Seq (Class [(ord c, ord c)]) (lit s)" by (simp add: lit_def)
  then show ?case
    by (cases rest) (auto simp del: match_ends.simps simp: match_ends_Seq_iff match_ends_Class_iff Cons.IH in_class_def advance_def)
qed (simp add: lit_def)

lemma match_ends_times_iff:
  "p' \<in> set (match_ends word (times n (Class rs)) (prev, rest)) \<longleftrightarrow>
     (\<exists>xs r. rest = xs @ r \<and> length xs = n \<and> list_all (in_class rs) xs \<and> p' = (advance prev xs, r))"
proof (induction n arbitrary: prev rest)
  case (Suc n)
  have "p' \<in> set (match_ends word (times (Suc n) (Class rs)) (prev, rest)) \<longleftrightarrow>
      (\<exists>c r. rest = c # r \<and> in_class rs c \<and> p' \<in> set (match_ends word (times n (Class rs)) (Some c, r)))"
    unfolding times.simps match_ends_Seq_iff by (metis (no_types, lifting) match_ends_Class_iff)
  also have "\<dots> \<longleftrightarrow> (\<exists>xs r. rest = xs @ r \<and> length xs = Suc n \<and> list_all (in_class rs) xs \<and> p' = (advance prev xs, r))"
    unfolding Suc.IH by (fastforce simp: length_Suc_conv)
  finally show ?case .
qed auto

lemma match_ends_one_of_iff:
  "p' \<in> set (match_ends word (one_of s) (prev, rest)) \<longleftrightarrow> (\<exists>c r. c \<in> set s \<and> rest = ord c # r \<and> p' = (Some (ord c), r))"
  unfolding one_of_def match_ends_Class_iff by (auto simp: in_class_def list_ex_iff)

lemma positions_iff: "p \<in> set (positions prev t) \<longleftrightarrow> (\<exists>xs r. t = xs @ r \<and> p = (advance prev xs, r))"
proof (induction t arbitrary: prev)
  case (Cons c t)
  show ?case by (auto simp: Cons.IH Cons_eq_append_conv)
qed simp

lemma search_iff:
  "search word r t \<longleftrightarrow> (\<exists>pre rest. t = pre @ rest \<and> (\<exists>p. p \<in> set (match_ends word r (advance None pre, rest))))"
proof -
  have "search word r t \<longleftrightarrow> (\<exists>p \<in> set (positions None t). \<exists>p'. p' \<in> set (match_ends word r p))"
    unfolding search_def list_ex_iff by (metis all_not_in_conv set_empty)
  then show ?thesis unfolding Bex_def positions_iff by blast
qed

definition aws_key_in :: "(nat \<Rightarrow> bool) \<Rightarrow> nat list \<Rightarrow> bool" where
  "aws_key_in word t \<longleftrightarrow>
     (\<exists>pre key post. t = pre @ map ord ''AKIA'' @ key @ post \<and> length key = 16 \<and> list_all (in_class upper_digit) key
        \<and> \<not> is_word word (advance None pre) \<and> \<not> is_word word (head post))"

definition github_token_in :: "(nat \<Rightarrow> bool) \<Rightarrow> nat list \<Rightarrow> bool" where
  "github_token_in word t \<longleftrightarrow>
     (\<exists>pre kind key post. t = pre @ map ord (''gh'' @ kind # ''_'') @ key @ post \<and> kind \<in> set github_kinds
        \<and> length key = 36 \<and> list_all (in_class alphanumeric) key
        \<and> \<not> is_word word (advance None pre) \<and> \<not> is_word word (head post))"

definition pem_header_in :: "nat list \<Rightarrow> bool" where
  "pem_header_in t \<longleftrightarrow>
     (\<exists>pre kind post. t = pre @ map ord (''-----BEGIN '' @ kind @ ''PRIVATE KEY-----'') @ post
        \<and> (kind = [] \<or> kind \<in> set key_kinds))"

lemma match_ends_kinds_iff:
  "p' \<in> set (match_ends word (foldr (\<lambda>k. Alt (lit k)) ks Empty) (prev, rest)) \<longleftrightarrow>
     (\<exists>k r. (k = [] \<or> k \<in> set ks) \<and> rest = map ord k @ r \<and> p' = (advance prev (map ord k), r))"
proof (induction ks)
  case (Cons k ks)
  have "p' \<in> set (match_ends word (foldr (\<lambda>k. Alt (lit k)) (k # ks) Empty) (prev, rest)) \<longleftrightarrow>
      p' \<in> set (match_ends word (lit k) (prev, rest)) \<or> p' \<in> set (match_ends word (foldr (\<lambda>k. Alt (lit k)) ks Empty) (prev, rest))"
    by simp
  then show ?case unfolding match_ends_lit_iff Cons.IH by auto
qed auto

lemma is_word_alphanumeric: "in_class upper_digit c \<or> in_class alphanumeric c \<Longrightarrow> is_word word (Some c)"
  by (auto simp: is_word_def in_class_def upper_digit_def alphanumeric_def)

lemma is_word_advance:
  "xs \<noteq> [] \<Longrightarrow> list_all (in_class upper_digit) xs \<or> list_all (in_class alphanumeric) xs \<Longrightarrow> is_word word (advance prev xs)"
  by (auto simp: advance_def list_all_iff intro!: is_word_alphanumeric)

lemma head_literals [simp]:
  "is_word word (head (65 # xs))" "is_word word (head (103 # xs))"
  by (simp_all add: head_def is_word_def in_class_def)

lemma is_word_key:
  "length xs = Suc n \<Longrightarrow> list_all (in_class upper_digit) xs \<or> list_all (in_class alphanumeric) xs \<Longrightarrow>
     is_word word (advance p xs)"
  by (rule is_word_advance) auto

lemmas match_ends_iffs = match_ends_Boundary_iff match_ends_lit_iff match_ends_times_iff match_ends_one_of_iff
  match_ends_kinds_iff Pair_inject

lemma match_ends_aws_iff:
  "(\<exists>p. p \<in> set (match_ends word aws_pattern (prev, rest))) \<longleftrightarrow>
      (\<exists>key post. rest = map ord ''AKIA'' @ key @ post \<and> length key = 16 \<and> list_all (in_class upper_digit) key
         \<and> \<not> is_word word prev \<and> \<not> is_word word (head post))"
  unfolding aws_pattern_def match_ends_Seq_iff Bex_def match_ends_Boundary_iff
  apply (simp only: split_paired_Ex match_ends_iffs)
  using is_word_key [of _ 15] by auto metis

lemma match_ends_github_iff:
  "(\<exists>p. p \<in> set (match_ends word github_pattern (prev, rest))) \<longleftrightarrow>
      (\<exists>kind key post. rest = map ord ''gh'' @ ord kind # map ord ''_'' @ key @ post \<and> kind \<in> set github_kinds
         \<and> length key = 36 \<and> list_all (in_class alphanumeric) key
         \<and> \<not> is_word word prev \<and> \<not> is_word word (head post))"
  unfolding github_pattern_def match_ends_Seq_iff Bex_def match_ends_Boundary_iff
  apply (simp only: split_paired_Ex match_ends_iffs)
  using is_word_key [of _ 35] by auto metis

lemma match_ends_pem_iff:
  "(\<exists>p. p \<in> set (match_ends word pem_pattern (prev, rest))) \<longleftrightarrow>
      (\<exists>kind post. rest = map ord (''-----BEGIN '' @ kind @ ''PRIVATE KEY-----'') @ post \<and> (kind = [] \<or> kind \<in> set key_kinds))"
  unfolding pem_pattern_def match_ends_Seq_iff Bex_def
  apply (simp only: split_paired_Ex match_ends_iffs advance_append)
  by auto

lemma pattern_matches:
  "search word aws_pattern t \<longleftrightarrow> aws_key_in word t"
  "search word github_pattern t \<longleftrightarrow> github_token_in word t"
  "search word pem_pattern t \<longleftrightarrow> pem_header_in t"
proof -
  show "search word aws_pattern t \<longleftrightarrow> aws_key_in word t"
    unfolding search_iff match_ends_aws_iff aws_key_in_def by blast
  show "search word github_pattern t \<longleftrightarrow> github_token_in word t"
    unfolding search_iff match_ends_github_iff github_token_in_def by fastforce
  show "search word pem_pattern t \<longleftrightarrow> pem_header_in t"
    unfolding search_iff match_ends_pem_iff pem_header_in_def by blast
qed


text \<open>
  A leaked credential is reported: a text file of the artifact, at most 2 MiB and with no zero byte
  among the first 1024, that holds an AWS key id or a PEM private key header yields a CRITICAL finding
  under its path, one that holds a GitHub token a HIGH one.
\<close>

theorem credentials_reported:
  assumes "run_scanners H word root (Some n) m b None d = Inr report"
    and "(q, content) \<in> set (contents [] n)" and "\<not> is_symlink n"
    and "length content \<le> max_file_size" and "\<not> looks_binary (take 1024 content)"
    and "decode_utf8 content = Some t"
    and "if sev = CRITICAL then aws_key_in word t \<or> pem_header_in t else sev = HIGH \<and> github_token_in word t"
  shows "(\<exists>f \<in> set (sr_findings report). fi_scanner f = ''secrets'' \<and> fi_component f = component_name root q \<and> fi_severity f = sev)
    \<and> \<not> report_clean report \<and> 0 < count_severity report sev"
proof -
  let ?file = "\<lparr>sf_node = FFile content, sf_relative_path = component_name root q\<rparr>"
  obtain category pattern where p: "(category, pattern, sev) \<in> set secret_patterns" "search word pattern t"
    using assms(7) pattern_matches [of word t]
    by (cases "sev = CRITICAL") (auto simp: secret_patterns_def split: if_splits)
  have f: "secret_finding category sev (component_name root q) \<in> set (secrets_scan_file word ?file)"
    using p assms(4-6) by (force simp: secrets_scan_file_def binary_sniff_size_def image_iff)
  have "secret_finding category sev (component_name root q)
      \<in> set (scan_items (secrets_scan_file word) (iter_scannable_files root (Some n) secrets_name))"
    using scanned_file [OF assms(2,3)] f by (rule scan_items_file [of ?file])
  then have r: "secret_finding category sev (component_name root q) \<in> set (sr_findings report)"
    by (intro default_scan_reported [OF assms(1), of secrets_name "secrets_scan word"])
      (auto simp: default_scanners_def secrets_scan_def)
  show ?thesis using r reported_unclean [OF r] by (auto simp: secret_finding_def secrets_name_def intro!: bexI [OF _ r])
qed

definition leaking_artifact :: fs_node where
  "leaking_artifact = FFile ''k=AKIA0123456789ABCDEF ''"

lemma zero_char: "chr 0 = CHR 0x00"
  by code_simp

theorem credentials_reported_witness:
  "0 < count_severity (case run_scanners (\<lambda>b. b) (\<lambda>_. False) [''a''] (Some leaking_artifact) None None None (Some ''d'') of
        Inr r \<Rightarrow> r) CRITICAL"
proof -
  obtain r where r: "run_scanners (\<lambda>b. b) (\<lambda>_. False) [''a''] (Some leaking_artifact) None None None (Some ''d'') = Inr r"
    using run_scanners_with_digest by blast
  have c: "([], ''k=AKIA0123456789ABCDEF '') \<in> set (contents [] leaking_artifact)" by (simp add: leaking_artifact_def)
  have k: "aws_key_in (\<lambda>_. False) (map ord ''k=AKIA0123456789ABCDEF '')"
    unfolding aws_key_in_def
    by (intro exI [of _ "map ord ''k=''"] exI [of _ "map ord ''0123456789ABCDEF''"] exI [of _ "map ord '' ''"])
      (simp add: in_class_def upper_digit_def is_word_def advance_def head_def)
  from credentials_reported [OF r c, where t = "map ord ''k=AKIA0123456789ABCDEF ''" and sev = CRITICAL] k
  show ?thesis using r
    by (simp add: leaking_artifact_def max_file_size_def looks_binary_def zero_char)
qed

section \<open>Links\<close>

text \<open>The tree with what its links lead to taken away; a link to a directory stays one.\<close>

fun blank :: "fs_node \<Rightarrow> fs_node" where
  "blank (FLink t) = FLink (Some (if is_dir_node t then FDir True [] else FFile []))"
| "blank (FDir l es) = FDir l (map (\<lambda>(n, nd). (n, blank nd)) es)"
| "blank nd = nd"

abbreviation blank_entry :: "string \<times> fs_node \<Rightarrow> string \<times> fs_node" where
  "blank_entry e \<equiv> (fst e, blank (snd e))"

lemma is_symlink_blank [simp]: "is_symlink (blank nd) = is_symlink nd"
  by (cases nd) auto

lemma is_dir_entry_blank [simp]: "is_dir_entry (blank_entry e) = is_dir_entry e"
  by (cases e; cases "snd e") auto

lemma os_walk_blank:
  "os_walk p (blank nd) = map (\<lambda>(q, ds, fs). (q, map blank_entry ds, map blank_entry fs)) (os_walk p nd)"
proof (induction p nd rule: os_walk.induct)
  case (1 p es)
  let ?b = "\<lambda>(q, ds, fs). (q, map blank_entry ds, map blank_entry fs)"
  have IH: "os_walk (p @ [fst e]) (blank (snd e)) = map ?b (os_walk (p @ [fst e]) (snd e))" if "e \<in> set es" for e
    using 1 [of e "fst e" "snd e"] that by simp
  have "concat (map (\<lambda>(n, nd). os_walk (p @ [n]) nd) (map blank_entry es))
      = map ?b (concat (map (\<lambda>(n, nd). os_walk (p @ [n]) nd) es))"
    using IH by (simp add: map_concat comp_def case_prod_unfold cong: map_cong)
  moreover have "map (\<lambda>(n, nd). (n, blank nd)) es = map blank_entry es" by (simp add: case_prod_unfold)
  moreover have "is_dir_entry (blank_entry e) = is_dir_entry e" for e by (rule is_dir_entry_blank)
  ultimately show ?case
    by (simp only: blank.simps os_walk.simps list.map case_prod_conv filter_map comp_def)
qed auto

text \<open>What the file scanners make of a walk.\<close>

lemma scan_walk_dir_blank:
  assumes "\<And>nd p. \<not> is_symlink nd \<Longrightarrow> scan_file \<lparr>sf_node = blank nd, sf_relative_path = p\<rparr> = scan_file \<lparr>sf_node = nd, sf_relative_path = p\<rparr>"
  shows "scan_items scan_file (walk_dir root sc (q, map blank_entry ds, map blank_entry fs))
    = scan_items scan_file (walk_dir root sc (q, ds, fs))"
proof -
  have "scan_items scan_file [walk_file root sc q (blank_entry e)] = scan_items scan_file [walk_file root sc q e]" for e
    using assms by (cases e) (auto simp: walk_file_def Let_def scan_items_def split: option.splits)
  then have "scan_items scan_file (map (walk_file root sc q) (map blank_entry fs)) = scan_items scan_file (map (walk_file root sc q) fs)"
    by (induction fs) (simp_all add: scan_items_def)
  moreover have "map (\<lambda>(dname, nd). Inl (skip_finding sc (path_str (root @ q @ [dname])) ''symlinked directory''))
      (filter (\<lambda>(dname, nd). is_symlink nd) (map blank_entry ds))
    = (map (\<lambda>(dname, nd). Inl (skip_finding sc (path_str (root @ q @ [dname])) ''symlinked directory''))
      (filter (\<lambda>(dname, nd). is_symlink nd) ds) :: (finding + scannable_file) list)"
    by (induction ds) auto
  ultimately show ?thesis by (simp add: walk_dir_def scan_items_def)
qed

lemma scan_blank:
  assumes "\<And>nd p. \<not> is_symlink nd \<Longrightarrow> scan_file \<lparr>sf_node = blank nd, sf_relative_path = p\<rparr> = scan_file \<lparr>sf_node = nd, sf_relative_path = p\<rparr>"
  shows "scan_items scan_file (iter_scannable_files root (Some (blank nd)) sc)
    = scan_items scan_file (iter_scannable_files root (Some nd) sc)"
proof (cases nd)
  case (FDir l es)
  have "scan_items scan_file (concat (map (walk_dir root sc) (map (\<lambda>(q, ds, fs). (q, map blank_entry ds, map blank_entry fs)) ws)))
      = scan_items scan_file (concat (map (walk_dir root sc) ws))" for ws
  proof (induction ws)
    case (Cons w ws)
    then show ?case using scan_walk_dir_blank [of scan_file, OF assms] by (cases w) (simp add: scan_items_def)
  qed simp
  then show ?thesis using FDir os_walk_blank [of "[]" nd]
    by (simp add: iter_scannable_files_def path_is_symlink_def path_is_file_def path_is_dir_def)
qed (simp_all add: iter_scannable_files_def path_is_symlink_def path_is_file_def path_is_dir_def)

text \<open>
  Links are never followed: the findings of a scan are the same whatever the links of the artifact
  lead to, be they files, directories or nothing.
\<close>

theorem scan_ignores_link_targets:
  "run_scanners H word root (Some (blank n)) m b None (Some d) = run_scanners H word root (Some n) m b None (Some d)"
proof -
  have r: "read_node (blank nd) = read_node nd" if "\<not> is_symlink nd" for nd using that by (cases nd) auto
  have "unsafe_scan_file \<lparr>sf_node = blank nd, sf_relative_path = p\<rparr> = unsafe_scan_file \<lparr>sf_node = nd, sf_relative_path = p\<rparr>"
    if "\<not> is_symlink nd" for nd p
    using r [OF that] by (cases "read_node nd") (simp_all add: unsafe_scan_file_def Let_def)
  then have "unsafe_scan root (Some (blank n)) m b = unsafe_scan root (Some n) m b"
    unfolding unsafe_scan_def by (simp add: scan_blank)
  moreover have "secrets_scan_file word \<lparr>sf_node = blank nd, sf_relative_path = p\<rparr>
      = secrets_scan_file word \<lparr>sf_node = nd, sf_relative_path = p\<rparr>" if "\<not> is_symlink nd" for nd p
    unfolding secrets_scan_file_def scannable_file.select_convs r [OF that] by (rule refl)
  then have "secrets_scan word root (Some (blank n)) m b = secrets_scan word root (Some n) m b"
    unfolding secrets_scan_def by (simp add: scan_blank)
  ultimately have "run_loop (\<lambda>s. snd s root (Some (blank n)) m b) (default_scanners word) ([], [], [])
      = run_loop (\<lambda>s. snd s root (Some n) m b) (default_scanners word) ([], [], [])"
    by (intro run_loop_cong) (auto simp: default_scanners_def metadata_scan_def)
  then show ?thesis by (simp add: run_scanners_def)
qed

end
