(* ===== verification/Cache.thy ===== *)
theory Cache
  imports Hashing
begin

text \<open>
  The opt-in digest cache (\<open>cache/digest_cache.py\<close>).  A \<open>moment\<close> is the file system at an instant:
  the node each path names, what \<open>lstat\<close> says of each file, and the clock.  A call reads it at
  several instants, so a call takes the moment of each step.  The cache file is its mode, owner and
  bytes; \<open>parse\<close> and \<open>render\<close> are pydantic's reading and writing of the cache document, and paths are
  resolved.  Logging is left out.

  The theorems: whatever is in the cache file, a digest comes from it only under an unchanged
  fingerprint; under the module's trust assumptions a cached digest is the digest of the files as they
  are, as long as hashing is quicker than the racy margin; when it is slower, a stale digest can be
  served.
\<close>

definition cache_schema_version :: int where "cache_schema_version = 1"
definition racy_margin_ns :: int where "racy_margin_ns = 2000000000"
definition max_cache_file_bytes :: nat where "max_cache_file_bytes = 16 * 1024 * 1024"
definition max_entries :: nat where "max_entries = 128"

section \<open>Fingerprints\<close>

record file_stat =
  st_size :: int
  st_mtime_ns :: int
  st_ctime_ns :: int
  st_ino :: int
  st_dev :: int

record moment =
  mo_node :: "string list \<Rightarrow> fs_node option"
  mo_stat :: "string list \<Rightarrow> file_stat"
  mo_now :: int

record stat_model =
  sm_relpath :: string
  sm_stat :: file_stat

definition make_stat_model :: "string \<Rightarrow> file_stat \<Rightarrow> stat_model" where
  "make_stat_model relpath st = \<lparr>sm_relpath = relpath, sm_stat = st\<rparr>"

text \<open>The files of an artifact: relative name, absolute path, node; links and special files included.\<close>

definition walked_files :: "string list \<Rightarrow> fs_node \<Rightarrow> (string \<times> string list \<times> fs_node) list" where
  "walked_files path nd =
     concat (map (\<lambda>(rel, ds, fs). map (\<lambda>(n, f). (as_posix (rel @ [n]), path @ rel @ [n], f)) fs) (os_walk [] nd))"

definition links_a_dir :: "fs_node \<Rightarrow> bool" where
  "links_a_dir nd = list_ex (\<lambda>(rel, ds, fs). list_ex (\<lambda>(n, d). is_symlink d) ds) (os_walk [] nd)"

definition is_regular :: "fs_node \<Rightarrow> bool" where
  "is_regular nd = (case nd of FFile _ \<Rightarrow> True | FUnreadable \<Rightarrow> True | _ \<Rightarrow> False)"

definition capture_fingerprint ::
    "bool \<Rightarrow> string list \<Rightarrow> moment \<Rightarrow> (string \<times> stat_model list) option" where
  "capture_fingerprint posix path m =
     (if \<not> posix then None
      else case mo_node m path of
        None \<Rightarrow> None
      | Some nd \<Rightarrow>
          if is_symlink nd then None
          else if is_regular nd then
            (let single = make_stat_model (path_name path) (mo_stat m path)
             in if st_ino (sm_stat single) \<noteq> 0 then Some (''file'', [single]) else None)
          else if \<not> is_dir_node (Some nd) then None
          else if links_a_dir nd then None
          else if list_ex (\<lambda>(c, p, f). \<not> is_regular f \<or> st_ino (mo_stat m p) = 0) (walked_files path nd) then None
          else
            (let dir_stats = sort_key sm_relpath (map (\<lambda>(c, p, f). make_stat_model c (mo_stat m p)) (walked_files path nd))
             in if dir_stats = [] then None else Some (''directory'', dir_stats)))"

definition all_older_than_margin :: "stat_model list \<Rightarrow> int \<Rightarrow> bool" where
  "all_older_than_margin stats now_ns =
     (let cutoff = now_ns - racy_margin_ns
      in list_all (\<lambda>s. max (st_mtime_ns (sm_stat s)) (st_ctime_ns (sm_stat s)) \<le> cutoff) stats)"

section \<open>The cache file\<close>

record cache_entry =
  en_artifact_type :: string
  en_files :: "file_digest list"
  en_stats :: "stat_model list"
  en_recorded_at_ns :: int

record cache_doc =
  cd_schema_version :: int
  cd_entries :: "cache_entry dict"

text \<open>What \<open>lstat\<close> and \<open>read_bytes\<close> say of the path of the cache file.\<close>

record cache_file =
  cf_regular :: bool
  cf_owned :: bool
  cf_mode :: nat
  cf_bytes :: "bytes option"

definition entry_is_consistent :: "cache_entry \<Rightarrow> string \<Rightarrow> stat_model list \<Rightarrow> bool" where
  "entry_is_consistent entry artifact_type stats =
     (if en_artifact_type entry \<noteq> artifact_type then False
      else map (\<lambda>f. (fd_path f, fd_size f)) (en_files entry) = map (\<lambda>s. (sm_relpath s, st_size (sm_stat s))) stats)"

definition empty_cache :: cache_doc where
  "empty_cache = \<lparr>cd_schema_version = cache_schema_version, cd_entries = []\<rparr>"

text \<open>\<open>mode & 0o022\<close>: writable by the group or by others.\<close>

definition writable_by_others :: "nat \<Rightarrow> bool" where
  "writable_by_others mode = (bit mode 4 \<or> bit mode 1)"

definition load_cache :: "(bytes \<Rightarrow> cache_doc option) \<Rightarrow> cache_file option \<Rightarrow> cache_doc" where
  "load_cache parse file =
     (case file of
        None \<Rightarrow> empty_cache
      | Some cf \<Rightarrow>
          if \<not> cf_regular cf then empty_cache
          else if \<not> cf_owned cf then empty_cache
          else if writable_by_others (cf_mode cf) then empty_cache
          else (case cf_bytes cf of
              None \<Rightarrow> empty_cache
            | Some raw \<Rightarrow>
                if length raw > max_cache_file_bytes then empty_cache
                else (case parse raw of
                    None \<Rightarrow> empty_cache
                  | Some loaded \<Rightarrow> if cd_schema_version loaded \<noteq> cache_schema_version then empty_cache else loaded)))"

text \<open>The entries that stay when there are too many: the oldest go first.\<close>

definition evict :: "cache_entry dict \<Rightarrow> cache_entry dict" where
  "evict entries =
     (if length entries > max_entries then
        (let oldest_first = sort_key (\<lambda>kv. en_recorded_at_ns (snd kv)) entries;
             gone = map fst (take (length entries - max_entries) oldest_first)
         in filter (\<lambda>(k, e). k \<notin> set gone) entries)
      else entries)"

text \<open>Writing goes through a new private file and a rename; \<open>written\<close> says whether all of it worked.\<close>

definition store_entry ::
    "(bytes \<Rightarrow> cache_doc option) \<Rightarrow> (cache_doc \<Rightarrow> bytes) \<Rightarrow> bool \<Rightarrow> string \<Rightarrow> cache_entry \<Rightarrow> cache_file option \<Rightarrow> cache_file option" where
  "store_entry parse render written key entry file =
     (let cache = load_cache parse file;
          cache = cache\<lparr>cd_entries := evict (AList.update key entry (cd_entries cache))\<rparr>
      in if written then Some \<lparr>cf_regular = True, cf_owned = True, cf_mode = 384, cf_bytes = Some (render cache)\<rparr>
         else file)"

section \<open>Hashing through the cache\<close>

record hash_result =
  hr_digest :: artifact_digest
  hr_from_cache :: bool

text \<open>The moments of a call: first fingerprint, hashing, second fingerprint and the check, storing.\<close>

record call_times =
  at_before :: moment
  at_hash :: moment
  at_after :: moment
  at_store :: moment

definition cached_digest :: "(bytes \<Rightarrow> string) \<Rightarrow> cache_entry option \<Rightarrow> string \<Rightarrow> stat_model list \<Rightarrow> artifact_digest option" where
  "cached_digest H entry artifact_type stats =
     (case entry of
        None \<Rightarrow> None
      | Some e \<Rightarrow>
          if en_stats e = stats \<and> entry_is_consistent e artifact_type stats
          then (case artifact_digest_from_files H (en_artifact_type e) (en_files e) of
              Inl _ \<Rightarrow> None | Inr d \<Rightarrow> Some d)
          else None)"

definition cached_hash ::
    "(bytes \<Rightarrow> string) \<Rightarrow> (bytes \<Rightarrow> cache_doc option) \<Rightarrow> (cache_doc \<Rightarrow> bytes) \<Rightarrow> bool \<Rightarrow> bool \<Rightarrow> string list
       \<Rightarrow> call_times \<Rightarrow> cache_file option \<Rightarrow> (exn + hash_result) \<times> cache_file option" where
  "cached_hash H parse render posix written path t file =
     (case capture_fingerprint posix path (at_before t) of
        None \<Rightarrow>
          (case hash_artifact H path (mo_node (at_hash t) path) of
             Inl e \<Rightarrow> (Inl e, file)
           | Inr d \<Rightarrow> (Inr \<lparr>hr_digest = d, hr_from_cache = False\<rparr>, file))
      | Some (artifact_type, stats) \<Rightarrow>
          (let key = path_str path
           in case cached_digest H (map_of (cd_entries (load_cache parse file)) key) artifact_type stats of
                Some d \<Rightarrow> (Inr \<lparr>hr_digest = d, hr_from_cache = True\<rparr>, file)
              | None \<Rightarrow>
                  (case hash_artifact H path (mo_node (at_hash t) path) of
                     Inl e \<Rightarrow> (Inl e, file)
                   | Inr computed \<Rightarrow>
                       (Inr \<lparr>hr_digest = computed, hr_from_cache = False\<rparr>,
                        (case capture_fingerprint posix path (at_after t) of
                           None \<Rightarrow> file
                         | Some (_, after) \<Rightarrow>
                             if after \<noteq> stats then file
                             else if \<not> all_older_than_margin stats (mo_now (at_after t)) then file
                             else store_entry parse render written key
                               \<lparr>en_artifact_type = ad_type computed, en_files = ad_files computed,
                                en_stats = stats, en_recorded_at_ns = mo_now (at_store t)\<rparr> file)))))"

section \<open>What a fingerprint says\<close>

text \<open>The files of an artifact of either type, under the names digests and fingerprints give them.\<close>

definition named_files :: "string list \<Rightarrow> fs_node \<Rightarrow> (string \<times> string list \<times> fs_node) list" where
  "named_files path nd = (if is_dir_node (Some nd) then walked_files path nd else [(path_name path, path, nd)])"

lemma is_regular_iff: "is_regular nd \<longleftrightarrow> (\<exists>b. nd = FFile b) \<or> nd = FUnreadable"
  by (cases nd) (auto simp: is_regular_def)

lemma captureD:
  assumes "capture_fingerprint posix path m = Some (ty, stats)"
  obtains nd where "mo_node m path = Some nd"
    and "mset stats = mset (map (\<lambda>(c, p, f). make_stat_model c (mo_stat m p)) (named_files path nd))"
    and "\<forall>(c, p, f) \<in> set (named_files path nd). is_regular f"
    and "ty = ''file'' \<and> is_regular nd \<or> ty = ''directory'' \<and> is_dir_node (Some nd) \<and> \<not> links_a_dir nd \<and> stats \<noteq> []"
proof -
  obtain nd where n: "mo_node m path = Some nd" "\<not> is_symlink nd"
    using assms by (auto simp: capture_fingerprint_def split: if_splits option.splits)
  show ?thesis
  proof (cases "is_regular nd")
    case True
    then have "\<not> is_dir_node (Some nd)" by (auto simp: is_regular_iff)
    then show ?thesis using that [OF n(1)] assms n True
      by (auto simp: capture_fingerprint_def named_files_def Let_def split: if_splits)
  next
    case False
    then have "is_dir_node (Some nd)" "\<not> links_a_dir nd" "ty = ''directory''" "stats \<noteq> []"
      and r: "\<not> list_ex (\<lambda>(c, p, f). \<not> is_regular f \<or> st_ino (mo_stat m p) = 0) (walked_files path nd)"
      and "stats = sort_key sm_relpath (map (\<lambda>(c, p, f). make_stat_model c (mo_stat m p)) (walked_files path nd))"
      using assms n by (simp_all add: capture_fingerprint_def Let_def split: if_splits)
    moreover have "\<forall>(c, p, f) \<in> set (walked_files path nd). is_regular f"
      using r by (auto simp: list_ex_iff)
    ultimately show ?thesis using that [OF n(1)] by (simp add: named_files_def)
  qed
qed

lemma named_file_stat:
  assumes "mset stats = mset (map (\<lambda>(c, p, f). make_stat_model c (mo_stat m p)) fs)"
  shows "set stats = (\<lambda>(c, p, f). make_stat_model c (mo_stat m p)) ` set fs"
  using mset_eq_setD [OF assms] by simp

text \<open>A tree all of whose walked files are readable is clean, and its files are those walked.\<close>

lemma walked_clean:
  assumes "is_dir_node (Some nd)" and "\<not> links_a_dir nd" and "\<forall>(c, p, f) \<in> set (walked_files path nd). \<exists>b. f = FFile b"
  shows "clean nd"
proof (rule ccontr)
  assume "\<not> clean nd"
  then obtain w e where w: "w \<in> set (os_walk [] nd)" "hash_walk_step (\<lambda>b. b) [] w = Inl e"
    using walk_unclean [OF _ assms(1)] by blast
  obtain rel ds fs where r: "w = (rel, ds, fs)" by (cases w)
  have "find (\<lambda>(n, d). is_symlink d) ds = None"
    using assms(2) w(1) r unfolding find_None_iff by (fastforce simp: links_a_dir_def list_ex_iff)
  moreover have "\<exists>b. f = FFile b" if "(n, f) \<in> set fs" for n f
  proof -
    have "(as_posix (rel @ [n]), path @ rel @ [n], f) \<in> set (walked_files path nd)"
      using w(1) r that by (force simp: walked_files_def)
    then show ?thesis using assms(3) by fast
  qed
  then have "map_result (hash_walked (\<lambda>b. b) [] rel) fs = Inr (map (\<lambda>(n, f). file_record (\<lambda>b. b) (rel @ [n], file_bytes f)) fs)"
    by (intro map_result_total) (clarsimp, metis hash_walked_file fs_node.sel(1))
  ultimately show False using w(2) r by (simp add: hash_walk_step_def)
qed

definition named_record :: "(bytes \<Rightarrow> string) \<Rightarrow> string \<times> string list \<times> fs_node \<Rightarrow> file_digest" where
  "named_record H x = (case x of (c, p, f) \<Rightarrow> \<lparr>fd_path = c, fd_sha256 = H (file_bytes f), fd_size = int (length (file_bytes f))\<rparr>)"

lemma walked_contents:
  assumes "is_dir_node (Some nd)" and "clean nd"
  shows "mset (map (named_record H) (walked_files path nd)) = mset (map (file_record H) (contents [] nd))"
proof -
  have "map (named_record H) (walked_files path nd)
      = map (file_record H) (concat (map (\<lambda>(p, ds, fs). map (\<lambda>(n, f). (p @ [n], file_bytes f)) fs) (os_walk [] nd)))"
    by (simp add: walked_files_def map_concat comp_def case_prod_unfold named_record_def file_record_def)
  then show ?thesis using arg_cong [OF walk_files_contents [OF assms(2,1), of "[]"], of "image_mset (file_record H)"]
    by (simp only: mset_map)
qed

lemma walked_files_clean:
  assumes "is_dir_node (Some nd)" and "clean nd" and "(c, p, f) \<in> set (walked_files path nd)"
  shows "\<exists>b. f = FFile b"
proof -
  obtain rel ds fs n where "(rel, ds, fs) \<in> set (os_walk [] nd)" "(n, f) \<in> set fs"
    using assms(3) by (auto simp: walked_files_def)
  then show ?thesis using walk_clean [OF assms(2)] by blast
qed

text \<open>What hashing an artifact of either type returns.\<close>

lemma hash_artifact_InrD:
  assumes "hash_artifact H path (Some nd) = Inr d" and "wf_tree nd"
  shows "(\<forall>(c, p, f) \<in> set (named_files path nd). \<exists>b. f = FFile b)
    \<and> mset (ad_files d) = mset (map (named_record H) (named_files path nd))
    \<and> distinct (map fd_path (ad_files d))
    \<and> (ad_type d = ''file'' \<and> (\<exists>b. nd = FFile b) \<or> ad_type d = ''directory'' \<and> is_dir_node (Some nd))"
proof -
  have s: "\<not> is_symlink nd" "followed nd \<noteq> None"
    using assms(1) by (auto simp: hash_artifact_def path_is_symlink_def path_exists_def split: if_splits)
  show ?thesis
  proof (cases nd)
    case (FDir l es)
    then have h: "hash_directory H path (Some (FDir l es)) = Inr d"
      using assms(1) s by (simp add: hash_artifact_def path_is_symlink_def path_is_dir_def path_exists_def)
    then have c: "clean nd" "d = digest_of_contents H (contents [] nd)"
      using hash_directory_Inr_iff [of l es H path d] assms(2) FDir by auto
    then show ?thesis using walked_contents [of nd H path] walked_files_clean [of nd] FDir distinct_fd_path [of l es H] assms(2)
      by (auto simp: named_files_def digest_of_contents_def)
  qed (use assms(1) s in \<open>auto simp: hash_artifact_def path_is_symlink_def path_is_dir_def path_exists_def hash_file_def
      artifact_digest_from_files_def named_files_def named_record_def\<close>)
qed

section \<open>Cached digests are current\<close>

text \<open>
  The trust assumption on metadata, over the instants of a history: while a file's metadata stays
  the same, so does the file, provided its timestamps were at least \<open>tick\<close> old when first looked at
  (an edit within the same tick of the clock may leave them as they are).
\<close>

definition settled :: "int \<Rightarrow> file_stat \<Rightarrow> int \<Rightarrow> bool" where
  "settled tick st now = (max (st_mtime_ns st) (st_ctime_ns st) + tick \<le> now)"

definition honest :: "int \<Rightarrow> (nat \<Rightarrow> moment) \<Rightarrow> bool" where
  "honest tick hist \<longleftrightarrow>
     (\<forall>t1 t2 t3 path n1 n2 n3 c p1 p2 p3 f1 f2 f3.
        t1 \<le> t2 \<longrightarrow> t2 \<le> t3 \<longrightarrow>
        mo_node (hist t1) path = Some n1 \<longrightarrow> mo_node (hist t2) path = Some n2 \<longrightarrow> mo_node (hist t3) path = Some n3 \<longrightarrow>
        (c, p1, f1) \<in> set (named_files path n1) \<longrightarrow> (c, p2, f2) \<in> set (named_files path n2) \<longrightarrow>
        (c, p3, f3) \<in> set (named_files path n3) \<longrightarrow>
        mo_stat (hist t1) p1 = mo_stat (hist t3) p3 \<longrightarrow> settled tick (mo_stat (hist t1) p1) (mo_now (hist t1)) \<longrightarrow>
        f1 = f2 \<and> f2 = f3)"

definition wf_history :: "(nat \<Rightarrow> moment) \<Rightarrow> bool" where
  "wf_history hist \<longleftrightarrow> (\<forall>t path nd. mo_node (hist t) path = Some nd \<longrightarrow> wf_tree nd)"

text \<open>What the cache holds of an artifact: fingerprinted at \<open>i\<close>, hashed at \<open>j\<close>, no later than \<open>n\<close>.\<close>

definition sound_entry ::
    "int \<Rightarrow> (nat \<Rightarrow> moment) \<Rightarrow> (bytes \<Rightarrow> string) \<Rightarrow> bool \<Rightarrow> string list \<Rightarrow> nat \<Rightarrow> cache_entry \<Rightarrow> bool" where
  "sound_entry tick hist H posix path n e \<longleftrightarrow>
     (\<exists>i j ty d. i \<le> j \<and> j \<le> n \<and> capture_fingerprint posix path (hist i) = Some (ty, en_stats e)
        \<and> (\<forall>s \<in> set (en_stats e). settled tick (sm_stat s) (mo_now (hist i)))
        \<and> hash_artifact H path (mo_node (hist j) path) = Inr d
        \<and> en_artifact_type e = ad_type d \<and> en_files e = ad_files d)"

lemma consistentD:
  "entry_is_consistent e ty stats \<Longrightarrow>
     map (\<lambda>f. (fd_path f, fd_size f)) (en_files e) = map (\<lambda>s. (sm_relpath s, st_size (sm_stat s))) stats"
  by (simp add: entry_is_consistent_def split: if_splits)

text \<open>Under an unchanged fingerprint every file is the one that was hashed.\<close>

lemma unchanged_files:
  assumes "honest tick hist" and "wf_history hist" and "sound_entry tick hist H posix path n e" and "n \<le> t"
    and "capture_fingerprint posix path (hist t) = Some (ty, en_stats e)"
    and "entry_is_consistent e ty (en_stats e)" and "mo_node (hist t) path = Some nd"
  shows "(\<forall>(c, p, f) \<in> set (named_files path nd). \<exists>b. f = FFile b)
    \<and> mset (en_files e) = mset (map (named_record H) (named_files path nd))
    \<and> distinct (map fd_path (en_files e))"
proof -
  obtain i j ty0 d where ij: "i \<le> j" "j \<le> n" and cap: "capture_fingerprint posix path (hist i) = Some (ty0, en_stats e)"
    and old: "\<forall>s \<in> set (en_stats e). settled tick (sm_stat s) (mo_now (hist i))"
    and h: "hash_artifact H path (mo_node (hist j) path) = Inr d" and e: "en_files e = ad_files d"
    using assms(3) by (auto simp: sound_entry_def)
  obtain nj where j: "mo_node (hist j) path = Some nj"
    using h by (cases "mo_node (hist j) path") (auto simp: hash_artifact_def path_exists_def)
  have d: "\<forall>(c, p, f) \<in> set (named_files path nj). \<exists>b. f = FFile b"
      "mset (ad_files d) = mset (map (named_record H) (named_files path nj))" "distinct (map fd_path (ad_files d))"
    using hash_artifact_InrD [of H path nj d] h j assms(2) by (auto simp: wf_history_def)
  obtain ni where i: "mo_node (hist i) path = Some ni"
    "mset (en_stats e) = mset (map (\<lambda>(c, p, f). make_stat_model c (mo_stat (hist i) p)) (named_files path ni))"
    using captureD [OF cap] by metis
  have t: "mset (en_stats e) = mset (map (\<lambda>(c, p, f). make_stat_model c (mo_stat (hist t) p)) (named_files path nd))"
    using captureD [OF assms(5)] assms(7) by (metis option.sel)
  have names: "map fd_path (en_files e) = map sm_relpath (en_stats e)"
    using arg_cong [of _ _ "map fst", OF consistentD [OF assms(6)]] by (simp add: comp_def)
  have same: "(\<exists>b. f = FFile b) \<and> named_record H (c, p, f) \<in> set (en_files e)" if cpf: "(c, p, f) \<in> set (named_files path nd)" for c p f
  proof -
    have s: "make_stat_model c (mo_stat (hist t) p) \<in> set (en_stats e)" using named_file_stat [OF t] cpf by force
    then obtain pi fi where pi: "(c, pi, fi) \<in> set (named_files path ni)" "mo_stat (hist i) pi = mo_stat (hist t) p"
      using named_file_stat [OF i(2)] by (auto simp: make_stat_model_def)
    have "c \<in> fd_path ` set (en_files e)" using s arg_cong [OF names, of set] by (force simp: make_stat_model_def)
    then obtain pj fj where pj: "(c, pj, fj) \<in> set (named_files path nj)"
      using mset_eq_setD [OF d(2)] e by (force simp: named_record_def)
    have "settled tick (mo_stat (hist i) pi) (mo_now (hist i))" using old s pi(2) by (force simp: make_stat_model_def)
    then have "fi = fj \<and> fj = f"
      using assms(1) ij assms(4) i(1) j assms(7) pi pj cpf unfolding honest_def by (meson le_trans)
    moreover have "\<exists>b. fj = FFile b" using d(1) pj by fast
    moreover have "named_record H (c, pj, fj) \<in> set (en_files e)" using mset_eq_setD [OF d(2)] e pj by force
    ultimately show ?thesis by (simp add: named_record_def)
  qed
  have "map fd_path (map (named_record H) (named_files path nd)) = map fst (named_files path nd)"
    by (auto simp: named_record_def)
  moreover have m: "mset (map fst (named_files path nd)) = mset (map fd_path (en_files e))"
    unfolding names mset_map [of sm_relpath] t by (simp add: multiset.map_comp comp_def case_prod_unfold make_stat_model_def)
  then have dist: "distinct (map fst (named_files path nd))" using d(3) e mset_eq_imp_distinct_iff by metis
  ultimately have dn: "distinct (map (named_record H) (named_files path nd))" by (metis distinct_map)
  have inj: "inj_on fd_path (set (en_files e))" using d(3) e by (simp add: distinct_map)
  have "set (en_files e) \<subseteq> named_record H ` set (named_files path nd)"
  proof
    fix r assume r: "r \<in> set (en_files e)"
    have "set (map fst (named_files path nd)) = set (map fd_path (en_files e))" using mset_eq_setD [OF m] .
    with r obtain c p f where x: "(c, p, f) \<in> set (named_files path nd)" "c = fd_path r" by force
    have "fd_path (named_record H (c, p, f)) = fd_path r" using x(2) by (simp add: named_record_def)
    then have "named_record H (c, p, f) = r" using inj_onD [OF inj] same [OF x(1)] r by blast
    with x show "r \<in> named_record H ` set (named_files path nd)" by force
  qed
  then have "set (en_files e) = set (map (named_record H) (named_files path nd))" using same by auto
  moreover have "distinct (en_files e)" using d(3) e by (simp add: distinct_map)
  ultimately have "mset (en_files e) = mset (map (named_record H) (named_files path nd))"
    using dn set_eq_iff_mset_eq_distinct by blast
  with same d(3) e show ?thesis by auto
qed

lemma hit_current:
  assumes "honest tick hist" and "wf_history hist" and "sound_entry tick hist H posix path n e" and "n \<le> t"
    and "capture_fingerprint posix path (hist t) = Some (ty, stats)"
    and "cached_digest H (Some e) ty stats = Some d'"
  shows "hash_artifact H path (mo_node (hist t) path) = Inr d'"
proof -
  have e: "en_stats e = stats" "entry_is_consistent e ty (en_stats e)" "artifact_digest_from_files H ty (en_files e) = Inr d'"
    using assms(6) by (auto simp: cached_digest_def entry_is_consistent_def split: if_splits sum.splits)
  obtain nd where nd: "mo_node (hist t) path = Some nd"
    and ty: "ty = ''file'' \<and> is_regular nd \<or> ty = ''directory'' \<and> is_dir_node (Some nd) \<and> \<not> links_a_dir nd \<and> stats \<noteq> []"
    using captureD [OF assms(5)] by metis
  have u: "\<forall>(c, p, f) \<in> set (named_files path nd). \<exists>b. f = FFile b"
      "mset (en_files e) = mset (map (named_record H) (named_files path nd))" "distinct (map fd_path (en_files e))"
    using unchanged_files [OF assms(1-4) _ e(2) nd] assms(5) e(1) by auto
  show ?thesis
  proof (cases "is_dir_node (Some nd)")
    case True
    then obtain l es where l: "nd = FDir l es" by (cases nd) auto
    have td: "ty = ''directory''" using ty True by (cases nd) (auto simp: is_regular_def)
    then have c: "clean nd" using walked_clean [OF True] ty u(1) True by (auto simp: named_files_def)
    have m: "mset (en_files e) = mset (map (file_record H) (contents [] nd))"
      using u(2) walked_contents [OF True c] True by (simp add: named_files_def)
    then have ne: "contents [] nd \<noteq> []"
      using e(1,2) ty td by (auto simp: entry_is_consistent_def split: if_splits)
    have "sort_key fd_path (en_files e) = sort_key fd_path (map (file_record H) (contents [] nd))"
      by (rule sort_key_mset_eq [OF m u(3)])
    then have "d' = digest_of_contents H (contents [] nd)"
      using e(3) td by (auto simp: artifact_digest_from_files_def digest_of_contents_def canonical_manifest_bytes_def
          manifest_json_def digest_algorithm_def)
    then have "hash_directory H path (Some nd) = Inr d'"
      using hash_directory_Inr_iff [of l es H path d'] c ne l nd assms(2) unfolding wf_history_def by blast
    then show ?thesis using nd l by (simp add: hash_artifact_def path_exists_def path_is_symlink_def path_is_dir_def)
  next
    case False
    then have tf: "ty = ''file''" using ty by blast
    obtain b where b: "nd = FFile b" using u(1) False by (auto simp: named_files_def)
    have "en_files e = [named_record H (path_name path, path, nd)]"
      using u(2) False by (simp add: named_files_def)
    then show ?thesis using e(3) tf nd b
      by (simp add: hash_artifact_def path_exists_def path_is_symlink_def path_is_dir_def hash_file_def named_record_def
          artifact_digest_from_files_def)
  qed
qed

text \<open>
  A sequence of calls on one cache, each with the instants of its steps; the results, and the cache
  file left.
\<close>

type_synonym cache_call = "string list \<times> bool \<times> nat \<times> nat \<times> nat \<times> nat"

fun times_of :: "(nat \<Rightarrow> moment) \<Rightarrow> cache_call \<Rightarrow> call_times" where
  "times_of hist (path, written, i, j, k, l) =
     \<lparr>at_before = hist i, at_hash = hist j, at_after = hist k, at_store = hist l\<rparr>"

fun run_calls ::
    "(bytes \<Rightarrow> string) \<Rightarrow> (bytes \<Rightarrow> cache_doc option) \<Rightarrow> (cache_doc \<Rightarrow> bytes) \<Rightarrow> bool \<Rightarrow> (nat \<Rightarrow> moment)
       \<Rightarrow> cache_call list \<Rightarrow> cache_file option \<Rightarrow> (exn + hash_result) list" where
  "run_calls H parse render posix hist [] file = []"
| "run_calls H parse render posix hist (c # cs) file =
     (case cached_hash H parse render posix (fst (snd c)) (fst c) (times_of hist c) file of
        (r, file') \<Rightarrow> r # run_calls H parse render posix hist cs file')"

fun instants :: "cache_call \<Rightarrow> nat list" where
  "instants (path, written, i, j, k, l) = [i, j, k, l]"

text \<open>Hashing took less than the margin, by at least a tick.\<close>

fun quick :: "int \<Rightarrow> (nat \<Rightarrow> moment) \<Rightarrow> cache_call \<Rightarrow> bool" where
  "quick tick hist (path, written, i, j, k, l) = (mo_now (hist k) - mo_now (hist i) \<le> racy_margin_ns - tick)"

definition valid_path :: "string list \<Rightarrow> bool" where
  "valid_path p = (p \<noteq> [] \<and> list_all valid_name p)"

lemma path_str_inj: "valid_path p \<Longrightarrow> valid_path q \<Longrightarrow> path_str p = path_str q \<Longrightarrow> p = q"
  using as_posix_inj [of p q] by (auto simp: valid_path_def path_str_def as_posix_def list_all_iff)

definition sound_file ::
    "int \<Rightarrow> (nat \<Rightarrow> moment) \<Rightarrow> (bytes \<Rightarrow> string) \<Rightarrow> (bytes \<Rightarrow> cache_doc option) \<Rightarrow> bool \<Rightarrow> nat \<Rightarrow> cache_file option \<Rightarrow> bool" where
  "sound_file tick hist H parse posix n file \<longleftrightarrow>
     (\<forall>(key, e) \<in> set (cd_entries (load_cache parse file)).
        \<exists>path. valid_path path \<and> path_str path = key \<and> sound_entry tick hist H posix path n e)"

lemma sound_entry_mono: "sound_entry tick hist H posix path n e \<Longrightarrow> n \<le> m \<Longrightarrow> sound_entry tick hist H posix path m e"
  unfolding sound_entry_def by (meson le_trans)

lemma sound_file_mono: "sound_file tick hist H parse posix n file \<Longrightarrow> n \<le> m \<Longrightarrow> sound_file tick hist H parse posix m file"
  unfolding sound_file_def using sound_entry_mono by fast

lemma update_subset: "set (AList.update k v xs) \<subseteq> insert (k, v) (set xs)"
  by (induction xs) auto

lemma evict_subset: "set (evict xs) \<subseteq> set xs"
  by (auto simp: evict_def Let_def)

lemma load_stored:
  assumes "\<forall>c. parse (render c) = Some c \<or> parse (render c) = None"
    and "x \<in> set (cd_entries (load_cache parse (store_entry parse render written key e file)))"
  shows "x = (key, e) \<or> x \<in> set (cd_entries (load_cache parse file))"
proof (cases written)
  case True
  let ?c = "(load_cache parse file)\<lparr>cd_entries := evict (AList.update key e (cd_entries (load_cache parse file)))\<rparr>"
  have "load_cache parse (store_entry parse render written key e file) \<in> {?c, empty_cache}"
    using True spec [OF assms(1), of ?c]
    by (auto simp: store_entry_def load_cache_def [of _ "Some _"] Let_def split: option.splits if_splits)
  then have "x \<in> set (evict (AList.update key e (cd_entries (load_cache parse file))))"
    using assms(2) by (auto simp: empty_cache_def)
  then show ?thesis using evict_subset update_subset by fastforce
qed (use assms(2) in \<open>simp add: store_entry_def Let_def\<close>)

lemma call_sound:
  assumes "honest tick hist" and "wf_history hist" and "\<forall>c. parse (render c) = Some c \<or> parse (render c) = None"
    and "sound_file tick hist H parse posix i file" and "valid_path path" and "i \<le> j" "j \<le> k" "k \<le> l"
    and "quick tick hist (path, written, i, j, k, l)"
    and "cached_hash H parse render posix written path (times_of hist (path, written, i, j, k, l)) file = (r, file')"
  shows "sound_file tick hist H parse posix l file'
    \<and> (\<forall>h. r = Inr h \<longrightarrow> hash_artifact H path (mo_node (hist (if hr_from_cache h then i else j)) path) = Inr (hr_digest h))"
proof (cases "capture_fingerprint posix path (hist i)")
  case None
  have "i \<le> l" using assms(6-8) by simp
  then show ?thesis using assms(10) None sound_file_mono [OF assms(4)] by (auto simp: cached_hash_def split: sum.splits)
next
  case (Some x)
  obtain ty stats where cap: "capture_fingerprint posix path (hist i) = Some (ty, stats)" using Some by (cases x) auto
  let ?old = "map_of (cd_entries (load_cache parse file)) (path_str path)"
  have il: "i \<le> l" using assms(6-8) by simp
  show ?thesis
  proof (cases "cached_digest H ?old ty stats")
    case (Some d)
    then obtain e where e: "?old = Some e" by (auto simp: cached_digest_def split: option.splits)
    then obtain q where "valid_path q" "path_str q = path_str path" "sound_entry tick hist H posix q i e"
      using assms(4) map_of_SomeD [OF e] unfolding sound_file_def by blast
    then have "sound_entry tick hist H posix path i e" using path_str_inj assms(5) by metis
    then have "hash_artifact H path (mo_node (hist i) path) = Inr d"
      using hit_current [OF assms(1,2) _ order_refl cap] Some e by simp
    moreover have "r = Inr \<lparr>hr_digest = d, hr_from_cache = True\<rparr>" "file' = file"
      using assms(10) cap Some by (auto simp: cached_hash_def Let_def)
    ultimately show ?thesis using sound_file_mono [OF assms(4) il] by simp
  next
    case None
    show ?thesis
    proof (cases "hash_artifact H path (mo_node (hist j) path)")
      case (Inl e)
      then show ?thesis using assms(10) cap None sound_file_mono [OF assms(4) il] by (auto simp: cached_hash_def Let_def)
    next
      case (Inr d)
      let ?e = "\<lparr>en_artifact_type = ad_type d, en_files = ad_files d, en_stats = stats, en_recorded_at_ns = mo_now (hist l)\<rparr>"
      have r: "r = Inr \<lparr>hr_digest = d, hr_from_cache = False\<rparr>"
        using assms(10) cap None Inr by (auto simp: cached_hash_def Let_def)
      have "file' = file \<or> file' = store_entry parse render written (path_str path) ?e file \<and> all_older_than_margin stats (mo_now (hist k))"
        using assms(10) cap None Inr by (auto simp: cached_hash_def Let_def split: option.splits if_splits prod.splits)
      then have "sound_file tick hist H parse posix l file'"
      proof
        assume f: "file' = store_entry parse render written (path_str path) ?e file \<and> all_older_than_margin stats (mo_now (hist k))"
        have "settled tick (sm_stat s) (mo_now (hist i))" if "s \<in> set stats" for s
          using f that assms(9) by (auto simp: all_older_than_margin_def settled_def list_all_iff Let_def)
        then have "sound_entry tick hist H posix path l ?e"
          using cap Inr assms(6-8) unfolding sound_entry_def by (intro exI [of _ i] exI [of _ j]) auto
        then show ?thesis
          using load_stored [OF assms(3)] f sound_file_mono [OF assms(4) il] assms(5) unfolding sound_file_def by fast
      qed (use sound_file_mono [OF assms(4) il] in simp)
      then show ?thesis using r Inr by simp
    qed
  qed
qed

lemma run_current:
  assumes "honest tick hist" and "wf_history hist" and "\<forall>c. parse (render c) = Some c \<or> parse (render c) = None"
    and "sound_file tick hist H parse posix n cache"
    and "sorted (n # concat (map instants calls))" and "\<forall>c \<in> set calls. valid_path (fst c) \<and> quick tick hist c"
    and "((path, written, i, j, k, l), Inr h) \<in> set (zip calls (run_calls H parse render posix hist calls cache))"
  shows "hash_artifact H path (mo_node (hist (if hr_from_cache h then i else j)) path) = Inr (hr_digest h)"
  using assms(4-7)
proof (induction calls arbitrary: n cache)
  case (Cons c cs)
  obtain p w a b d e where c: "c = (p, w, a, b, d, e)" by (cases c)
  obtain r left where run: "cached_hash H parse render posix w p (times_of hist (p, w, a, b, d, e)) cache = (r, left)"
    by fastforce
  have o: "n \<le> a" "a \<le> b" "b \<le> d" "d \<le> e" "sorted (e # concat (map instants cs))"
    using Cons.prems(2) c by (auto simp: sorted_append)
  have s: "sound_file tick hist H parse posix e left
      \<and> (\<forall>h. r = Inr h \<longrightarrow> hash_artifact H p (mo_node (hist (if hr_from_cache h then a else b)) p) = Inr (hr_digest h))"
    using Cons.prems(3) c by (intro call_sound [OF assms(1-3) sound_file_mono [OF Cons.prems(1) o(1)] _ o(2-4) _ run]) auto
  show ?case
  proof (cases "((path, written, i, j, k, l), Inr h) = (c, r)")
    case True
    then show ?thesis using s c by auto
  next
    case False
    then have "((path, written, i, j, k, l), Inr h) \<in> set (zip cs (run_calls H parse render posix hist cs left))"
      using Cons.prems(4) run c by auto
    then show ?thesis using Cons.IH [OF _ o(5)] s Cons.prems(3) by auto
  qed
qed simp

text \<open>
  C33. Under the trust assumptions, a cached digest is what hashing the files now would give: whatever
  sequence of calls uses the cache, on whatever artifacts, edited in between or not, each call returns
  the digest of the artifact as it was when looked up (a hit) or when hashed (a miss), if no call hashes
  for longer than the racy margin less a tick.
\<close>

theorem cached_digests_current:
  assumes "honest tick hist" and "wf_history hist" and "\<forall>c. parse (render c) = Some c \<or> parse (render c) = None"
    and "sorted (concat (map instants calls))" and "\<forall>c \<in> set calls. valid_path (fst c) \<and> quick tick hist c"
    and "((path, written, i, j, k, l), Inr h) \<in> set (zip calls (run_calls H parse render posix hist calls None))"
  shows "hash_artifact H path (mo_node (hist (if hr_from_cache h then i else j)) path) = Inr (hr_digest h)"
proof (rule run_current [OF assms(1-3) _ _ assms(5,6)])
  show "sound_file tick hist H parse posix 0 None" by (simp add: sound_file_def load_cache_def empty_cache_def)
  show "sorted (0 # concat (map instants calls))" using assms(4) by simp
qed

text \<open>A file that is edited once: at instant \<open>n\<close>, the metadata recording it if \<open>visible\<close>.\<close>

definition edit_history :: "nat \<Rightarrow> bool \<Rightarrow> (nat \<Rightarrow> int) \<Rightarrow> nat \<Rightarrow> moment" where
  "edit_history n visible clock t =
     \<lparr>mo_node = \<lambda>p. if p = [''m''] then Some (FFile (if t < n then ''old'' else ''new'')) else None,
      mo_stat = \<lambda>p. \<lparr>st_size = 3, st_mtime_ns = 0, st_ctime_ns = (if t < n \<or> \<not> visible then 0 else clock n), st_ino = 7, st_dev = 1\<rparr>,
      mo_now = clock t\<rparr>"

definition stored_doc :: cache_doc where
  "stored_doc = \<lparr>cd_schema_version = 1, cd_entries =
     [(''/m'', \<lparr>en_artifact_type = ''file'', en_files = [\<lparr>fd_path = ''m'', fd_sha256 = ''old'', fd_size = 3\<rparr>],
        en_stats = [\<lparr>sm_relpath = ''m'', sm_stat = \<lparr>st_size = 3, st_mtime_ns = 0, st_ctime_ns = 0, st_ino = 7, st_dev = 1\<rparr>\<rparr>],
        en_recorded_at_ns = 3000000000\<rparr>)]\<rparr>"

definition one_render :: "cache_doc \<Rightarrow> bytes" where
  "one_render c = (if c = stored_doc then ''x'' else [])"

definition one_parse :: "bytes \<Rightarrow> cache_doc option" where
  "one_parse b = (if b = ''x'' then Some stored_doc else None)"

lemma one_parse_render: "\<forall>c. one_parse (one_render c) = Some c \<or> one_parse (one_render c) = None"
  by (simp add: one_parse_def one_render_def)

lemmas cache_eval = cached_hash_def capture_fingerprint_def cached_digest_def edit_history_def is_regular_def
  make_stat_model_def path_name_def path_str_def load_cache_def empty_cache_def hash_artifact_def path_exists_def
  path_is_symlink_def path_is_dir_def hash_file_def artifact_digest_from_files_def all_older_than_margin_def
  racy_margin_ns_def store_entry_def evict_def max_entries_def cache_schema_version_def one_render_def one_parse_def
  stored_doc_def writable_by_others_def max_cache_file_bytes_def entry_is_consistent_def digest_algorithm_def Let_def

lemma honest_visible_edit: "0 < clock n \<Longrightarrow> honest tick (edit_history n True clock)"
  by (auto simp: honest_def edit_history_def named_files_def split: if_splits)

lemma honest_hidden_edit: "\<forall>t < n. clock t < tick \<Longrightarrow> honest tick (edit_history n False clock)"
  by (auto simp: honest_def edit_history_def named_files_def settled_def split: if_splits)

lemma wf_edit_history: "wf_history (edit_history n visible clock)"
  by (auto simp: wf_history_def edit_history_def split: if_splits)

definition old_digest :: artifact_digest where
  "old_digest = \<lparr>ad_algorithm = ''sha256'', ad_type = ''file'', ad_digest = ''old'',
     ad_files = [\<lparr>fd_path = ''m'', fd_sha256 = ''old'', fd_size = 3\<rparr>]\<rparr>"

definition two_calls :: "cache_call list" where
  "two_calls = [([''m''], True, 0, 1, 2, 3), ([''m''], True, 4, 4, 4, 4)]"

lemma two_calls_visible:
  "run_calls (\<lambda>b. b) one_parse one_render True (edit_history 5 True (\<lambda>t. 3000000000)) two_calls None
     = [Inr \<lparr>hr_digest = old_digest, hr_from_cache = False\<rparr>, Inr \<lparr>hr_digest = old_digest, hr_from_cache = True\<rparr>]"
  by (simp add: two_calls_def cache_eval old_digest_def)

theorem cached_digests_current_witness:
  "hash_artifact (\<lambda>b. b) [''m''] (mo_node (edit_history 5 True (\<lambda>t. 3000000000) 4) [''m'']) = Inr old_digest"
  using cached_digests_current [of 1 "edit_history 5 True (\<lambda>t. 3000000000)" one_parse one_render two_calls "[''m'']" True 4 4 4 4
      "\<lparr>hr_digest = old_digest, hr_from_cache = True\<rparr>" "\<lambda>b. b" True]
    two_calls_visible one_parse_render honest_visible_edit [of "\<lambda>t. 3000000000" 5 1] wf_edit_history
  by (simp add: two_calls_def valid_path_def valid_name_def edit_history_def racy_margin_ns_def)

text \<open>
  C34. Without that bound the guarantee fails: an edit in the tick in which the file was read, while
  hashing goes on for longer than the margin, passes the check, which compares the timestamps with the
  clock after hashing; the digest stored is that of the old content, and it is served for the new.
\<close>

theorem slow_hashing_serves_stale:
  "let hist = edit_history 2 False (\<lambda>t. if t < 2 then 0 else 3000000000) in
     honest 1 hist \<and> wf_history hist \<and> sorted (concat (map instants two_calls))
     \<and> run_calls (\<lambda>b. b) one_parse one_render True hist two_calls None
         = [Inr \<lparr>hr_digest = old_digest, hr_from_cache = False\<rparr>, Inr \<lparr>hr_digest = old_digest, hr_from_cache = True\<rparr>]
     \<and> hash_artifact (\<lambda>b. b) [''m''] (mo_node (hist 4) [''m'']) \<noteq> Inr old_digest"
proof -
  have "run_calls (\<lambda>b. b) one_parse one_render True (edit_history 2 False (\<lambda>t. if t < 2 then 0 else 3000000000)) two_calls None
      = [Inr \<lparr>hr_digest = old_digest, hr_from_cache = False\<rparr>, Inr \<lparr>hr_digest = old_digest, hr_from_cache = True\<rparr>]"
    by (simp add: two_calls_def cache_eval old_digest_def)
  moreover have "hash_artifact (\<lambda>b. b) [''m''] (mo_node (edit_history 2 False clock 4) [''m'']) \<noteq> Inr old_digest" for clock
    by (simp add: cache_eval old_digest_def)
  moreover have "sorted (concat (map instants two_calls))" by (simp add: two_calls_def)
  ultimately show ?thesis using wf_edit_history honest_hidden_edit [of 2 "\<lambda>t. if t < 2 then 0 else 3000000000" 1]
    by (simp add: Let_def)
qed

end
