(* ===== verification/Trust.thy ===== *)
theory Trust
  imports Signing
begin

text \<open>
  \<open>signing/trust.py\<close>, \<open>signing/trust_config.py\<close> and the \<open>trust\<close> commands of \<open>cli/main.py\<close>: the
  trusted keys, their validation, merging and evaluation, the file they are saved in and the
  commands that change it.  Shell patterns are Python's \<open>fnmatch\<close>.  A time is a number of
  microseconds, \<open>Aware\<close> when it carries a UTC offset.  The theorems characterise when a key is
  trusted and when configurations merge, and say that a revoked key is not trusted again by any
  command but its removal.
\<close>

section \<open>Shell patterns\<close>

text \<open>\<open>fnmatch.fnmatchcase\<close>: a pattern is a list of wildcards, character classes and literals.\<close>

datatype glob_item = GStar | GAny | GClass bool "(char \<times> char option) list" | GLit char

text \<open>The members of a class: ranges \<open>a-z\<close> and single characters.\<close>

fun class_members :: "string \<Rightarrow> (char \<times> char option) list" where
  "class_members (a # d # b # s) =
     (if d = CHR ''-'' then (a, Some b) # class_members s else (a, None) # class_members (d # b # s))"
| "class_members [a, d] = [(a, None), (d, None)]"
| "class_members [a] = [(a, None)]"
| "class_members [] = []"

fun is_member :: "char \<Rightarrow> char \<times> char option \<Rightarrow> bool" where
  "is_member c (a, None) = (c = a)"
| "is_member c (a, Some b) = (ord a \<le> (ord c :: nat) \<and> (ord c :: nat) \<le> ord b)"

fun empty_range :: "char \<times> char option \<Rightarrow> bool" where
  "empty_range (a, None) = False"
| "empty_range (a, Some b) = (ord a > (ord b :: nat))"

text \<open>
  \<open>fnmatch\<close> deletes empty ranges before it looks for the \<open>!\<close> of a negation, so that one that
  comes to stand first negates the class.
\<close>

definition class_item :: "bool \<Rightarrow> string \<Rightarrow> glob_item" where
  "class_item neg members =
     (let ms = class_members members; ms' = dropWhile empty_range ms
      in if \<not> neg \<and> ms' \<noteq> ms \<and> ms' \<noteq> [] \<and> fst (hd ms') = CHR ''!''
         then GClass True ((case snd (hd ms') of None \<Rightarrow> [] | Some b \<Rightarrow> [(CHR ''-'', None), (b, None)]) @ tl ms')
         else GClass neg ms)"

text \<open>What follows \<open>[\<close>: the class's negation, its members and the rest of the pattern, if it is closed.\<close>

definition starts_with :: "char \<Rightarrow> string \<Rightarrow> bool" where
  "starts_with c s \<longleftrightarrow> s \<noteq> [] \<and> hd s = c"

definition class_body :: "string \<Rightarrow> string \<times> string" where
  "class_body s =
     (let n = (if starts_with (CHR '']'') s then 1 else 0)
      in (take n s @ takeWhile (\<lambda>c. c \<noteq> CHR '']'') (drop n s), dropWhile (\<lambda>c. c \<noteq> CHR '']'') (drop n s)))"

definition glob_class :: "string \<Rightarrow> (bool \<times> string \<times> string) option" where
  "glob_class s =
     (let neg = starts_with (CHR ''!'') s;
          body = class_body (if neg then tl s else s)
      in if snd body = [] then None else Some (neg, fst body, tl (snd body)))"

lemma class_body_length: "length (snd (class_body s)) \<le> length s"
proof -
  have "length (dropWhile P (drop n s)) \<le> length s" for n P
    using length_dropWhile_le [of P "drop n s"] by simp
  then show ?thesis by (simp only: class_body_def Let_def snd_conv)
qed

lemma glob_class_shorter:
  assumes "glob_class s = Some (neg, m, rest)"
  shows "length rest < length s"
proof -
  let ?t = "if starts_with (CHR ''!'') s then tl s else s"
  have "snd (class_body ?t) \<noteq> []" "rest = tl (snd (class_body ?t))"
    using assms by (auto simp: glob_class_def Let_def split: if_splits)
  then have "length rest < length (snd (class_body ?t))" by (cases "snd (class_body ?t)") auto
  also have "\<dots> \<le> length ?t" by (rule class_body_length)
  also have "\<dots> \<le> length s" by simp
  finally show ?thesis .
qed

function glob_items :: "string \<Rightarrow> glob_item list" where
  "glob_items [] = []"
| "glob_items (c # s) =
     (if c = CHR ''*'' then GStar # glob_items s
      else if c = CHR ''?'' then GAny # glob_items s
      else if c = CHR ''['' then
        (case glob_class s of
           None \<Rightarrow> GLit c # glob_items s
         | Some (neg, members, rest) \<Rightarrow> class_item neg members # glob_items rest)
      else GLit c # glob_items s)"
  by pat_completeness auto
termination
  by (relation "measure length") (auto dest: glob_class_shorter)

fun item_matches :: "glob_item \<Rightarrow> char \<Rightarrow> bool" where
  "item_matches GStar c = False"
| "item_matches GAny c = True"
| "item_matches (GClass neg ms) c = (neg \<noteq> list_ex (is_member c) ms)"
| "item_matches (GLit d) c = (c = d)"

fun items_match :: "glob_item list \<Rightarrow> string \<Rightarrow> bool" where
  "items_match [] s = (s = [])"
| "items_match (GStar # is) [] = items_match is []"
| "items_match (GStar # is) (c # s) = (items_match is (c # s) \<or> items_match (GStar # is) s)"
| "items_match (i # is) [] = False"
| "items_match (i # is) (c # s) = (item_matches i c \<and> items_match is s)"

definition fnmatchcase :: "string \<Rightarrow> string \<Rightarrow> bool" where
  "fnmatchcase name pat = items_match (glob_items pat) name"

definition plain_pattern :: "string \<Rightarrow> bool" where
  "plain_pattern p \<longleftrightarrow> CHR ''*'' \<notin> set p \<and> CHR ''?'' \<notin> set p \<and> CHR ''['' \<notin> set p"

lemma plain_pattern_matches: "plain_pattern p \<Longrightarrow> fnmatchcase s p \<longleftrightarrow> s = p"
proof -
  have "items_match (glob_items p) s \<longleftrightarrow> s = p" if "plain_pattern p"
    using that by (induction p arbitrary: s) (case_tac s; auto simp: plain_pattern_def)+
  then show "plain_pattern p \<Longrightarrow> fnmatchcase s p \<longleftrightarrow> s = p" by (simp add: fnmatchcase_def)
qed

lemma star_matches: "fnmatchcase s ''*''"
  by (simp add: fnmatchcase_def) (induction s; simp)

section \<open>Fingerprints\<close>

definition normalize_key_id :: "string \<Rightarrow> string" where
  "normalize_key_id s = removeprefix ''sha256:'' (py_lower (py_strip s))"

fun normalize_loop :: "string set \<Rightarrow> string list \<Rightarrow> exn + string set" where
  "normalize_loop normalized [] = Inr normalized"
| "normalize_loop normalized (raw # rest) =
     (let candidate = normalize_key_id raw
      in if \<not> is_sha256_hex candidate then Inl TrustConfigurationError
         else normalize_loop (insert candidate normalized) rest)"

definition normalize_fingerprints :: "string list \<Rightarrow> exn + string set" where
  "normalize_fingerprints fingerprints =
     (case normalize_loop {} fingerprints of
        Inl e \<Rightarrow> Inl e
      | Inr normalized \<Rightarrow> if normalized = {} then Inl TrustConfigurationError else Inr normalized)"

lemma normalize_loop_spec:
  "normalize_loop acc fps =
     (if list_all (\<lambda>f. is_sha256_hex (normalize_key_id f)) fps then Inr (acc \<union> normalize_key_id ` set fps)
      else Inl TrustConfigurationError)"
  by (induction fps arbitrary: acc) (auto simp: Let_def)

lemma normalize_fingerprints_Inr_iff:
  "normalize_fingerprints fps = Inr S \<longleftrightarrow>
     fps \<noteq> [] \<and> list_all (\<lambda>f. is_sha256_hex (normalize_key_id f)) fps \<and> S = normalize_key_id ` set fps"
  by (auto simp: normalize_fingerprints_def normalize_loop_spec)

section \<open>Entries and configurations\<close>

datatype key_status = ActiveKey | RetiredKey | RevokedKey

fun status_value :: "key_status \<Rightarrow> string" where
  "status_value ActiveKey = ''active''"
| "status_value RetiredKey = ''retired''"
| "status_value RevokedKey = ''revoked''"

record trusted_key =
  tk_key_id :: string
  tk_algorithm :: "string option"
  tk_status :: key_status
  tk_not_before :: "datetime option"
  tk_not_after :: "datetime option"
  tk_signer_identity :: "string option"
  tk_scope :: "string list"
  tk_label :: "string option"

record trust_config =
  tr_version :: string
  tr_keys :: "trusted_key list"

definition trust_config_schema_version :: string where "trust_config_schema_version = ''1''"
definition max_trust_config_bytes :: nat where "max_trust_config_bytes = 256 * 1024"
definition max_string_field :: nat where "max_string_field = 200"
definition max_scope_patterns :: nat where "max_scope_patterns = 32"

definition is_lower_alnum :: "char \<Rightarrow> bool" where
  "is_lower_alnum c \<longleftrightarrow> is_digit c \<or> (97 \<le> ord c \<and> ord c \<le> 122)"

text \<open>\<open>[a-z0-9][a-z0-9-]{0,63}\<close>.\<close>

definition valid_algorithm :: "string \<Rightarrow> bool" where
  "valid_algorithm s \<longleftrightarrow> (case s of [] \<Rightarrow> False
     | c # cs \<Rightarrow> is_lower_alnum c \<and> length cs \<le> 63 \<and> list_all (\<lambda>d. is_lower_alnum d \<or> d = CHR ''-'') cs)"

definition bounded_string :: "string \<Rightarrow> bool" where
  "bounded_string s \<longleftrightarrow> s \<noteq> [] \<and> length s \<le> max_string_field \<and> list_all (\<lambda>c. ord c \<ge> 32) s"

definition opt_all :: "('a \<Rightarrow> bool) \<Rightarrow> 'a option \<Rightarrow> bool" where
  "opt_all P x = (case x of None \<Rightarrow> True | Some y \<Rightarrow> P y)"

text \<open>The field validators, then the validity window.\<close>

definition valid_entry :: "trusted_key \<Rightarrow> bool" where
  "valid_entry k \<longleftrightarrow> is_sha256_hex (tk_key_id k)
     \<and> opt_all valid_algorithm (tk_algorithm k)
     \<and> opt_all is_aware (tk_not_before k) \<and> opt_all is_aware (tk_not_after k)
     \<and> opt_all bounded_string (tk_signer_identity k) \<and> opt_all bounded_string (tk_label k)
     \<and> length (tk_scope k) \<le> max_scope_patterns \<and> list_all bounded_string (tk_scope k)
     \<and> (case (tk_not_before k, tk_not_after k) of (Some b, Some a) \<Rightarrow> instant b \<le> instant a | _ \<Rightarrow> True)"

definition validate_entry :: "trusted_key \<Rightarrow> exn + trusted_key" where
  "validate_entry raw =
     (let k = raw\<lparr>tk_key_id := normalize_key_id (tk_key_id raw)\<rparr>
      in if valid_entry k then Inr k else Inl ValidationError)"

definition trusted_entry :: "string \<Rightarrow> trusted_key" where
  "trusted_entry fp = \<lparr>tk_key_id = fp, tk_algorithm = None, tk_status = ActiveKey, tk_not_before = None,
     tk_not_after = None, tk_signer_identity = None, tk_scope = [], tk_label = None\<rparr>"

text \<open>\<open>_validate_unique_key_ids\<close>.\<close>

fun unique_key_ids :: "string set \<Rightarrow> trusted_key list \<Rightarrow> bool" where
  "unique_key_ids seen [] = True"
| "unique_key_ids seen (k # ks) = (if tk_key_id k \<in> seen then False else unique_key_ids (insert (tk_key_id k) seen) ks)"

definition make_trust_config :: "string \<Rightarrow> trusted_key list \<Rightarrow> exn + trust_config" where
  "make_trust_config version ks =
     (if unique_key_ids {} ks then Inr \<lparr>tr_version = version, tr_keys = ks\<rparr> else Inl ValidationError)"

definition valid_config :: "trust_config \<Rightarrow> bool" where
  "valid_config c \<longleftrightarrow> distinct (map tk_key_id (tr_keys c)) \<and> list_all valid_entry (tr_keys c)"

lemma unique_key_ids_iff: "unique_key_ids S ks \<longleftrightarrow> distinct (map tk_key_id ks) \<and> S \<inter> tk_key_id ` set ks = {}"
  by (induction ks arbitrary: S) auto

definition build_minimal_trust_config :: "string list \<Rightarrow> exn + trust_config" where
  "build_minimal_trust_config fingerprints =
     (case normalize_fingerprints fingerprints of
        Inl e \<Rightarrow> Inl e
      | Inr normalized \<Rightarrow>
          (case map_result (\<lambda>fp. validate_entry (trusted_entry fp)) (sorted_list_of_set normalized) of
             Inl e \<Rightarrow> Inl e
           | Inr ks \<Rightarrow> make_trust_config trust_config_schema_version ks))"

fun merge_keys :: "trusted_key dict \<Rightarrow> trusted_key list \<Rightarrow> exn + trusted_key dict" where
  "merge_keys merged [] = Inr merged"
| "merge_keys merged (key # ks) =
     (case map_of merged (tk_key_id key) of
        None \<Rightarrow> merge_keys (AList.update (tk_key_id key) key merged) ks
      | Some existing \<Rightarrow>
          if existing \<noteq> key then Inl TrustConfigurationError
          else merge_keys (AList.update (tk_key_id key) key merged) ks)"

definition merge_trust_configs :: "trust_config list \<Rightarrow> exn + trust_config" where
  "merge_trust_configs configs =
     (case merge_keys [] (concat (map tr_keys configs)) of
        Inl e \<Rightarrow> Inl e
      | Inr merged \<Rightarrow> make_trust_config trust_config_schema_version (map snd merged))"

section \<open>Evaluation\<close>

datatype trust_reason =
    NoTrustedKey string
  | WrongAlgorithm trusted_key string
  | NotActive trusted_key
  | NotYetValid trusted_key int
  | Expired trusted_key int
  | WrongIdentity trusted_key "string option"
  | OutOfScope trusted_key "string option"

record trust_evaluation =
  te_trusted :: bool
  te_matched_key :: "trusted_key option"
  te_reasons :: "trust_reason list"

definition in_scope :: "trusted_key \<Rightarrow> string option \<Rightarrow> bool" where
  "in_scope key model_id =
     (case model_id of None \<Rightarrow> False | Some m \<Rightarrow> list_ex (fnmatchcase m) (tk_scope key))"

definition trust_reasons :: "trusted_key \<Rightarrow> string \<Rightarrow> int \<Rightarrow> string option \<Rightarrow> string option \<Rightarrow> trust_reason list" where
  "trust_reasons key algorithm clock claimed_signer_identity model_id =
     (if tk_algorithm key \<noteq> None \<and> tk_algorithm key \<noteq> Some algorithm then [WrongAlgorithm key algorithm] else [])
     @ (if tk_status key \<noteq> ActiveKey then [NotActive key] else [])
     @ (case tk_not_before key of None \<Rightarrow> [] | Some t \<Rightarrow> if clock < instant t then [NotYetValid key clock] else [])
     @ (case tk_not_after key of None \<Rightarrow> [] | Some t \<Rightarrow> if clock > instant t then [Expired key clock] else [])
     @ (if tk_signer_identity key \<noteq> None \<and> tk_signer_identity key \<noteq> claimed_signer_identity
        then [WrongIdentity key claimed_signer_identity] else [])
     @ (if tk_scope key \<noteq> [] \<and> \<not> in_scope key model_id then [OutOfScope key model_id] else [])"

definition evaluate_trust ::
    "string \<Rightarrow> string \<Rightarrow> trust_config \<Rightarrow> string option \<Rightarrow> string option \<Rightarrow> int \<Rightarrow> trust_evaluation" where
  "evaluate_trust fingerprint algorithm config claimed_signer_identity model_id clock =
     (case filter (\<lambda>k. tk_key_id k = fingerprint) (tr_keys config) of
        [] \<Rightarrow> \<lparr>te_trusted = False, te_matched_key = None, te_reasons = [NoTrustedKey fingerprint]\<rparr>
      | key # _ \<Rightarrow>
          (let reasons = trust_reasons key algorithm clock claimed_signer_identity model_id
           in \<lparr>te_trusted = (reasons = []), te_matched_key = Some key, te_reasons = reasons\<rparr>))"

section \<open>The file\<close>

text \<open>\<open>TrustConfig.model_validate\<close> of a parsed document: the fields, then the validators, entry by entry.\<close>

definition key_statuses :: "(string \<times> key_status) list" where
  "key_statuses = map (\<lambda>st. (status_value st, st)) [ActiveKey, RetiredKey, RevokedKey]"

definition entry_of_json :: "libs \<Rightarrow> json \<Rightarrow> trusted_key option" where
  "entry_of_json L j =
     (case j of
        JObj d \<Rightarrow>
          if \<not> known_members [''key_id'', ''algorithm'', ''status'', ''not_before'', ''not_after'', ''signer_identity'',
               ''scope_model_id_patterns'', ''label''] d then None
          else
            (case (str_field d ''key_id'' None, opt_field d ''algorithm'',
                   enum_field key_statuses d ''status'' (Some ActiveKey), datetime_field L d ''not_before'',
                   datetime_field L d ''not_after'', opt_field d ''signer_identity'',
                   list_field d ''scope_model_id_patterns'' json_str (Some []), opt_field d ''label'') of
               (Some kid, Some a, Some st, Some nb, Some na, Some si, Some sc, Some lb) \<Rightarrow>
                 (case validate_entry \<lparr>tk_key_id = kid, tk_algorithm = a, tk_status = st, tk_not_before = nb,
                      tk_not_after = na, tk_signer_identity = si, tk_scope = sc, tk_label = lb\<rparr> of
                    Inl _ \<Rightarrow> None | Inr k \<Rightarrow> Some k)
             | _ \<Rightarrow> None)
      | _ \<Rightarrow> None)"

definition trust_config_of_json :: "libs \<Rightarrow> json \<Rightarrow> trust_config option" where
  "trust_config_of_json L j =
     (case j of
        JObj d \<Rightarrow>
          if \<not> known_members [''version'', ''keys''] d then None
          else
            (case (str_field d ''version'' (Some trust_config_schema_version), list_field d ''keys'' (entry_of_json L) (Some [])) of
               (Some v, Some ks) \<Rightarrow> (case make_trust_config v ks of Inl _ \<Rightarrow> None | Inr c \<Rightarrow> Some c)
             | _ \<Rightarrow> None)
      | _ \<Rightarrow> None)"

definition load_trust_config_file :: "libs \<Rightarrow> fs_node option \<Rightarrow> exn + trust_config" where
  "load_trust_config_file L nd =
     (case read_file nd of
        Inl e \<Rightarrow> if catches OSErrorC e then Inl TrustConfigurationError else Inl e
      | Inr raw_bytes \<Rightarrow>
          if length raw_bytes > max_trust_config_bytes then Inl TrustConfigurationError
          else (case Option.bind (utf8_decode raw_bytes) (lb_yaml L) of
              None \<Rightarrow> Inl TrustConfigurationError
            | Some raw \<Rightarrow>
                (case raw of
                   JObj d \<Rightarrow>
                     (case trust_config_of_json L raw of None \<Rightarrow> Inl TrustConfigurationError | Some c \<Rightarrow> Inr c)
                 | _ \<Rightarrow> Inl TrustConfigurationError)))"

text \<open>
  \<open>model_dump(mode="json")\<close> of an entry, and of a configuration with \<open>exclude_none=True\<close>, which is what a
  command saves.
\<close>

definition entry_fields :: "libs \<Rightarrow> trusted_key \<Rightarrow> (string \<times> json option) list" where
  "entry_fields L k =
     [(''key_id'', Some (JStr (tk_key_id k))), (''algorithm'', opt_str (tk_algorithm k)),
      (''status'', Some (JStr (status_value (tk_status k)))), (''not_before'', opt_str (map_option (lb_time L) (tk_not_before k))),
      (''not_after'', opt_str (map_option (lb_time L) (tk_not_after k))), (''signer_identity'', opt_str (tk_signer_identity k)),
      (''scope_model_id_patterns'', Some (JList (map JStr (tk_scope k)))), (''label'', opt_str (tk_label k))]"

definition entry_dump :: "libs \<Rightarrow> trusted_key \<Rightarrow> json" where
  "entry_dump L k = with_nulls (entry_fields L k)"

definition trust_document :: "libs \<Rightarrow> trust_config \<Rightarrow> json" where
  "trust_document L c =
     drop_none [(''version'', Some (JStr (tr_version c))),
       (''keys'', Some (JList (map (\<lambda>k. drop_none (entry_fields L k)) (tr_keys c))))]"

text \<open>
  \<open>save_trust_config_file\<close> as the directory's states: the temporary file is written, possibly cut
  short at \<open>written\<close> when writing fails, renamed over the target, and removed in any case.
\<close>

definition tmp_name :: "string \<Rightarrow> nat \<Rightarrow> string" where
  "tmp_name name pid = name @ ''.tmp-'' @ nat_str pid"

definition save_trust_config_file ::
    "string \<Rightarrow> nat \<Rightarrow> string \<Rightarrow> string option \<Rightarrow> bool \<Rightarrow> string dict \<Rightarrow> string dict list \<times> (exn + unit)" where
  "save_trust_config_file name pid doc cut_short replace_fails d =
     (let tmp = tmp_name name pid
      in case cut_short of
           Some written \<Rightarrow>
             (let d1 = AList.update tmp written d in ([d1, AList.delete tmp d1], Inl OSError))
         | None \<Rightarrow>
             (let d1 = AList.update tmp doc d
              in if replace_fails then ([d1, AList.delete tmp d1], Inl OSError)
                 else (let d2 = AList.delete tmp (AList.update name doc d1)
                       in ([d1, d2, AList.delete tmp d2], Inr ()))))"

section \<open>The commands\<close>

definition exit_ok :: nat where "exit_ok = 0"
definition exit_error :: nat where "exit_error = 1"

definition empty_config :: trust_config where
  "empty_config = \<lparr>tr_version = trust_config_schema_version, tr_keys = []\<rparr>"

text \<open>A command on the configuration in the file: its exit code and what it saved, if it did.\<close>

type_synonym command_result = "nat \<times> trust_config option"

definition command_result :: "exn + trust_config \<Rightarrow> command_result" where
  "command_result r = (case r of Inl e \<Rightarrow> (exit_error, None) | Inr c \<Rightarrow> (exit_ok, Some c))"

definition load_or_init_trust_config :: "(exn + trust_config) option \<Rightarrow> exn + trust_config" where
  "load_or_init_trust_config file = (case file of None \<Rightarrow> Inr empty_config | Some loaded \<Rightarrow> loaded)"

text \<open>\<open>TrustConfig.model_validate({"version": ..., "keys": [...]})\<close>.\<close>

definition validated_config :: "libs \<Rightarrow> string \<Rightarrow> json list \<Rightarrow> exn + trust_config" where
  "validated_config L version ks =
     (case trust_config_of_json L (JObj [(''version'', JStr version), (''keys'', JList ks)]) of
        None \<Rightarrow> Inl ValidationError | Some c \<Rightarrow> Inr c)"

definition validated_entry :: "libs \<Rightarrow> json \<Rightarrow> exn + trusted_key" where
  "validated_entry L j = (case entry_of_json L j of None \<Rightarrow> Inl ValidationError | Some k \<Rightarrow> Inr k)"

text \<open>The options of \<open>add-key\<close>, and the document it makes of them.\<close>

record key_options =
  ko_key_id :: string
  ko_algorithm :: "string option"
  ko_status :: key_status
  ko_not_before :: "string option"
  ko_not_after :: "string option"
  ko_signer_identity :: "string option"
  ko_scope :: "string list"
  ko_label :: "string option"

definition key_options_json :: "key_options \<Rightarrow> json" where
  "key_options_json ko =
     with_nulls
       [(''key_id'', Some (JStr (ko_key_id ko))), (''algorithm'', opt_str (ko_algorithm ko)),
        (''status'', Some (JStr (status_value (ko_status ko)))), (''not_before'', opt_str (ko_not_before ko)),
        (''not_after'', opt_str (ko_not_after ko)), (''signer_identity'', opt_str (ko_signer_identity ko)),
        (''scope_model_id_patterns'', Some (JList (map JStr (ko_scope ko)))), (''label'', opt_str (ko_label ko))]"

text \<open>Each command's body yields the entry it prints and the configuration it saves.\<close>

definition add_key_body ::
    "libs \<Rightarrow> (exn + trust_config) option \<Rightarrow> key_options \<Rightarrow> exn + trusted_key \<times> trust_config" where
  "add_key_body L file ko =
     (case load_or_init_trust_config file of Inl e \<Rightarrow> Inl e | Inr config \<Rightarrow>
     (case validated_entry L (key_options_json ko) of Inl e \<Rightarrow> Inl e | Inr entry \<Rightarrow>
        map_sum id (Pair entry)
          (validated_config L (tr_version config) (map (entry_dump L) (tr_keys config) @ [entry_dump L entry]))))"

definition trust_add_key :: "libs \<Rightarrow> (exn + trust_config) option \<Rightarrow> key_options \<Rightarrow> command_result" where
  "trust_add_key L file ko = command_result (map_sum id snd (add_key_body L file ko))"

definition replace_key :: "libs \<Rightarrow> trust_config \<Rightarrow> string \<Rightarrow> trusted_key option \<Rightarrow> exn + trust_config" where
  "replace_key L config key_id updated =
     (let normalized = normalize_key_id key_id;
          remaining = filter (\<lambda>k. tk_key_id k \<noteq> normalized) (tr_keys config)
      in if length remaining = length (tr_keys config) then Inl TrustConfigurationError
         else validated_config L (tr_version config)
                (map (entry_dump L) (case updated of None \<Rightarrow> remaining | Some u \<Rightarrow> remaining @ [u])))"

definition find_key :: "trust_config \<Rightarrow> string \<Rightarrow> exn + trusted_key" where
  "find_key config key_id =
     (case filter (\<lambda>k. tk_key_id k = normalize_key_id key_id) (tr_keys config) of
        [] \<Rightarrow> Inl StopIteration
      | k # _ \<Rightarrow> Inr k)"

text \<open>
  \<open>_updated_entry\<close>: the dump without its absent fields, with the overrides put in or taken out, validated
  again.  A \<open>datetime\<close> among the overrides stands as its text.
\<close>

definition override :: "json dict \<Rightarrow> string \<times> json option \<Rightarrow> json dict" where
  "override base kv = (case kv of (key, None) \<Rightarrow> AList.delete key base | (key, Some value) \<Rightarrow> AList.update key value base)"

definition updated_entry :: "libs \<Rightarrow> trusted_key \<Rightarrow> (string \<times> json option) list \<Rightarrow> exn + trusted_key" where
  "updated_entry L current overrides =
     (case drop_none (entry_fields L current) of
        JObj base \<Rightarrow> validated_entry L (JObj (foldl override base overrides))
      | _ \<Rightarrow> Inl ValidationError)"

definition retire_key_body ::
    "libs \<Rightarrow> exn + trust_config \<Rightarrow> string \<Rightarrow> string option \<Rightarrow> exn + trusted_key \<times> trust_config" where
  "retire_key_body L loaded key_id not_after =
     (case loaded of Inl e \<Rightarrow> Inl e | Inr config \<Rightarrow>
     (case find_key config key_id of Inl e \<Rightarrow> Inl e | Inr current \<Rightarrow>
     (case updated_entry L current
             [(''status'', Some (JStr ''retired'')),
              (''not_after'', opt_str (if truthy not_after then not_after else map_option (lb_time L) (tk_not_after current)))] of
        Inl e \<Rightarrow> Inl e
      | Inr updated \<Rightarrow> map_sum id (Pair updated) (replace_key L config key_id (Some updated)))))"

definition trust_retire_key :: "libs \<Rightarrow> exn + trust_config \<Rightarrow> string \<Rightarrow> string option \<Rightarrow> command_result" where
  "trust_retire_key L loaded key_id not_after = command_result (map_sum id snd (retire_key_body L loaded key_id not_after))"

definition revoke_key_body :: "libs \<Rightarrow> exn + trust_config \<Rightarrow> string \<Rightarrow> exn + trusted_key \<times> trust_config" where
  "revoke_key_body L loaded key_id =
     (case loaded of Inl e \<Rightarrow> Inl e | Inr config \<Rightarrow>
     (case find_key config key_id of Inl e \<Rightarrow> Inl e | Inr current \<Rightarrow>
     (case updated_entry L current [(''status'', Some (JStr ''revoked''))] of Inl e \<Rightarrow> Inl e
      | Inr updated \<Rightarrow> map_sum id (Pair updated) (replace_key L config key_id (Some updated)))))"

definition trust_revoke_key :: "libs \<Rightarrow> exn + trust_config \<Rightarrow> string \<Rightarrow> command_result" where
  "trust_revoke_key L loaded key_id = command_result (map_sum id snd (revoke_key_body L loaded key_id))"

definition remove_key_body :: "libs \<Rightarrow> exn + trust_config \<Rightarrow> string \<Rightarrow> exn + trust_config" where
  "remove_key_body L loaded key_id = (case loaded of Inl e \<Rightarrow> Inl e | Inr config \<Rightarrow> replace_key L config key_id None)"

definition trust_remove_key :: "libs \<Rightarrow> exn + trust_config \<Rightarrow> string \<Rightarrow> command_result" where
  "trust_remove_key L loaded key_id = command_result (remove_key_body L loaded key_id)"

section \<open>Lemmas\<close>

lemma make_trust_config_Inr_iff:
  "make_trust_config v ks = Inr c \<longleftrightarrow> distinct (map tk_key_id ks) \<and> c = \<lparr>tr_version = v, tr_keys = ks\<rparr>"
  by (auto simp: make_trust_config_def unique_key_ids_iff)

lemma validate_entry_Inr_iff:
  "validate_entry raw = Inr k \<longleftrightarrow> k = raw\<lparr>tk_key_id := normalize_key_id (tk_key_id raw)\<rparr> \<and> valid_entry k"
  by (auto simp: validate_entry_def Let_def)

lemma lower_hex_simps:
  assumes "is_lower_hex c"
  shows "\<not> is_space c" "py_lower_char c = c" "c \<noteq> CHR '':''"
  using assms by (auto simp: is_lower_hex_def is_digit_def is_space_def py_lower_char_def)

lemma normalize_hex:
  assumes "is_sha256_hex s"
  shows "normalize_key_id s = s"
proof -
  have h: "list_all is_lower_hex s" and l: "length s = 64" using assms by (auto simp: is_sha256_hex_def)
  have d: "dropWhile is_space t = t" if "list_all is_lower_hex t" for t
    using that lower_hex_simps(1) by (cases t) simp_all
  have "list_all is_lower_hex (rev s)" using h by (simp only: list_all_rev)
  then have "py_strip s = s" by (simp only: py_strip_def d [OF h] d rev_rev_ident)
  moreover have "py_lower s = s"
    unfolding py_lower_def by (rule map_idI) (use h lower_hex_simps(2) in \<open>auto simp: list_all_iff\<close>)
  moreover have "\<not> prefix ''sha256:'' s"
  proof
    assume "prefix ''sha256:'' s"
    then obtain t where "s = ''sha256:'' @ t" by (rule prefixE)
    then have "CHR '':'' \<in> set s" by simp
    then have "is_lower_hex (CHR '':'')" using h unfolding list_all_iff by (rule bspec [rotated])
    then show False by (simp add: is_lower_hex_def is_digit_def)
  qed
  ultimately show ?thesis by (simp only: normalize_key_id_def removeprefix_other not_False_eq_True)
qed

lemma trust_reasons_Nil_iff:
  "trust_reasons key algorithm clock identity model_id = [] \<longleftrightarrow>
     (tk_algorithm key = None \<or> tk_algorithm key = Some algorithm) \<and> tk_status key = ActiveKey
     \<and> opt_all (\<lambda>t. instant t \<le> clock) (tk_not_before key) \<and> opt_all (\<lambda>t. clock \<le> instant t) (tk_not_after key)
     \<and> (tk_signer_identity key = None \<or> tk_signer_identity key = identity)
     \<and> (tk_scope key = [] \<or> in_scope key model_id)"
  by (auto simp: trust_reasons_def opt_all_def split: option.splits if_splits)

lemma filter_key:
  "distinct (map f ks) \<Longrightarrow> k \<in> set ks \<Longrightarrow> filter (\<lambda>x. f x = f k) ks = [k]"
  by (induction ks) (auto simp: filter_empty_conv, metis image_eqI)

lemma trusted_iff:
  assumes "distinct (map tk_key_id (tr_keys config))"
  shows "te_trusted (evaluate_trust fp algorithm config identity model_id clock) \<longleftrightarrow>
    (\<exists>key \<in> set (tr_keys config). tk_key_id key = fp \<and> trust_reasons key algorithm clock identity model_id = [])"
proof (cases "\<exists>key \<in> set (tr_keys config). tk_key_id key = fp")
  case True
  then obtain key where k: "key \<in> set (tr_keys config)" "tk_key_id key = fp" by blast
  have f: "filter (\<lambda>k. tk_key_id k = fp) (tr_keys config) = [key]"
    using filter_key [OF assms k(1)] k(2) by simp
  have "k = key" if "k \<in> set (tr_keys config)" "tk_key_id k = fp" for k
  proof -
    have "k \<in> set (filter (\<lambda>k. tk_key_id k = fp) (tr_keys config))" using that by simp
    then show ?thesis unfolding f by simp
  qed
  then have "(\<exists>k \<in> set (tr_keys config). tk_key_id k = fp \<and> trust_reasons k algorithm clock identity model_id = [])
      \<longleftrightarrow> trust_reasons key algorithm clock identity model_id = []"
    using k by blast
  then show ?thesis using f by (simp add: evaluate_trust_def Let_def)
next
  case False
  then have "filter (\<lambda>k. tk_key_id k = fp) (tr_keys config) = []" by (auto simp: filter_empty_conv)
  then show ?thesis using False by (auto simp: evaluate_trust_def)
qed

text \<open>No key is configured in two ways; what a merge has collected so far.\<close>

definition consistent :: "trusted_key set \<Rightarrow> bool" where
  "consistent S \<longleftrightarrow> inj_on tk_key_id S"

definition holds_keys :: "trusted_key dict \<Rightarrow> trusted_key set \<Rightarrow> bool" where
  "holds_keys merged S \<longleftrightarrow> distinct (map fst merged) \<and> set merged = (\<lambda>k. (tk_key_id k, k)) ` S"

lemma update_new: "map_of d k = None \<Longrightarrow> AList.update k v d = d @ [(k, v)]"
  by (induction d) (auto split: if_splits)

lemma holds_keys_lookup:
  "holds_keys merged S \<Longrightarrow> map_of merged k = Some v \<longleftrightarrow> v \<in> S \<and> tk_key_id v = k"
  by (auto simp: holds_keys_def)

lemma merge_keys_spec:
  assumes "holds_keys merged S" and "consistent S"
  shows "case merge_keys merged ks of
      Inl e \<Rightarrow> e = TrustConfigurationError \<and> \<not> consistent (S \<union> set ks)
    | Inr m \<Rightarrow> consistent (S \<union> set ks) \<and> holds_keys m (S \<union> set ks)"
  using assms
proof (induction ks arbitrary: merged S)
  case (Cons key ks)
  have un: "S \<union> set (key # ks) = insert key S \<union> set ks" by simp
  show ?case
  proof (cases "map_of merged (tk_key_id key)")
    case None
    then have new: "tk_key_id key \<notin> fst ` set merged" by (simp add: map_of_eq_None_iff)
    have "holds_keys (AList.update (tk_key_id key) key merged) (insert key S)"
      using Cons.prems(1) new by (simp add: holds_keys_def update_new [OF None])
    moreover have "consistent (insert key S)"
      using Cons.prems new by (auto simp: consistent_def holds_keys_def image_image)
    ultimately show ?thesis using Cons.IH None by (simp only: un) simp
  next
    case (Some existing)
    have e: "existing \<in> S" "tk_key_id existing = tk_key_id key"
      using Some holds_keys_lookup [OF Cons.prems(1)] by auto
    show ?thesis
    proof (cases "existing = key")
      case True
      then have "AList.update (tk_key_id key) key merged = merged" "insert key S = S"
        using Some e by (auto simp: update_triv)
      then show ?thesis using Cons.IH [OF Cons.prems] Some True by (simp only: un) simp
    next
      case False
      then have "\<not> consistent (S \<union> set (key # ks))" using e by (auto simp: consistent_def inj_on_def)
      then show ?thesis using Some False by simp
    qed
  qed
qed simp

lemma merge_spec:
  "case merge_trust_configs configs of
      Inl e \<Rightarrow> e = TrustConfigurationError \<and> \<not> consistent (\<Union>c \<in> set configs. set (tr_keys c))
    | Inr c \<Rightarrow> consistent (\<Union>c \<in> set configs. set (tr_keys c)) \<and> set (tr_keys c) = (\<Union>c \<in> set configs. set (tr_keys c))
        \<and> distinct (map tk_key_id (tr_keys c))"
proof -
  let ?ks = "concat (map tr_keys configs)"
  have "holds_keys [] {}" "consistent {}" by (simp_all add: holds_keys_def consistent_def)
  from merge_keys_spec [OF this, of ?ks] show ?thesis
  proof (cases "merge_keys [] ?ks")
    case (Inr m)
    assume "case merge_keys [] ?ks of Inl e \<Rightarrow> e = TrustConfigurationError \<and> \<not> consistent ({} \<union> set ?ks)
      | Inr m \<Rightarrow> consistent ({} \<union> set ?ks) \<and> holds_keys m ({} \<union> set ?ks)"
    then have m: "consistent (set ?ks)" "holds_keys m (set ?ks)" using Inr by simp_all
    have "list_all (\<lambda>(k, v). tk_key_id v = k) m" using m(2) by (auto simp: holds_keys_def list_all_iff)
    then have ids: "map tk_key_id (map snd m) = map fst m" by (induction m) auto
    have "snd ` set m = set ?ks" using m(2) by (simp add: holds_keys_def image_image)
    moreover have "distinct (map tk_key_id (map snd m))" unfolding ids using m(2) by (simp add: holds_keys_def)
    ultimately have "merge_trust_configs configs = Inr \<lparr>tr_version = trust_config_schema_version, tr_keys = map snd m\<rparr>"
      using Inr by (simp add: merge_trust_configs_def make_trust_config_Inr_iff)
    then show ?thesis
      using m(1) \<open>snd ` set m = set ?ks\<close> \<open>distinct (map tk_key_id (map snd m))\<close> by simp
  qed (simp add: merge_trust_configs_def)
qed

lemma minimal_entry: "is_sha256_hex fp \<Longrightarrow> validate_entry (trusted_entry fp) = Inr (trusted_entry fp)"
  by (simp add: validate_entry_Inr_iff trusted_entry_def normalize_hex valid_entry_def opt_all_def max_scope_patterns_def)

lemma minimal_config:
  assumes "normalize_fingerprints fps = Inr S"
  shows "build_minimal_trust_config fps
     = Inr \<lparr>tr_version = trust_config_schema_version, tr_keys = map trusted_entry (sorted_list_of_set S)\<rparr>"
proof -
  have S: "S = normalize_key_id ` set fps" "\<forall>fp \<in> S. is_sha256_hex fp"
    using assms by (auto simp: normalize_fingerprints_Inr_iff list_all_iff)
  then have fin: "finite S" by simp
  have "map_result (\<lambda>fp. validate_entry (trusted_entry fp)) (sorted_list_of_set S) = Inr (map trusted_entry (sorted_list_of_set S))"
    by (rule map_result_total) (use S(2) fin minimal_entry in auto)
  moreover have "map tk_key_id (map trusted_entry (sorted_list_of_set S)) = sorted_list_of_set S"
    by (simp add: trusted_entry_def comp_def)
  ultimately show ?thesis using assms
    by (simp add: build_minimal_trust_config_def make_trust_config_Inr_iff del: map_map)
qed

section \<open>Reading a dump back\<close>

text \<open>pydantic reads the text of a timestamp back.\<close>

definition reads_times :: "libs \<Rightarrow> bool" where
  "reads_times L \<longleftrightarrow> (\<forall>t. is_aware t \<longrightarrow> lb_datetime L (JStr (lb_time L t)) = Some t)"

lemma datetime_field_dumped:
  "reads_times L \<Longrightarrow> dumped fs d \<Longrightarrow> map_of fs k = Some (opt_str (map_option (lb_time L) t)) \<Longrightarrow> opt_all is_aware t
     \<Longrightarrow> datetime_field L d k = Some t"
  by (cases t) (force simp: dumped_def datetime_field_def opt_str_def reads_times_def opt_all_def)+

lemma json_str_reads: "reads_back json_str JStr UNIV"
  by (simp add: reads_back_def)

lemma valid_entry_validates: "valid_entry k \<Longrightarrow> validate_entry k = Inr k"
  by (simp add: validate_entry_Inr_iff valid_entry_def normalize_hex)

lemma status_dumped:
  "dumped fs d \<Longrightarrow> map_of fs ''status'' = Some (Some (JStr (status_value st))) \<Longrightarrow> enum_field key_statuses d ''status'' x = Some st"
  by (subst enum_field_dumped) (assumption | cases st; simp add: key_statuses_def)+

lemma entry_of_dumped:
  assumes "reads_times L" and v: "valid_entry k" and d: "dumped (entry_fields L k) d"
  shows "entry_of_json L (JObj d) = Some k"
proof -
  have "list_field d ''scope_model_id_patterns'' json_str y = Some (tk_scope k)" for y
    by (rule list_field_dumped [OF d _ json_str_reads]) (simp_all add: entry_fields_def)
  moreover have "datetime_field L d ''not_before'' = Some (tk_not_before k)"
    by (rule datetime_field_dumped [OF assms(1) d]) (use v in \<open>simp_all add: entry_fields_def valid_entry_def\<close>)
  moreover have "datetime_field L d ''not_after'' = Some (tk_not_after k)"
    by (rule datetime_field_dumped [OF assms(1) d]) (use v in \<open>simp_all add: entry_fields_def valid_entry_def\<close>)
  moreover have "enum_field key_statuses d ''status'' x = Some (tk_status k)" for x
    by (rule status_dumped [OF d]) (simp add: entry_fields_def)
  moreover have "validate_entry \<lparr>tk_key_id = tk_key_id k, tk_algorithm = tk_algorithm k, tk_status = tk_status k,
      tk_not_before = tk_not_before k, tk_not_after = tk_not_after k, tk_signer_identity = tk_signer_identity k,
      tk_scope = tk_scope k, tk_label = tk_label k\<rparr> = Inr k"
    using valid_entry_validates [OF v] by (cases k) simp
  ultimately show ?thesis
    unfolding entry_of_json_def by (simp add: field_of_dump [OF d] entry_fields_def)
qed

lemma entry_reads:
  assumes "reads_times L"
  shows "reads_back (entry_of_json L) (\<lambda>k. drop_none (entry_fields L k)) (Collect valid_entry)"
    and "reads_back (entry_of_json L) (entry_dump L) (Collect valid_entry)"
  unfolding entry_dump_def reads_back_def
  by (auto intro!: entry_of_dumped [OF assms] elim!: read_drop_none read_with_nulls
      simp: entry_fields_def [THEN arg_cong [where f = "map fst"]])

lemma trust_config_reads:
  assumes "reads_times L"
  shows "reads_back (trust_config_of_json L) (trust_document L) (Collect valid_config)"
proof -
  let ?fs = "\<lambda>c. [(''version'', Some (JStr (tr_version c))),
       (''keys'', Some (JList (map (\<lambda>k. drop_none (entry_fields L k)) (tr_keys c))))]"
  have "trust_config_of_json L (JObj d) = Some c" if v: "valid_config c" and d: "dumped (?fs c) d" for c d
  proof -
    have "list_field d ''keys'' (entry_of_json L) y = Some (tr_keys c)" for y
      by (rule list_field_dumped [OF d _ entry_reads(1) [OF assms]]) (use v in \<open>auto simp: valid_config_def list_all_iff\<close>)
    moreover have "make_trust_config (tr_version c) (tr_keys c) = Inr c"
      using v by (simp add: make_trust_config_Inr_iff valid_config_def)
    ultimately show ?thesis unfolding trust_config_of_json_def by (simp add: field_of_dump [OF d])
  qed
  then show ?thesis by (auto simp: reads_back_def trust_document_def elim!: read_drop_none)
qed

lemma validated_config_eq:
  "validated_config L v js =
     (case those (map (entry_of_json L) js) of None \<Rightarrow> Inl ValidationError | Some ks \<Rightarrow> make_trust_config v ks)"
  by (simp add: validated_config_def trust_config_of_json_def known_members_def str_field_def list_field_def make_trust_config_def
      split: option.splits)

text \<open>The configuration a command makes of valid entries is made of those very entries.\<close>

lemma validated_config_dumps:
  assumes "reads_times L" and "list_all valid_entry ks"
  shows "validated_config L v (map (entry_dump L) ks) = make_trust_config v ks"
proof -
  have "those (map (entry_of_json L) (map (entry_dump L) ks)) = Some ks"
    by (rule those_reads [OF entry_reads(2) [OF assms(1)]]) (use assms(2) in \<open>auto simp: list_all_iff\<close>)
  then show ?thesis by (simp add: validated_config_eq)
qed

section \<open>Properties of configurations\<close>

text \<open>
  A key is trusted exactly when it has an entry that is active, whose validity window contains
  the verifier's clock, and whose algorithm, signer identity and model scope, where given, fit the
  signature; no claimed signing time takes part.
\<close>

theorem trusted_exactly_when:
  assumes "valid_config config"
  shows "te_trusted (evaluate_trust fp algorithm config identity model_id clock) \<longleftrightarrow>
    (\<exists>key \<in> set (tr_keys config). tk_key_id key = fp \<and> tk_status key = ActiveKey
       \<and> (tk_algorithm key = None \<or> tk_algorithm key = Some algorithm)
       \<and> opt_all (\<lambda>t. instant t \<le> clock) (tk_not_before key) \<and> opt_all (\<lambda>t. clock \<le> instant t) (tk_not_after key)
       \<and> (tk_signer_identity key = None \<or> tk_signer_identity key = identity)
       \<and> (tk_scope key = [] \<or> in_scope key model_id))"
proof -
  have "distinct (map tk_key_id (tr_keys config))" using assms by (simp add: valid_config_def)
  from trusted_iff [OF this] show ?thesis unfolding trust_reasons_Nil_iff by blast
qed

definition sample_fingerprint :: string where
  "sample_fingerprint = replicate 64 (CHR ''a'')"

lemma sample_fingerprint_hex: "is_sha256_hex sample_fingerprint"
  by (simp add: sample_fingerprint_def is_sha256_hex_def list_all_iff is_lower_hex_def is_digit_def)

definition sample_config :: trust_config where
  "sample_config = \<lparr>tr_version = ''1'',
     tr_keys = [(trusted_entry sample_fingerprint)\<lparr>tk_not_after := Some (Aware 100), tk_scope := [''team-*'']\<rparr>]\<rparr>"

lemma sample_config_valid: "valid_config sample_config"
  by (simp add: valid_config_def sample_config_def trusted_entry_def valid_entry_def sample_fingerprint_hex opt_all_def
      max_scope_patterns_def bounded_string_def max_string_field_def)

theorem trusted_exactly_when_witness:
  "te_trusted (evaluate_trust sample_fingerprint ''ed25519'' sample_config None (Some ''team-x'') 50)
   \<and> \<not> te_trusted (evaluate_trust sample_fingerprint ''ed25519'' sample_config None (Some ''other'') 50)
   \<and> \<not> te_trusted (evaluate_trust sample_fingerprint ''ed25519'' sample_config None (Some ''team-x'') 101)"
  unfolding trusted_exactly_when [OF sample_config_valid]
  by (simp add: sample_config_def trusted_entry_def opt_all_def in_scope_def fnmatchcase_def)

text \<open>
  Configurations merge exactly when no fingerprint is configured in two ways; the merge then has
  the entries of all of them, each fingerprint once, whatever their order.
\<close>

theorem merge_exactly_when_consistent:
  "case merge_trust_configs configs of
     Inl e \<Rightarrow> e = TrustConfigurationError \<and> \<not> inj_on tk_key_id (\<Union>c \<in> set configs. set (tr_keys c))
   | Inr c \<Rightarrow> inj_on tk_key_id (\<Union>c \<in> set configs. set (tr_keys c))
       \<and> set (tr_keys c) = (\<Union>c \<in> set configs. set (tr_keys c)) \<and> distinct (map tk_key_id (tr_keys c))"
  using merge_spec [of configs] by (simp add: consistent_def split: sum.splits)

text \<open>
  A flat list of fingerprints means what it says: under the configuration built from it a key is
  trusted exactly when its fingerprint is in the list, in any spelling, whatever the algorithm, the
  identity, the model and the time.
\<close>

theorem flat_fingerprints_trusted:
  assumes "build_minimal_trust_config fps = Inr config"
  shows "te_trusted (evaluate_trust fp algorithm config identity model_id clock) \<longleftrightarrow> fp \<in> normalize_key_id ` set fps"
proof -
  obtain S where n: "normalize_fingerprints fps = Inr S"
    using assms by (cases "normalize_fingerprints fps") (simp_all add: build_minimal_trust_config_def)
  then have S: "S = normalize_key_id ` set fps" by (simp add: normalize_fingerprints_Inr_iff)
  have c: "tr_keys config = map trusted_entry (sorted_list_of_set S)" using minimal_config [OF n] assms by simp
  have "distinct (map tk_key_id (tr_keys config))" by (simp add: c comp_def trusted_entry_def)
  from trusted_iff [OF this] show ?thesis
    by (simp add: c S trust_reasons_Nil_iff trusted_entry_def opt_all_def)
qed

theorem flat_fingerprints_trusted_witness:
  "te_trusted (evaluate_trust sample_fingerprint ''x'' \<lparr>tr_version = ''1'', tr_keys = [trusted_entry sample_fingerprint]\<rparr> None None 0)
     \<longleftrightarrow> sample_fingerprint \<in> normalize_key_id ` set [sample_fingerprint]"
proof (rule flat_fingerprints_trusted)
  have "normalize_fingerprints [sample_fingerprint] = Inr {sample_fingerprint}"
    by (simp add: normalize_fingerprints_Inr_iff normalize_hex [OF sample_fingerprint_hex] sample_fingerprint_hex)
  from minimal_config [OF this]
  show "build_minimal_trust_config [sample_fingerprint] = Inr \<lparr>tr_version = ''1'', tr_keys = [trusted_entry sample_fingerprint]\<rparr>"
    by (simp add: trust_config_schema_version_def)
qed

text \<open>
  Saving a configuration is atomic: in every state the file goes through, whatever fails, it has
  its old contents or the whole new ones, and the temporary file is gone at the end.
\<close>

theorem save_is_atomic:
  "case save_trust_config_file name pid doc cut_short replace_fails d of (states, result) \<Rightarrow>
     (\<forall>s \<in> set states. map_of s name = map_of d name \<or> map_of s name = Some doc)
     \<and> map_of (last states) (tmp_name name pid) = None
     \<and> (result = Inr () \<longrightarrow> map_of (last states) name = Some doc)
     \<and> (result \<noteq> Inr () \<longrightarrow> map_of (last states) name = map_of d name)"
proof -
  have "tmp_name name pid \<noteq> name" by (simp add: tmp_name_def)
  then show ?thesis
    by (auto simp: save_trust_config_file_def Let_def delete_conv' split: option.splits)
qed

text \<open>
  A saved configuration is the one that is loaded again: a file that holds the YAML of the document, and
  is not larger than what a load accepts, gives back the configuration, timestamps and all.
\<close>

definition holds_config :: "libs \<Rightarrow> bytes \<Rightarrow> trust_config \<Rightarrow> bool" where
  "holds_config L b c \<longleftrightarrow> length b \<le> max_trust_config_bytes
     \<and> (\<exists>doc j. utf8_decode b = Some doc \<and> lb_yaml L doc = Some j \<and> canon j = canon (trust_document L c))"

theorem saved_trust_config_loads:
  assumes "valid_config c" and "reads_times L" and "holds_config L b c"
  shows "load_trust_config_file L (Some (FFile b)) = Inr c"
proof -
  obtain doc j where j: "utf8_decode b = Some doc" "lb_yaml L doc = Some j" "canon j = canon (trust_document L c)"
    using assms(3) by (auto simp: holds_config_def)
  have "trust_config_of_json L j = Some c" using trust_config_reads [OF assms(2)] assms(1) j(3) by (auto simp: reads_back_def)
  moreover obtain d where "j = JObj d" using j(3) by (cases j) (auto simp: trust_document_def drop_none_def)
  ultimately show ?thesis using j(1,2) assms(3) by (simp add: load_trust_config_file_def read_file_def holds_config_def)
qed

section \<open>The commands as a state machine\<close>

datatype trust_cmd =
    AddKey key_options
  | RetireKey string "string option"
  | RevokeKey string
  | RemoveKey string

text \<open>Running a command on the configuration in the file; the file keeps it when nothing is saved.\<close>

fun run_command :: "libs \<Rightarrow> trust_config \<Rightarrow> trust_cmd \<Rightarrow> command_result" where
  "run_command L c (AddKey ko) = trust_add_key L (Some (Inr c)) ko"
| "run_command L c (RetireKey kid na) = trust_retire_key L (Inr c) kid na"
| "run_command L c (RevokeKey kid) = trust_revoke_key L (Inr c) kid"
| "run_command L c (RemoveKey kid) = trust_remove_key L (Inr c) kid"

inductive trust_step :: "libs \<Rightarrow> string set \<Rightarrow> trust_config \<Rightarrow> trust_config \<Rightarrow> bool"
  for L removed where
  saved: "\<lbrakk>run_command L c cmd = (code, Some c'); \<forall>kid. cmd = RemoveKey kid \<longrightarrow> normalize_key_id kid \<in> removed\<rbrakk>
    \<Longrightarrow> trust_step L removed c c'"
| failed: "run_command L c cmd = (code, None) \<Longrightarrow> trust_step L removed c c"

inductive_cases trust_stepE: "trust_step L removed c c'"

lemma command_result_Some: "command_result r = (code, Some c) \<longleftrightarrow> r = Inr c \<and> code = exit_ok"
  by (cases r) (auto simp: command_result_def)

lemma find_key_InrD: "find_key c kid = Inr k \<Longrightarrow> k \<in> set (tr_keys c) \<and> tk_key_id k = normalize_key_id kid"
proof -
  assume "find_key c kid = Inr k"
  then have "k \<in> set (filter (\<lambda>k. tk_key_id k = normalize_key_id kid) (tr_keys c))"
    by (simp only: find_key_def split: list.splits) (auto simp: list.set_intros(1))
  then show ?thesis by simp
qed

text \<open>
  What a command keeps of an entry whatever pydantic makes of its timestamps: the fingerprint and the status.
\<close>

definition standing :: "trusted_key \<Rightarrow> string \<times> key_status" where
  "standing k = (tk_key_id k, tk_status k)"

lemma entry_of_json_valid: "entry_of_json L j = Some k \<Longrightarrow> valid_entry k"
  by (auto simp: entry_of_json_def validate_entry_Inr_iff split: json.splits if_splits option.splits sum.splits)

lemma entry_of_json_standing:
  assumes "entry_of_json L (JObj d) = Some k" and "str_field d ''key_id'' None = Some kid" and "is_sha256_hex kid"
    and "enum_field key_statuses d ''status'' (Some ActiveKey) = Some st"
  shows "standing k = (kid, st)"
  using assms
  by (auto simp: entry_of_json_def validate_entry_Inr_iff standing_def normalize_hex split: if_splits option.splits sum.splits)

lemma entry_dump_standing:
  assumes "entry_of_json L (entry_dump L k) = Some k'" and "is_sha256_hex (tk_key_id k)"
  shows "standing k' = standing k"
proof -
  obtain d where d: "entry_dump L k = JObj d" "dumped (entry_fields L k) d"
    by (rule dumped_with_nulls [of "entry_dump L k" "entry_fields L k"]) (simp_all add: entry_dump_def entry_fields_def)
  have "str_field d ''key_id'' None = Some (tk_key_id k)" by (rule str_field_dumped [OF d(2)]) (simp add: entry_fields_def)
  moreover have "enum_field key_statuses d ''status'' (Some ActiveKey) = Some (tk_status k)"
    by (rule status_dumped [OF d(2)]) (simp add: entry_fields_def)
  ultimately show ?thesis using entry_of_json_standing [OF assms(1) [unfolded d(1)]] assms(2) by (simp add: standing_def)
qed

lemma updated_entry_standing:
  assumes "updated_entry L current ((''status'', Some (JStr (status_value st))) # rest) = Inr u" and "''status'' \<notin> fst ` set rest"
    and "''key_id'' \<notin> fst ` set rest" and "is_sha256_hex (tk_key_id current)"
  shows "valid_entry u \<and> standing u = (tk_key_id current, st)"
proof -
  obtain base where b: "drop_none (entry_fields L current) = JObj base" "dumped (entry_fields L current) base"
    by (rule dumped_drop_none [of "drop_none (entry_fields L current)" "entry_fields L current"]) (simp_all add: entry_fields_def)
  have keep: "map_of (foldl override d fs) k = map_of d k" if "k \<notin> fst ` set fs" for d fs k
    using that by (induction fs arbitrary: d) (auto simp: override_def update_conv' delete_conv' split: option.splits)
  let ?d = "foldl override base ((''status'', Some (JStr (status_value st))) # rest)"
  have e: "entry_of_json L (JObj ?d) = Some u"
    using assms(1) by (auto simp: updated_entry_def b(1) validated_entry_def split: option.splits)
  have "str_field base ''key_id'' None = Some (tk_key_id current)" by (rule str_field_dumped [OF b(2)]) (simp add: entry_fields_def)
  then have k: "str_field ?d ''key_id'' None = Some (tk_key_id current)"
    using assms(3) by (simp add: str_field_def keep override_def update_conv')
  have "map_of ?d ''status'' = Some (JStr (status_value st))" using assms(2) by (simp add: keep override_def update_conv')
  then have "enum_field key_statuses ?d ''status'' (Some ActiveKey) = Some st"
    by (cases st) (simp_all add: enum_field_def key_statuses_def)
  then show ?thesis using entry_of_json_standing [OF e k assms(4)] entry_of_json_valid [OF e] by blast
qed

lemma validated_config_standing:
  assumes "validated_config L v (map (entry_dump L) ks) = Inr c" and "list_all valid_entry ks"
  shows "valid_config c \<and> standing ` set (tr_keys c) = standing ` set ks"
proof -
  obtain ks' where k: "those (map (entry_of_json L) (map (entry_dump L) ks)) = Some ks'" "distinct (map tk_key_id ks')" "tr_keys c = ks'"
    using assms(1) by (auto simp: validated_config_eq make_trust_config_Inr_iff split: option.splits)
  have "list_all valid_entry ks' \<and> map standing ks' = map standing ks"
    using k(1) assms(2)
  proof (induction ks arbitrary: ks')
    case (Cons k ks)
    then obtain k' rest where r: "ks' = k' # rest" "entry_of_json L (entry_dump L k) = Some k'"
        "those (map (entry_of_json L) (map (entry_dump L) ks)) = Some rest"
      by (auto split: option.splits)
    moreover have "is_sha256_hex (tk_key_id k)" using Cons.prems(2) by (simp add: valid_entry_def)
    ultimately show ?case
      using Cons.IH [OF r(3)] Cons.prems(2) entry_dump_standing entry_of_json_valid [OF r(2)] by simp
  qed simp
  then show ?thesis using k by (simp add: valid_config_def flip: set_map)
qed

lemma loaded_config_valid: "load_trust_config_file L nd = Inr c \<Longrightarrow> valid_config c"
proof -
  have "list_all valid_entry ks" if "those (map (entry_of_json L) vs) = Some ks" for vs ks
    using that by (induction vs arbitrary: ks) (auto split: option.splits dest: entry_of_json_valid)
  then show "load_trust_config_file L nd = Inr c \<Longrightarrow> valid_config c"
    by (auto simp: load_trust_config_file_def trust_config_of_json_def list_field_def make_trust_config_Inr_iff valid_config_def
        split: sum.splits if_splits option.splits json.splits)
qed

text \<open>The file has a valid configuration in which the key is present and not active.\<close>

definition inactive :: "string \<Rightarrow> trust_config \<Rightarrow> bool" where
  "inactive fp c \<longleftrightarrow> valid_config c \<and> (\<exists>k \<in> set (tr_keys c). tk_key_id k = fp \<and> tk_status k \<noteq> ActiveKey)"

lemma inactive_standing: "inactive fp c \<longleftrightarrow> valid_config c \<and> (\<exists>st. st \<noteq> ActiveKey \<and> (fp, st) \<in> standing ` set (tr_keys c))"
  by (force simp: inactive_def standing_def)

lemma replace_key_standing:
  assumes "replace_key L c kid u = Inr c'" and "valid_config c" and "\<And>x. u = Some x \<Longrightarrow> valid_entry x"
  shows "valid_config c'
    \<and> standing ` set (tr_keys c') = standing ` ({k \<in> set (tr_keys c). tk_key_id k \<noteq> normalize_key_id kid} \<union> set_option u)"
proof -
  let ?ks = "filter (\<lambda>k. tk_key_id k \<noteq> normalize_key_id kid) (tr_keys c) @ (case u of None \<Rightarrow> [] | Some x \<Rightarrow> [x])"
  have "validated_config L (tr_version c) (map (entry_dump L) ?ks) = Inr c'"
    using assms(1) by (auto simp: replace_key_def Let_def split: if_splits option.splits)
  moreover have "list_all valid_entry ?ks"
    using assms(2,3) by (auto simp: valid_config_def list_all_iff split: option.splits)
  ultimately have "valid_config c' \<and> standing ` set (tr_keys c') = standing ` set ?ks" by (rule validated_config_standing)
  then show ?thesis by (cases u) auto
qed

lemma replaced_inactive:
  assumes "inactive fp c" and "replace_key L c kid u = Inr c'"
    and "\<And>x. u = Some x \<Longrightarrow> valid_entry x \<and> fst (standing x) = normalize_key_id kid \<and> snd (standing x) \<noteq> ActiveKey"
    and "u = None \<Longrightarrow> fp \<noteq> normalize_key_id kid"
  shows "inactive fp c'"
proof -
  let ?ks = "{k \<in> set (tr_keys c). tk_key_id k \<noteq> normalize_key_id kid} \<union> set_option u"
  have "valid_config c" using assms(1) by (simp add: inactive_def)
  then have c': "valid_config c'" "standing ` set (tr_keys c') = standing ` ?ks"
    using replace_key_standing [OF assms(2)] assms(3) by blast+
  obtain k where k: "k \<in> set (tr_keys c)" "tk_key_id k = fp" "tk_status k \<noteq> ActiveKey"
    using assms(1) by (auto simp: inactive_def)
  have "\<exists>x \<in> ?ks. fst (standing x) = fp \<and> snd (standing x) \<noteq> ActiveKey"
  proof (cases "fp = normalize_key_id kid")
    case True
    then obtain x where "u = Some x" using assms(4) by auto
    then show ?thesis using assms(3) True by auto
  next
    case False
    then show ?thesis using k by (intro bexI [of _ k]) (auto simp: standing_def)
  qed
  then show ?thesis unfolding inactive_standing c'(2) using c'(1) by (force simp: image_iff)
qed

text \<open>Revoking leaves the key in the file, revoked.\<close>

lemma revoked_inactive:
  assumes "revoke_key_body L (Inr c) kid = Inr (u, c')" and "valid_config c"
  shows "inactive (normalize_key_id kid) c'"
proof -
  obtain current where f: "find_key c kid = Inr current"
      and u: "updated_entry L current ((''status'', Some (JStr (status_value RevokedKey))) # []) = Inr u"
      and r: "replace_key L c kid (Some u) = Inr c'"
    using assms(1) by (auto simp: revoke_key_body_def map_sum_Inr_iff split: sum.splits)
  have k: "tk_key_id current = normalize_key_id kid" "is_sha256_hex (tk_key_id current)"
    using find_key_InrD [OF f] assms(2) by (auto simp: valid_config_def list_all_iff valid_entry_def)
  have "valid_entry u \<and> standing u = (normalize_key_id kid, RevokedKey)"
    using updated_entry_standing [OF u _ _ k(2)] by (simp add: k(1))
  then show ?thesis using replace_key_standing [OF r assms(2)] unfolding inactive_standing by force
qed

lemma inactive_step:
  assumes "trust_step L removed c c'" and "fp \<notin> removed" and "inactive fp c"
  shows "inactive fp c'"
  using assms(1)
proof cases
  case (saved cmd code)
  have v: "valid_config c" using assms(3) by (simp add: inactive_def)
  have hex: "is_sha256_hex (tk_key_id k)" "tk_key_id k = normalize_key_id kid" if "find_key c kid = Inr k" for k kid
    using find_key_InrD [OF that] v by (auto simp: valid_config_def list_all_iff valid_entry_def)
  show ?thesis
  proof (cases cmd)
    case (AddKey ko)
    obtain entry where e: "valid_entry entry"
        "validated_config L (tr_version c) (map (entry_dump L) (tr_keys c @ [entry])) = Inr c'"
      using saved(1)
      by (auto simp: AddKey trust_add_key_def add_key_body_def map_sum_Inr_iff command_result_Some load_or_init_trust_config_def
          validated_entry_def dest: entry_of_json_valid split: sum.splits option.splits)
    then have "valid_config c' \<and> standing ` set (tr_keys c') = standing ` set (tr_keys c @ [entry])"
      using v by (intro validated_config_standing) (simp_all add: valid_config_def)
    then show ?thesis using assms(3) by (auto simp: inactive_standing)
  next
    case (RetireKey kid na)
    then obtain current na' u where f: "find_key c kid = Inr current"
        and u: "updated_entry L current ((''status'', Some (JStr (status_value RetiredKey))) # [(''not_after'', na')]) = Inr u"
        and r: "replace_key L c kid (Some u) = Inr c'"
      using saved(1) by (auto simp: trust_retire_key_def retire_key_body_def map_sum_Inr_iff command_result_Some split: sum.splits)
    from updated_entry_standing [OF u _ _ hex(1) [OF f]] show ?thesis
      by (intro replaced_inactive [OF assms(3) r]) (simp_all add: hex(2) [OF f])
  next
    case (RevokeKey kid)
    then obtain current u where f: "find_key c kid = Inr current"
        and u: "updated_entry L current ((''status'', Some (JStr (status_value RevokedKey))) # []) = Inr u"
        and r: "replace_key L c kid (Some u) = Inr c'"
      using saved(1) by (auto simp: trust_revoke_key_def revoke_key_body_def map_sum_Inr_iff command_result_Some split: sum.splits)
    from updated_entry_standing [OF u _ _ hex(1) [OF f]] show ?thesis
      by (intro replaced_inactive [OF assms(3) r]) (simp_all add: hex(2) [OF f])
  next
    case (RemoveKey kid)
    then have "replace_key L c kid None = Inr c'" "fp \<noteq> normalize_key_id kid"
      using saved assms(2) by (auto simp: trust_remove_key_def remove_key_body_def command_result_Some)
    then show ?thesis by (intro replaced_inactive [OF assms(3), where u = None]) auto
  qed
qed (use assms(3) in simp)

lemma inactive_run: "(trust_step L removed)\<^sup>*\<^sup>* c c' \<Longrightarrow> fp \<notin> removed \<Longrightarrow> inactive fp c \<Longrightarrow> inactive fp c'"
  by (induction rule: rtranclp_induct) (use inactive_step in blast)+

lemma inactive_untrusted:
  assumes "k \<in> set (tr_keys c)" and "tk_key_id k = fp" and "tk_status k \<noteq> ActiveKey" and "distinct (map tk_key_id (tr_keys c))"
  shows "\<not> te_trusted (evaluate_trust fp algorithm c identity model_id clock)"
proof -
  have "k' = k" if "k' \<in> set (tr_keys c)" "tk_key_id k' = fp" for k'
    using that assms(1,2,4) by (auto simp: distinct_map dest: inj_onD)
  then show ?thesis unfolding trusted_iff [OF assms(4)] trust_reasons_Nil_iff using assms(3) by blast
qed

text \<open>
  C29. Revocation and retirement are final: whatever \<open>trust\<close> commands run on the file, a key that is
  revoked or retired is never trusted again at any time, unless its entry is removed.
\<close>

theorem inactive_key_never_trusted_again:
  assumes "(trust_step L removed)\<^sup>*\<^sup>* c c'" and "fp \<notin> removed" and "inactive fp c"
  shows "\<not> te_trusted (evaluate_trust fp algorithm c' identity model_id clock)"
  using inactive_run [OF assms] inactive_untrusted by (auto simp: inactive_def valid_config_def)

theorem inactive_key_never_trusted_again_witness:
  "\<exists>c'. (trust_step sample_libs {})\<^sup>*\<^sup>* \<lparr>tr_version = ''1'', tr_keys = [(trusted_entry sample_fingerprint)\<lparr>tk_status := RevokedKey\<rparr>]\<rparr> c'
     \<and> \<not> te_trusted (evaluate_trust sample_fingerprint ''ed25519'' c' None None 0)"
proof -
  let ?c = "\<lparr>tr_version = ''1'', tr_keys = [(trusted_entry sample_fingerprint)\<lparr>tk_status := RevokedKey\<rparr>]\<rparr>"
  have s: "(trust_step sample_libs {})\<^sup>*\<^sup>* ?c ?c" by simp
  have "inactive sample_fingerprint ?c"
    by (simp add: inactive_def valid_config_def trusted_entry_def valid_entry_def sample_fingerprint_hex opt_all_def
        max_scope_patterns_def)
  from inactive_key_never_trusted_again [OF s _ this] s show ?thesis by blast
qed

end
