(* ===== verification/Policy.thy ===== *)
theory Policy
  imports Signing
begin

text \<open>
  \<open>policy/models.py\<close>, \<open>policy/engine.py\<close> and \<open>policy/loader.py\<close>: policies, their evaluation and
  their loading.  A rule's message is a constructor carrying the values the text interpolates.  The
  theorems say that the decision is the most severe one triggered, that a digest mismatch always
  denies and an enforced revocation always yields \<open>REVOKED\<close>, that a stricter policy never decides
  more leniently, and what a policy file must look like to be loaded.
\<close>

section \<open>Decisions and documents\<close>

datatype decision = ALLOW | ALLOW_WITH_WARNINGS | REVIEW_REQUIRED | QUARANTINE | DENY | REVOKED

fun severity :: "decision \<Rightarrow> nat" where
  "severity ALLOW = 0"
| "severity ALLOW_WITH_WARNINGS = 1"
| "severity REVIEW_REQUIRED = 2"
| "severity QUARANTINE = 3"
| "severity DENY = 4"
| "severity REVOKED = 5"

fun decision_value :: "decision \<Rightarrow> string" where
  "decision_value ALLOW = ''ALLOW''"
| "decision_value ALLOW_WITH_WARNINGS = ''ALLOW_WITH_WARNINGS''"
| "decision_value REVIEW_REQUIRED = ''REVIEW_REQUIRED''"
| "decision_value QUARANTINE = ''QUARANTINE''"
| "decision_value DENY = ''DENY''"
| "decision_value REVOKED = ''REVOKED''"

definition is_allowed :: "decision \<Rightarrow> bool" where
  "is_allowed d \<longleftrightarrow> d = ALLOW \<or> d = ALLOW_WITH_WARNINGS"

text \<open>Decisions are ordered by severity.\<close>

instantiation decision :: linorder
begin

definition less_eq_decision :: "decision \<Rightarrow> decision \<Rightarrow> bool" where
  "less_eq_decision a b \<longleftrightarrow> severity a \<le> severity b"

definition less_decision :: "decision \<Rightarrow> decision \<Rightarrow> bool" where
  "less_decision a b \<longleftrightarrow> severity a < severity b"

instance
proof
  fix a b :: decision
  show "a \<le> b \<Longrightarrow> b \<le> a \<Longrightarrow> a = b" by (cases a; cases b) (simp_all add: less_eq_decision_def)
qed (auto simp: less_eq_decision_def less_decision_def)

end

datatype rule_action = Warn | Review | Quarantine | Deny

fun action_value :: "rule_action \<Rightarrow> string" where
  "action_value Warn = ''warn''"
| "action_value Review = ''review''"
| "action_value Quarantine = ''quarantine''"
| "action_value Deny = ''deny''"

fun action_to_decision :: "rule_action \<Rightarrow> decision" where
  "action_to_decision Warn = ALLOW_WITH_WARNINGS"
| "action_to_decision Review = REVIEW_REQUIRED"
| "action_to_decision Quarantine = QUARANTINE"
| "action_to_decision Deny = DENY"

record rule_config =
  rc_enabled :: bool
  rc_on_fail :: rule_action
  rc_max_count :: int

record policy_document =
  pd_version :: string
  pd_name :: string
  pd_environment :: "string option"
  pd_rules :: "rule_config dict"

datatype rule_message =
    IntegrityBroken | NotConfigured
  | SignatureFound | NoSignature
  | NoTrustRoots | SignedByTrusted | SignerNotTrusted
  | BomMatches | NoBom
  | LineageDeclared | NoLineage
  | LicenseDeclared | NoLicense
  | NotRevoked | IsRevoked
  | NoScan string
  | WithinLimit string int int
  | ExceedsLimit string int int

record rule_result =
  rs_rule :: string
  rs_enabled :: bool
  rs_passed :: bool
  rs_action :: "rule_action option"
  rs_message :: rule_message

text \<open>The evaluation id and the timestamp are drawn from \<open>uuid4\<close> and the clock; they are left out.\<close>

record policy_decision_result =
  dr_decision :: decision
  dr_policy_name :: string
  dr_policy_version :: string
  dr_subject :: string
  dr_rule_results :: "rule_result list"

definition failed_rules :: "policy_decision_result \<Rightarrow> rule_result list" where
  "failed_rules r = filter (\<lambda>x. rs_enabled x \<and> \<not> rs_passed x) (dr_rule_results r)"

text \<open>\<open>explain\<close>: the subject and the decision, then the failed rules with their messages.\<close>

definition explain :: "policy_decision_result \<Rightarrow> (string \<times> decision) \<times> (string \<times> rule_message) list" where
  "explain r =
     (if is_allowed (dr_decision r) \<and> failed_rules r = [] then ((dr_subject r, dr_decision r), [])
      else ((dr_subject r, dr_decision r), map (\<lambda>x. (rs_rule x, rs_message x)) (failed_rules r)))"

section \<open>The context\<close>

record policy_context =
  cx_subject :: string
  cx_signature_valid :: bool
  cx_mbom_valid :: bool
  cx_revoked :: bool
  cx_has_license :: bool
  cx_has_declared_lineage :: bool
  cx_scan_performed :: bool
  cx_critical_finding_count :: int
  cx_high_finding_count :: int
  cx_artifact_digest_matches :: "bool option"
  cx_signer_trusted :: "bool option"

definition name_or_unknown :: "string option \<Rightarrow> string" where
  "name_or_unknown s = the (or_str s (Some ''unknown''))"

definition build_context ::
    "manifest \<Rightarrow> mlbom \<Rightarrow> bool \<Rightarrow> bool \<Rightarrow> bool \<Rightarrow> bool \<Rightarrow> bool \<Rightarrow> int \<Rightarrow> int \<Rightarrow> bool option \<Rightarrow> policy_context" where
  "build_context m b signature_valid mbom_valid revoked artifact_digest_matches scan_performed
      critical_finding_count high_finding_count signer_trusted =
     \<lparr>cx_subject = name_or_unknown (m_model_id m) @ ''@'' @ name_or_unknown (m_version m),
      cx_signature_valid = signature_valid, cx_mbom_valid = mbom_valid, cx_revoked = revoked,
      cx_has_license = (truthy (m_license m) \<or> mp_license (b_modelguard b) \<noteq> None),
      cx_has_declared_lineage = (mp_parent_models (b_modelguard b) \<noteq> []),
      cx_scan_performed = scan_performed, cx_critical_finding_count = critical_finding_count,
      cx_high_finding_count = high_finding_count,
      cx_artifact_digest_matches = Some artifact_digest_matches, cx_signer_trusted = signer_trusted\<rparr>"

section \<open>The rules\<close>

type_synonym rule_check = "policy_context \<Rightarrow> rule_config \<Rightarrow> bool \<times> rule_message"

definition check_require_valid_signature :: rule_check where
  "check_require_valid_signature ctx config = (if cx_signature_valid ctx then (True, SignatureFound) else (False, NoSignature))"

definition check_require_trusted_signer :: rule_check where
  "check_require_trusted_signer ctx config =
     (case cx_signer_trusted ctx of
        None \<Rightarrow> (False, NoTrustRoots)
      | Some t \<Rightarrow> if t then (True, SignedByTrusted) else (False, SignerNotTrusted))"

definition check_require_ml_bom :: rule_check where
  "check_require_ml_bom ctx config = (if cx_mbom_valid ctx then (True, BomMatches) else (False, NoBom))"

definition check_require_known_lineage :: rule_check where
  "check_require_known_lineage ctx config =
     (if cx_has_declared_lineage ctx then (True, LineageDeclared) else (False, NoLineage))"

definition check_require_license :: rule_check where
  "check_require_license ctx config = (if cx_has_license ctx then (True, LicenseDeclared) else (False, NoLicense))"

definition check_reject_revoked_models :: rule_check where
  "check_reject_revoked_models ctx config = (if \<not> cx_revoked ctx then (True, NotRevoked) else (False, IsRevoked))"

definition check_max_findings :: "string \<Rightarrow> (policy_context \<Rightarrow> int) \<Rightarrow> rule_check" where
  "check_max_findings level count_of ctx config =
     (if \<not> cx_scan_performed ctx then (False, NoScan level)
      else if count_of ctx \<le> rc_max_count config then (True, WithinLimit level (count_of ctx) (rc_max_count config))
      else (False, ExceedsLimit level (count_of ctx) (rc_max_count config)))"

definition check_max_critical_findings :: rule_check where
  "check_max_critical_findings = check_max_findings ''CRITICAL'' cx_critical_finding_count"

definition check_max_high_findings :: rule_check where
  "check_max_high_findings = check_max_findings ''HIGH'' cx_high_finding_count"

definition revocation_rule :: string where
  "revocation_rule = ''reject_revoked_models''"

definition rule_checks :: "(string \<times> rule_check) list" where
  "rule_checks =
     [(''require_valid_signature'', check_require_valid_signature),
      (''require_trusted_signer'', check_require_trusted_signer),
      (''require_ml_bom'', check_require_ml_bom),
      (''require_known_lineage'', check_require_known_lineage),
      (''require_license'', check_require_license),
      (revocation_rule, check_reject_revoked_models),
      (''max_critical_findings'', check_max_critical_findings),
      (''max_high_findings'', check_max_high_findings)]"

definition known_rule_names :: "string list" where
  "known_rule_names =
     [''require_valid_signature'', ''require_trusted_signer'', ''require_ml_bom'', ''require_known_lineage'',
      ''require_license'', ''reject_revoked_models'', ''max_critical_findings'', ''max_high_findings'']"

section \<open>Evaluation\<close>

definition triggered :: "string \<Rightarrow> rule_config \<Rightarrow> decision" where
  "triggered name config =
     (if name = revocation_rule then REVOKED else action_to_decision (rc_on_fail config))"

text \<open>The loop over the rules, with the results and the decision so far.\<close>

fun evaluate_rules ::
    "policy_context \<Rightarrow> policy_document \<Rightarrow> (string \<times> rule_check) list \<Rightarrow> rule_result list \<Rightarrow> decision
       \<Rightarrow> rule_result list \<times> decision" where
  "evaluate_rules ctx policy [] results d = (results, d)"
| "evaluate_rules ctx policy ((name, check) # rules) results d =
     (case map_of (pd_rules policy) name of
        None \<Rightarrow> evaluate_rules ctx policy rules
          (results @ [\<lparr>rs_rule = name, rs_enabled = False, rs_passed = True, rs_action = None, rs_message = NotConfigured\<rparr>]) d
      | Some config \<Rightarrow>
          if \<not> rc_enabled config then evaluate_rules ctx policy rules
            (results @ [\<lparr>rs_rule = name, rs_enabled = False, rs_passed = True, rs_action = None, rs_message = NotConfigured\<rparr>]) d
          else
            (case check ctx config of
               (passed, message) \<Rightarrow>
                 let results' = results @ [\<lparr>rs_rule = name, rs_enabled = True, rs_passed = passed,
                       rs_action = Some (rc_on_fail config), rs_message = message\<rparr>]
                 in if passed then evaluate_rules ctx policy rules results' d
                    else evaluate_rules ctx policy rules results'
                      (if severity (triggered name config) > severity d then triggered name config else d)))"

definition integrity_result :: rule_result where
  "integrity_result = \<lparr>rs_rule = ''artifact_integrity'', rs_enabled = True, rs_passed = False,
     rs_action = Some Deny, rs_message = IntegrityBroken\<rparr>"

definition evaluate :: "policy_context \<Rightarrow> policy_document \<Rightarrow> policy_decision_result" where
  "evaluate ctx policy =
     (let start = (if cx_artifact_digest_matches ctx = Some False then ([integrity_result], DENY) else ([], ALLOW))
      in case evaluate_rules ctx policy rule_checks (fst start) (snd start) of
           (results, d) \<Rightarrow>
             \<lparr>dr_decision = d, dr_policy_name = pd_name policy, dr_policy_version = pd_version policy,
              dr_subject = cx_subject ctx, dr_rule_results = results\<rparr>)"

section \<open>The most severe decision\<close>

text \<open>The decisions of the rules that are enabled and fail.\<close>

definition failures :: "policy_context \<Rightarrow> policy_document \<Rightarrow> (string \<times> rule_check) list \<Rightarrow> decision set" where
  "failures ctx policy rules =
     {triggered name config | name check config. (name, check) \<in> set rules \<and> map_of (pd_rules policy) name = Some config
        \<and> rc_enabled config \<and> \<not> fst (check ctx config)}"

lemma failures_Cons:
  "failures ctx policy ((name, check) # rules) =
     (case map_of (pd_rules policy) name of
        None \<Rightarrow> {} | Some config \<Rightarrow> if rc_enabled config \<and> \<not> fst (check ctx config) then {triggered name config} else {})
     \<union> failures ctx policy rules"
  by (auto simp: failures_def split: option.splits)

lemma failures_Nil [simp]: "failures ctx policy [] = {}"
  by (simp add: failures_def)

lemma finite_failures [simp]: "finite (failures ctx policy rules)"
  by (induction rules) (auto simp: failures_Cons split: option.splits)

lemma evaluate_rules_max:
  "snd (evaluate_rules ctx policy rules results d) = Max (insert d (failures ctx policy rules))"
proof (induction rules arbitrary: results d)
  case (Cons rule rules)
  obtain name check where r: "rule = (name, check)" by (cases rule)
  have m: "Max (insert (if severity t > severity d then t else d) F) = Max (insert d (insert t F))"
    if "finite F" for t and F :: "decision set"
  proof -
    have "(if severity t > severity d then t else d) = max d t"
      by (cases d; cases t) (simp_all add: max_def less_eq_decision_def)
    moreover have "Max (insert (max d t) F) = Max (insert d (insert t F))"
      using that by (cases "F = {}") (auto simp: max.assoc)
    ultimately show ?thesis by simp
  qed
  show ?case
    by (cases "map_of (pd_rules policy) name"; cases "check ctx (the (map_of (pd_rules policy) name))")
      (auto simp: r failures_Cons Cons.IH Let_def m)
qed simp

lemma evaluate_decision:
  "dr_decision (evaluate ctx policy) =
     Max (insert (if cx_artifact_digest_matches ctx = Some False then DENY else ALLOW) (failures ctx policy rule_checks))"
  by (simp add: evaluate_def Let_def case_prod_unfold evaluate_rules_max)

lemma decision_least [simp]: "ALLOW \<le> d"
  by (simp add: less_eq_decision_def)

lemma decision_greatest [simp]: "d \<le> REVOKED"
  by (cases d) (simp_all add: less_eq_decision_def)

lemma failure_decision: "d \<in> failures ctx policy rule_checks \<Longrightarrow> d \<le> dr_decision (evaluate ctx policy)"
  by (simp add: evaluate_decision)

lemma not_allowed_mono: "d \<le> d' \<Longrightarrow> \<not> is_allowed d \<Longrightarrow> \<not> is_allowed d'"
  by (cases d; cases d') (simp_all add: less_eq_decision_def is_allowed_def)

text \<open>A failing rule whose action refuses is enough to refuse.\<close>

lemma failing_rule_refuses:
  assumes "(name, check) \<in> set rule_checks" and "map_of (pd_rules policy) name = Some config" and "rc_enabled config"
    and "\<not> fst (check ctx config)" and "\<not> is_allowed (triggered name config)"
  shows "\<not> is_allowed (dr_decision (evaluate ctx policy))"
proof -
  have "triggered name config \<in> failures ctx policy rule_checks" using assms unfolding failures_def by blast
  then show ?thesis using failure_decision not_allowed_mono assms(5) by blast
qed

text \<open>
  C30. The decision is the most severe one triggered: by the integrity gate or by a rule that is
  enabled and fails, and \<open>ALLOW\<close> if there is none; the order of the rules does not matter.
\<close>

theorem decision_most_severe:
  "let candidates = insert (if cx_artifact_digest_matches ctx = Some False then DENY else ALLOW) (failures ctx policy rule_checks)
   in dr_decision (evaluate ctx policy) \<in> candidates
    \<and> (\<forall>d. d \<in> candidates \<longrightarrow> severity d \<le> severity (dr_decision (evaluate ctx policy)))"
proof -
  let ?c = "insert (if cx_artifact_digest_matches ctx = Some False then DENY else ALLOW) (failures ctx policy rule_checks)"
  have "Max ?c \<in> ?c" by (rule Max_in) simp_all
  moreover have "d \<le> Max ?c" if "d \<in> ?c" for d using that by (intro Max_ge) simp_all
  ultimately show ?thesis unfolding Let_def evaluate_decision by (simp add: less_eq_decision_def)
qed

definition warn_policy :: policy_document where
  "warn_policy = \<lparr>pd_version = ''1'', pd_name = ''p'', pd_environment = None,
     pd_rules = [(revocation_rule, \<lparr>rc_enabled = True, rc_on_fail = Warn, rc_max_count = 0\<rparr>)]\<rparr>"

definition sample_context :: "bool \<Rightarrow> bool option \<Rightarrow> policy_context" where
  "sample_context revoked matches = \<lparr>cx_subject = ''demo@1'', cx_signature_valid = True, cx_mbom_valid = True,
     cx_revoked = revoked, cx_has_license = True, cx_has_declared_lineage = True, cx_scan_performed = True,
     cx_critical_finding_count = 0, cx_high_finding_count = 0, cx_artifact_digest_matches = matches,
     cx_signer_trusted = Some True\<rparr>"

theorem decision_most_severe_witness:
  "dr_decision (evaluate (sample_context True None) warn_policy)
     \<in> insert ALLOW (failures (sample_context True None) warn_policy rule_checks)"
  using decision_most_severe [of "sample_context True None" warn_policy] by (simp add: Let_def sample_context_def)

text \<open>
  No policy admits an artifact that does not match its signed digest: whatever its rules, the
  decision is \<open>DENY\<close> or \<open>REVOKED\<close>.
\<close>

theorem integrity_gate_unconditional:
  assumes "cx_artifact_digest_matches ctx = Some False"
  shows "DENY \<le> dr_decision (evaluate ctx policy) \<and> \<not> is_allowed (dr_decision (evaluate ctx policy))"
proof -
  have "DENY \<le> dr_decision (evaluate ctx policy)" using assms by (simp add: evaluate_decision)
  then show ?thesis
    by (cases "dr_decision (evaluate ctx policy)") (simp_all add: less_eq_decision_def is_allowed_def)
qed

theorem integrity_gate_unconditional_witness:
  "DENY \<le> dr_decision (evaluate (sample_context False (Some False)) warn_policy)"
  using integrity_gate_unconditional [of "sample_context False (Some False)" warn_policy] by (simp add: sample_context_def)

text \<open>
  When the revocation rule is enabled, a revoked model is decided \<open>REVOKED\<close>, whatever action the
  policy gives the rule and whatever the other rules decide.
\<close>

theorem revoked_always_rejected:
  assumes "cx_revoked ctx" and "map_of (pd_rules policy) revocation_rule = Some config" and "rc_enabled config"
  shows "dr_decision (evaluate ctx policy) = REVOKED"
proof -
  have "REVOKED \<in> failures ctx policy rule_checks"
    using assms unfolding failures_def
    by (auto simp: rule_checks_def triggered_def check_reject_revoked_models_def
        intro!: exI [of _ revocation_rule] exI [of _ check_reject_revoked_models] exI [of _ config])
  then have "REVOKED \<le> dr_decision (evaluate ctx policy)" by (rule failure_decision)
  then show ?thesis by (cases "dr_decision (evaluate ctx policy)") (simp_all add: less_eq_decision_def)
qed

theorem revoked_always_rejected_witness:
  "dr_decision (evaluate (sample_context True (Some True)) warn_policy) = REVOKED"
  by (rule revoked_always_rejected [where config = "\<lparr>rc_enabled = True, rc_on_fail = Warn, rc_max_count = 0\<rparr>"])
    (simp_all add: sample_context_def warn_policy_def)

text \<open>One configuration of a rule is at least as strict as another, and so for policies.\<close>

definition stricter_config :: "rule_config \<Rightarrow> rule_config \<Rightarrow> bool" where
  "stricter_config c c' \<longleftrightarrow> (rc_enabled c \<longrightarrow> rc_enabled c'
     \<and> action_to_decision (rc_on_fail c) \<le> action_to_decision (rc_on_fail c') \<and> rc_max_count c' \<le> rc_max_count c)"

definition stricter :: "policy_document \<Rightarrow> policy_document \<Rightarrow> bool" where
  "stricter p q \<longleftrightarrow> (\<forall>name c. map_of (pd_rules p) name = Some c \<longrightarrow>
     (\<exists>c'. map_of (pd_rules q) name = Some c' \<and> stricter_config c c') \<or> \<not> rc_enabled c)"

lemma check_antimono:
  assumes "(name, check) \<in> set rule_checks" and "\<not> fst (check ctx c)" and "rc_max_count c' \<le> rc_max_count c"
  shows "\<not> fst (check ctx c')"
  using assms
  by (auto simp: rule_checks_def check_require_valid_signature_def check_require_trusted_signer_def
      check_require_ml_bom_def check_require_known_lineage_def check_require_license_def
      check_reject_revoked_models_def check_max_critical_findings_def check_max_high_findings_def check_max_findings_def
      split: option.splits if_splits)

text \<open>
  A stricter policy never decides more leniently: enabling rules, raising their actions or
  lowering their limits cannot lower the decision.
\<close>

theorem stricter_policy_not_more_lenient:
  assumes "stricter p q"
  shows "severity (dr_decision (evaluate ctx p)) \<le> severity (dr_decision (evaluate ctx q))"
proof -
  have "\<exists>d' \<in> failures ctx q rule_checks. d \<le> d'" if d: "d \<in> failures ctx p rule_checks" for d
  proof -
    obtain name check c where c: "d = triggered name c" "(name, check) \<in> set rule_checks"
        "map_of (pd_rules p) name = Some c" "rc_enabled c" "\<not> fst (check ctx c)"
      using d unfolding failures_def by blast
    then obtain c' where c': "map_of (pd_rules q) name = Some c'" "rc_enabled c'"
        "action_to_decision (rc_on_fail c) \<le> action_to_decision (rc_on_fail c')" "rc_max_count c' \<le> rc_max_count c"
      using assms by (auto simp: stricter_def stricter_config_def)
    have "triggered name c' \<in> failures ctx q rule_checks"
      using c(2) c'(1,2) check_antimono [OF c(2,5) c'(4)] by (auto simp: failures_def)
    moreover have "d \<le> triggered name c'" using c(1) c'(3) by (simp add: triggered_def)
    ultimately show ?thesis by blast
  qed
  then have "dr_decision (evaluate ctx p) \<le> dr_decision (evaluate ctx q)"
    unfolding evaluate_decision
    by (subst Max_le_iff) (auto intro: order_trans [OF _ Max_ge] simp: Max_ge_iff)
  then show ?thesis by (simp add: less_eq_decision_def)
qed

theorem stricter_policy_not_more_lenient_witness:
  "severity (dr_decision (evaluate (sample_context True None) \<lparr>pd_version = ''1'', pd_name = ''e'', pd_environment = None, pd_rules = []\<rparr>))
     \<le> severity (dr_decision (evaluate (sample_context True None) warn_policy))"
  by (rule stricter_policy_not_more_lenient) (simp add: stricter_def)

section \<open>Loading\<close>

text \<open>\<open>RuleConfig\<close>, validated: a limit that is negative and a field it does not have are refused.\<close>

definition action_values :: "(string \<times> rule_action) list" where
  "action_values = map (\<lambda>a. (action_value a, a)) [Warn, Review, Quarantine, Deny]"

definition rule_config_of_json :: "libs \<Rightarrow> json \<Rightarrow> rule_config option" where
  "rule_config_of_json L j =
     (case j of
        JObj d \<Rightarrow>
          if \<not> known_members [''enabled'', ''on_fail'', ''max_count''] d then None
          else (case (bool_field L d ''enabled'' (Some True), enum_field action_values d ''on_fail'' (Some Deny),
                      int_field L d ''max_count'' (Some 0)) of
              (Some e, Some a, Some n) \<Rightarrow>
                if n \<ge> 0 then Some \<lparr>rc_enabled = e, rc_on_fail = a, rc_max_count = n\<rparr> else None
            | _ \<Rightarrow> None)
      | _ \<Rightarrow> None)"

text \<open>A YAML key that is not a string stands as the key of an unknown field or rule.\<close>

definition parse_policy_document :: "libs \<Rightarrow> json dict \<Rightarrow> exn + policy_document" where
  "parse_policy_document L raw =
     (if \<not> known_members [''version'', ''policy'', ''rules''] raw then Inl PolicyValidationError
      else case map_of raw ''policy'' of
        Some (JObj policy_section) \<Rightarrow>
          (case map_of policy_section ''name'' of
             None \<Rightarrow> Inl PolicyValidationError
           | Some name \<Rightarrow>
               (case (case map_of raw ''rules'' of None \<Rightarrow> JObj [] | Some r \<Rightarrow> r) of
                  JObj rules_section \<Rightarrow>
                    if \<not> known_members [''name'', ''environment''] policy_section then Inl PolicyValidationError
                    else (case find (\<lambda>(k, v). k \<notin> set known_rule_names) rules_section of
                        Some (k, _) \<Rightarrow> Inl (UnknownRuleError k)
                      | None \<Rightarrow>
                          (case (name, opt_field policy_section ''environment'',
                                 those (map (\<lambda>(k, v). map_option (Pair k) (rule_config_of_json L v)) rules_section)) of
                             (JStr n, Some env, Some rules) \<Rightarrow>
                               Inr \<lparr>pd_version = (case map_of raw ''version'' of None \<Rightarrow> ''1''
                                      | Some (JStr s) \<Rightarrow> s | Some v \<Rightarrow> lb_str L v),
                                    pd_name = n, pd_environment = env, pd_rules = rules\<rparr>
                           | _ \<Rightarrow> Inl PolicyValidationError))
                | _ \<Rightarrow> Inl PolicyValidationError))
      | _ \<Rightarrow> Inl PolicyValidationError)"

definition load_policy_file :: "libs \<Rightarrow> fs_node option \<Rightarrow> exn + policy_document" where
  "load_policy_file L nd =
     (if \<not> path_exists nd then Inl PolicyValidationError
      else (case read_file nd of
          Inl e \<Rightarrow> Inl e
        | Inr raw_bytes \<Rightarrow>
            (case utf8_decode raw_bytes of
               None \<Rightarrow> Inl UnicodeDecodeError
             | Some t \<Rightarrow>
                 (case lb_yaml L t of
                    Some (JObj d) \<Rightarrow> parse_policy_document L d
                  | _ \<Rightarrow> Inl PolicyValidationError))))"

lemma those_map_rules:
  "those (map (\<lambda>(k, v). map_option (Pair k) (f v)) kvs) = Some rules \<Longrightarrow>
     map fst rules = map fst kvs \<and> (\<forall>(k, c) \<in> set rules. \<exists>v. (k, v) \<in> set kvs \<and> f v = Some c)"
  by (induction kvs arbitrary: rules) (auto split: option.splits prod.splits, blast+)

lemma rule_limit_not_negative: "rule_config_of_json L v = Some c \<Longrightarrow> 0 \<le> rc_max_count c"
  by (auto simp: rule_config_of_json_def split: json.splits if_splits option.splits)


text \<open>
  Not every malformed policy file raises the documented error: one that is not UTF-8 makes
  \<open>load_policy_file\<close> raise \<open>UnicodeDecodeError\<close>, which no handler for \<open>ModelGuardError\<close> catches.
\<close>

theorem undecodable_policy_escapes:
  assumes "utf8_decode b = None"
  shows "load_policy_file L (Some (FFile b)) = Inl UnicodeDecodeError
    \<and> \<not> is_modelguard UnicodeDecodeError"
  using assms by (simp add: load_policy_file_def path_exists_def read_file_def is_modelguard_iff)

theorem undecodable_policy_escapes_witness:
  "load_policy_file sample_libs (Some (FFile [CHR 0xFF])) = Inl UnicodeDecodeError"
  using undecodable_policy_escapes [of "[CHR 0xFF]"] by simp

end
