(* ===== verification/Chain.thy ===== *)
theory Chain
  imports Hashing
begin

text \<open>
  \<open>audit/chain.py\<close>: the hash-chained JSON-lines log the audit log, the provenance store and
  the local registry's revocations are kept in.  A log file is its text, or \<open>None\<close> when there
  is no file.  The theorems say that appending refines appending to a list of records, that an
  appended log verifies, and which changes to a log verification detects: all of them but the
  removal of the last entries.

  A log line is JSON of any shape, so the members of an entry are JSON values.  A fractional
  \<open>index\<close>, which the module never writes, is outside the model (\<open>TypeError\<close>).
\<close>

section \<open>Data\<close>

definition genesis_hash :: string where
  "genesis_hash = replicate 64 (CHR ''0'')"

record chain_entry =
  ce_index :: json
  ce_record :: json
  ce_record_hash :: json
  ce_prev_hash :: json

type_synonym log_file = "string option"

section \<open>Operations\<close>

definition record_bytes :: "json \<Rightarrow> bytes" where
  "record_bytes r = utf8 (dumps r)"

text \<open>\<open>data["..."]\<close> on a parsed line.\<close>

definition json_item :: "json \<Rightarrow> string \<Rightarrow> exn + json" where
  "json_item v k =
     (case v of
        JObj kvs \<Rightarrow> (case map_of kvs k of None \<Rightarrow> Inl KeyError | Some x \<Rightarrow> Inr x)
      | _ \<Rightarrow> Inl TypeError)"

definition entry_of_line :: "string \<Rightarrow> exn + chain_entry" where
  "entry_of_line line =
     (case loads line of
        None \<Rightarrow> Inl JSONDecodeError
      | Some data \<Rightarrow>
          (case json_item data ''index'' of Inl e \<Rightarrow> Inl e | Inr i \<Rightarrow>
           (case json_item data ''record'' of Inl e \<Rightarrow> Inl e | Inr r \<Rightarrow>
            (case json_item data ''record_hash'' of Inl e \<Rightarrow> Inl e | Inr h \<Rightarrow>
             (case json_item data ''prev_hash'' of Inl e \<Rightarrow> Inl e | Inr p \<Rightarrow>
               Inr \<lparr>ce_index = i, ce_record = r, ce_record_hash = h, ce_prev_hash = p\<rparr>)))))"

text \<open>The lines \<open>for line in fh\<close> yields that are not blank: text mode turns every line end into \<open>\n\<close>.\<close>

fun universal_newlines :: "string \<Rightarrow> string" where
  "universal_newlines (c # d # ds) =
     (if c = CHR 0x0D
      then CHR 0x0A # (if d = CHR 0x0A then universal_newlines ds else universal_newlines (d # ds))
      else c # universal_newlines (d # ds))"
| "universal_newlines [c] = [if c = CHR 0x0D then CHR 0x0A else c]"
| "universal_newlines [] = []"

definition log_lines :: "string \<Rightarrow> string list" where
  "log_lines t = filter (\<lambda>l. py_strip l \<noteq> []) (split_on (CHR 0x0A) (universal_newlines t))"

definition read_last_entry :: "string \<Rightarrow> exn + chain_entry" where
  "read_last_entry t =
     (case rev (log_lines t) of
        [] \<Rightarrow> Inl (ChainIntegrityError (JInt 0))
      | l # _ \<Rightarrow> entry_of_line l)"

definition read_all_entries :: "log_file \<Rightarrow> exn + chain_entry list" where
  "read_all_entries f =
     (case f of None \<Rightarrow> Inr [] | Some t \<Rightarrow> map_result entry_of_line (log_lines t))"

definition index_succ :: "json \<Rightarrow> exn + json" where
  "index_succ i =
     (case i of JInt n \<Rightarrow> Inr (JInt (n + 1)) | JBool b \<Rightarrow> Inr (JInt (if b then 2 else 1)) | _ \<Rightarrow> Inl TypeError)"

definition entry_line :: "chain_entry \<Rightarrow> json" where
  "entry_line e =
     JObj [(''index'', ce_index e), (''prev_hash'', ce_prev_hash e),
           (''record_hash'', ce_record_hash e), (''record'', ce_record e)]"

definition last_link :: "log_file \<Rightarrow> exn + json \<times> json" where
  "last_link f =
     (case f of
        None \<Rightarrow> Inr (JStr genesis_hash, JInt 0)
      | Some t \<Rightarrow>
          if t = [] then Inr (JStr genesis_hash, JInt 0)
          else (case read_last_entry t of
              Inl e \<Rightarrow> Inl e
            | Inr prior \<Rightarrow>
                (case index_succ (ce_index prior) of
                   Inl e \<Rightarrow> Inl e
                 | Inr i \<Rightarrow> Inr (ce_record_hash prior, i))))"

definition append_entry :: "(bytes \<Rightarrow> string) \<Rightarrow> log_file \<Rightarrow> json \<Rightarrow> exn + string \<times> chain_entry" where
  "append_entry H f record =
     (case last_link f of
        Inl e \<Rightarrow> Inl e
      | Inr (prev_hash, index) \<Rightarrow>
          (case prev_hash of
             JStr prev \<Rightarrow>
               (let record_hash = H (record_bytes record @ utf8 prev);
                    entry = \<lparr>ce_index = index, ce_record = record,
                             ce_record_hash = JStr record_hash, ce_prev_hash = prev_hash\<rparr>
                in Inr ((case f of None \<Rightarrow> [] | Some t \<Rightarrow> t) @ dumps (entry_line entry) @ [CHR 0x0A], entry))
           | _ \<Rightarrow> Inl AttributeError))"

fun verify_entries :: "(bytes \<Rightarrow> string) \<Rightarrow> json \<Rightarrow> chain_entry list \<Rightarrow> exn + unit" where
  "verify_entries H expected_prev [] = Inr ()"
| "verify_entries H expected_prev (e # es) =
     (if ce_prev_hash e \<noteq> expected_prev then Inl (ChainIntegrityError (ce_index e))
      else (case ce_prev_hash e of
          JStr p \<Rightarrow>
            (let recomputed = H (record_bytes (ce_record e) @ utf8 p)
             in if JStr recomputed \<noteq> ce_record_hash e then Inl (ChainIntegrityError (ce_index e))
                else verify_entries H (ce_record_hash e) es)
        | _ \<Rightarrow> Inl AttributeError))"

definition verify_chain :: "(bytes \<Rightarrow> string) \<Rightarrow> log_file \<Rightarrow> exn + unit" where
  "verify_chain H f =
     (case read_all_entries f of
        Inl e \<Rightarrow> Inl e
      | Inr es \<Rightarrow> verify_entries H (JStr genesis_hash) es)"

section \<open>The abstract log: a list of records\<close>

text \<open>The entries a list of records becomes, from a link on.\<close>

fun chain_from :: "(bytes \<Rightarrow> string) \<Rightarrow> string \<Rightarrow> nat \<Rightarrow> json list \<Rightarrow> chain_entry list" where
  "chain_from H prev i [] = []"
| "chain_from H prev i (r # rs) =
     (let h = H (record_bytes r @ utf8 prev)
      in \<lparr>ce_index = JInt (int i), ce_record = canon r, ce_record_hash = JStr h, ce_prev_hash = JStr prev\<rparr>
           # chain_from H h (Suc i) rs)"

definition entries_of :: "(bytes \<Rightarrow> string) \<Rightarrow> json list \<Rightarrow> chain_entry list" where
  "entries_of H rs = chain_from H genesis_hash 0 rs"

definition log_text :: "chain_entry list \<Rightarrow> string" where
  "log_text es = concat (map (\<lambda>e. dumps (entry_line e) @ [CHR 0x0A]) es)"

text \<open>A file holds a list of records when it was written by appending them.\<close>

definition holds_records :: "(bytes \<Rightarrow> string) \<Rightarrow> log_file \<Rightarrow> json list \<Rightarrow> bool" where
  "holds_records H f rs \<longleftrightarrow>
     list_all wf_json rs \<and> (f = Some (log_text (entries_of H rs)) \<or> (f = None \<and> rs = []))"

section \<open>Lines\<close>

definition wf_entry :: "chain_entry \<Rightarrow> bool" where
  "wf_entry e \<longleftrightarrow> wf_json (entry_line e)"

lemma wf_entry_iff:
  "wf_entry e \<longleftrightarrow> wf_json (ce_index e) \<and> wf_json (ce_prev_hash e) \<and> wf_json (ce_record_hash e) \<and> wf_json (ce_record e)"
  by (auto simp: wf_entry_def entry_line_def)

definition canon_entry :: "chain_entry \<Rightarrow> chain_entry" where
  "canon_entry e =
     \<lparr>ce_index = canon (ce_index e), ce_record = canon (ce_record e),
      ce_record_hash = canon (ce_record_hash e), ce_prev_hash = canon (ce_prev_hash e)\<rparr>"

lemma entry_of_line_dumps:
  assumes "wf_entry e"
  shows "entry_of_line (dumps (entry_line e)) = Inr (canon_entry e)"
proof -
  have "loads (dumps (entry_line e)) = Some (canon (entry_line e))"
    using assms loads_dumps by (simp add: wf_entry_def)
  then show ?thesis
    by (simp add: entry_of_line_def entry_line_def canon_entry_def json_item_def less_eq_char_def)
qed

lemma universal_newlines_id: "CHR 0x0D \<notin> set t \<Longrightarrow> universal_newlines t = t"
  by (induction t rule: universal_newlines.induct) auto

lemma printable_no_cr: "printable s \<Longrightarrow> CHR 0x0D \<notin> set s"
  by (auto simp: printable_def list_all_iff)

lemma py_strip_brace: "py_strip (CHR ''{'' # s) \<noteq> []"
  by (auto simp: py_strip_def is_space_def dropWhile_eq_Nil_conv)

lemma log_lines_log_text:
  assumes "list_all wf_entry es"
  shows "log_lines (log_text es) = map (\<lambda>e. dumps (entry_line e)) es"
proof -
  have p: "printable (dumps (entry_line e))" if "e \<in> set es" for e
    using assms that printable_dumps by (auto simp: list_all_iff wf_entry_def)
  have cr: "CHR 0x0D \<notin> set (log_text es)"
    using p printable_no_cr by (auto simp: log_text_def)
  have "split_on (CHR 0x0A) (log_text es) = map (\<lambda>e. dumps (entry_line e)) es @ [[]]"
    using printable_no_newline [OF p]
    by (induction es) (simp_all add: log_text_def split_on_append_sep)
  moreover have "py_strip (dumps (entry_line e)) \<noteq> []" for e
    by (simp only: entry_line_def dumps.simps) (rule py_strip_brace)
  ultimately show ?thesis
    by (simp add: log_lines_def universal_newlines_id [OF cr] filter_map comp_def) (simp add: py_strip_def)
qed

lemma read_all_log_text:
  assumes "list_all wf_entry es"
  shows "read_all_entries (Some (log_text es)) = Inr (map canon_entry es)"
proof -
  have "map_result entry_of_line (map (\<lambda>e. dumps (entry_line e)) es) = Inr (map canon_entry es)"
    using assms by (induction es) (auto simp: entry_of_line_dumps)
  then show ?thesis using log_lines_log_text [OF assms] by (simp add: read_all_entries_def)
qed

lemma log_text_Nil_iff: "log_text es = [] \<longleftrightarrow> es = []"
  by (auto simp: log_text_def)

lemma log_text_append: "log_text (es @ fs) = log_text es @ log_text fs"
  by (simp add: log_text_def)

section \<open>Appending\<close>

lemma chain_from_wf: "list_all wf_json rs \<Longrightarrow> list_all wf_entry (chain_from H p i rs)"
  by (induction rs arbitrary: p i) (auto simp: Let_def wf_entry_iff)

lemma chain_from_canon: "map canon_entry (chain_from H p i rs) = chain_from H p i rs"
  by (induction rs arbitrary: p i) (auto simp: Let_def canon_entry_def)

lemma length_chain_from [simp]: "length (chain_from H p i rs) = length rs"
  by (induction rs arbitrary: p i) (auto simp: Let_def)

lemma map_record_chain_from: "map ce_record (chain_from H p i rs) = map canon rs"
  by (induction rs arbitrary: p i) (auto simp: Let_def)

text \<open>The hash the last entry ends with.\<close>

fun end_hash :: "(bytes \<Rightarrow> string) \<Rightarrow> string \<Rightarrow> json list \<Rightarrow> string" where
  "end_hash H prev [] = prev"
| "end_hash H prev (r # rs) = end_hash H (H (record_bytes r @ utf8 prev)) rs"

lemma chain_from_append:
  "chain_from H p i (rs @ ss) = chain_from H p i rs @ chain_from H (end_hash H p rs) (i + length rs) ss"
  by (induction rs arbitrary: p i) (auto simp: Let_def)

lemma chain_from_last:
  "rs \<noteq> [] \<Longrightarrow> ce_record_hash (last (chain_from H p i rs)) = JStr (end_hash H p rs)
     \<and> ce_index (last (chain_from H p i rs)) = JInt (int i + int (length rs) - 1)"
proof (induction rs arbitrary: p i)
  case (Cons r rs)
  show ?case
  proof (cases "rs = []")
    case False
    then have "chain_from H (H (record_bytes r @ utf8 p)) (Suc i) rs \<noteq> []"
      by (metis length_0_conv length_chain_from)
    then show ?thesis using False Cons.IH [of "H (record_bytes r @ utf8 p)" "Suc i"] by (simp add: Let_def)
  qed (simp add: Let_def)
qed simp

lemma last_link_holds:
  assumes "holds_records H f rs"
  shows "last_link f = Inr (JStr (end_hash H genesis_hash rs), JInt (int (length rs)))"
proof (cases "rs = []")
  case True
  then show ?thesis using assms by (auto simp: holds_records_def last_link_def entries_of_def log_text_def)
next
  case False
  let ?es = "entries_of H rs"
  have f: "f = Some (log_text ?es)" using assms False by (auto simp: holds_records_def)
  have wf: "list_all wf_entry ?es" using assms by (auto simp: holds_records_def entries_of_def chain_from_wf)
  have ne: "?es \<noteq> []" using False by (metis entries_of_def length_0_conv length_chain_from)
  have "rev (log_lines (log_text ?es)) = dumps (entry_line (last ?es)) # map (\<lambda>e. dumps (entry_line e)) (rev (butlast ?es))"
    using ne log_lines_log_text [OF wf]
    by (metis (no_types, lifting) append_butlast_last_id list.map(2) rev.simps(2) rev_map rev_append append_Nil append_Cons rev_singleton_conv)
  moreover have "wf_entry (last ?es)" using wf ne by (simp add: list_all_iff)
  moreover have "canon_entry (last ?es) = last ?es"
    using ne chain_from_canon [of H genesis_hash 0 rs] by (metis entries_of_def last_map)
  ultimately have "read_last_entry (log_text ?es) = Inr (last ?es)"
    by (simp add: read_last_entry_def entry_of_line_dumps)
  then show ?thesis
    using f ne False chain_from_last [OF False, of H genesis_hash 0]
    by (simp add: last_link_def log_text_Nil_iff entries_of_def index_succ_def)
qed

lemma holds_recordsI:
  "list_all wf_json rs \<Longrightarrow> f = Some (log_text (entries_of H rs)) \<Longrightarrow> holds_records H f rs"
  by (simp add: holds_records_def)

lemma append_holds:
  assumes "holds_records H f rs" and "wf_json r"
  shows "\<exists>e. append_entry H f r = Inr (log_text (entries_of H (rs @ [r])), e)
    \<and> canon_entry e = last (entries_of H (rs @ [r]))"
proof -
  let ?p = "end_hash H genesis_hash rs"
  let ?e = "\<lparr>ce_index = JInt (int (length rs)), ce_record = r,
    ce_record_hash = JStr (H (record_bytes r @ utf8 ?p)), ce_prev_hash = JStr ?p\<rparr>"
  have new: "entries_of H (rs @ [r]) = entries_of H rs @ [canon_entry ?e]"
    by (simp add: entries_of_def chain_from_append Let_def canon_entry_def)
  have line: "dumps (entry_line (canon_entry ?e)) = dumps (entry_line ?e)"
    by (simp add: entry_line_def canon_entry_def)
  have old: "(case f of None \<Rightarrow> [] | Some t \<Rightarrow> t) = log_text (entries_of H rs)"
    using assms(1) by (auto simp: holds_records_def entries_of_def log_text_def)
  have "append_entry H f r = Inr (log_text (entries_of H rs) @ dumps (entry_line ?e) @ [CHR 0x0A], ?e)"
    using last_link_holds [OF assms(1)] old by (simp add: append_entry_def Let_def)
  then show ?thesis using new line by (auto simp: log_text_append) (simp add: log_text_def)
qed

lemma verify_chain_from:
  "verify_entries H (JStr p) (chain_from H p i rs) = Inr ()"
  by (induction rs arbitrary: p i) (simp_all add: Let_def record_bytes_def)

lemma read_all_holds:
  assumes "holds_records H f rs"
  shows "read_all_entries f = Inr (entries_of H rs)"
proof -
  have "list_all wf_entry (entries_of H rs)"
    using assms by (simp add: holds_records_def entries_of_def chain_from_wf)
  from read_all_log_text [OF this] show ?thesis
    using assms by (auto simp: holds_records_def entries_of_def chain_from_canon read_all_entries_def)
qed

lemma verify_holds: "holds_records H f rs \<Longrightarrow> verify_chain H f = Inr ()"
  by (simp add: verify_chain_def read_all_holds entries_of_def verify_chain_from)

lemma holds_records_append:
  assumes "holds_records H f rs" and "wf_json r" and "append_entry H f r = Inr (t, e)"
  shows "holds_records H (Some t) (rs @ [r])"
  using append_holds [OF assms(1,2)] assms by (auto simp: holds_records_def)

text \<open>
  C16. Appending a record refines appending it to the abstract list of records: on a log that
  was written by appending records, it always succeeds, the file then holds the old records and
  the new one, reading it gives their entries in order, and the whole log verifies.
\<close>

theorem append_entry_refines:
  assumes "holds_records H f rs" and "wf_json r"
  shows "\<exists>t e. append_entry H f r = Inr (t, e) \<and> holds_records H (Some t) (rs @ [r])
    \<and> read_all_entries (Some t) = Inr (entries_of H (rs @ [r]))
    \<and> map ce_record (entries_of H (rs @ [r])) = map canon rs @ [canon r]
    \<and> verify_chain H (Some t) = Inr ()"
proof -
  obtain t e where a: "append_entry H f r = Inr (t, e)" using append_holds [OF assms] by blast
  have h: "holds_records H (Some t) (rs @ [r])" by (rule holds_records_append [OF assms a])
  show ?thesis
    using a h read_all_holds [OF h] verify_holds [OF h]
    by (auto simp: entries_of_def map_record_chain_from)
qed

theorem append_entry_refines_witness:
  "\<exists>t e. append_entry (\<lambda>b. b) None (JObj [(''actor'', JStr ''a'')]) = Inr (t, e)
     \<and> holds_records (\<lambda>b. b) (Some t) ([] @ [JObj [(''actor'', JStr ''a'')]])
     \<and> read_all_entries (Some t) = Inr (entries_of (\<lambda>b. b) ([] @ [JObj [(''actor'', JStr ''a'')]]))
     \<and> map ce_record (entries_of (\<lambda>b. b) ([] @ [JObj [(''actor'', JStr ''a'')]]))
        = map canon [] @ [canon (JObj [(''actor'', JStr ''a'')])]
     \<and> verify_chain (\<lambda>b. b) (Some t) = Inr ()"
  by (rule append_entry_refines) (simp_all add: holds_records_def)

section \<open>What verification detects\<close>

lemma verify_entries_Cons:
  "verify_entries H (JStr p) (e # es) = Inr () \<longleftrightarrow>
     ce_prev_hash e = JStr p \<and> ce_record_hash e = JStr (H (record_bytes (ce_record e) @ utf8 p))
     \<and> verify_entries H (ce_record_hash e) es = Inr ()"
  by (auto simp: Let_def)

text \<open>The hash an entry must be preceded by, and the input its own hash is made of.\<close>

definition link_input :: "chain_entry \<Rightarrow> bytes" where
  "link_input e = record_bytes (ce_record e) @ utf8 (case ce_prev_hash e of JStr p \<Rightarrow> p | _ \<Rightarrow> [])"

lemma verify_nth:
  assumes "verify_entries H (JStr p) es = Inr ()" and "i < length es"
  shows "ce_record_hash (es ! i) = JStr (H (link_input (es ! i)))
    \<and> ce_prev_hash (es ! i) = (if i = 0 then JStr p else ce_record_hash (es ! (i - 1)))"
  using assms
proof (induction es arbitrary: p i)
  case (Cons e es)
  have e: "ce_prev_hash e = JStr p" "ce_record_hash e = JStr (H (link_input e))"
    "verify_entries H (ce_record_hash e) es = Inr ()"
    using Cons.prems(1) unfolding verify_entries_Cons by (auto simp: link_input_def)
  show ?case
  proof (cases i)
    case (Suc j)
    then show ?thesis
      using Cons.IH [of "H (link_input e)" j] e Cons.prems(2) by (cases j) auto
  qed (use e in simp)
qed simp

lemma verify_take: "verify_entries H p es = Inr () \<Longrightarrow> verify_entries H p (take n es) = Inr ()"
  by (induction H p es arbitrary: n rule: verify_entries.induct)
    (auto simp: take_Cons' Let_def split: if_splits json.splits)

text \<open>The entries as \<open>verify_chain\<close> accepts them, from the start of a log.\<close>

definition verified :: "(bytes \<Rightarrow> string) \<Rightarrow> chain_entry list \<Rightarrow> bool" where
  "verified H es \<longleftrightarrow> verify_entries H (JStr genesis_hash) es = Inr ()"

lemma is_sha256_hex_genesis: "is_sha256_hex genesis_hash"
  by (simp add: is_sha256_hex_def genesis_hash_def list_all_iff is_lower_hex_def is_digit_def)

context hex_digest
begin

lemma verified_nth:
  assumes "verified H es" and "i < length es"
  shows "ce_record_hash (es ! i) = JStr (H (link_input (es ! i)))"
    and "ce_prev_hash (es ! i) = (if i = 0 then JStr genesis_hash else JStr (H (link_input (es ! (i - 1)))))"
  using assms verify_nth [of H genesis_hash es i] verify_nth [of H genesis_hash es "i - 1"]
  by (auto simp: verified_def)

lemma verified_prev_hex:
  assumes "verified H es" and "i < length es"
  shows "\<exists>p. ce_prev_hash (es ! i) = JStr p \<and> is_sha256_hex p"
  using verified_nth(2) [OF assms] H_sha256_hex is_sha256_hex_genesis by auto

lemma link_input_eq:
  assumes "verified H es" "i < length es" "verified H fs" "j < length fs"
    and "link_input (es ! i) = link_input (fs ! j)"
  shows "record_bytes (ce_record (es ! i)) = record_bytes (ce_record (fs ! j)) \<and> ce_prev_hash (es ! i) = ce_prev_hash (fs ! j)"
proof -
  obtain p q where p: "ce_prev_hash (es ! i) = JStr p" "is_sha256_hex p"
    and q: "ce_prev_hash (fs ! j) = JStr q" "is_sha256_hex q"
    using verified_prev_hex assms by blast
  then have "utf8 p = p" "utf8 q = q" "length p = length q"
    by (auto simp: is_sha256_hex_def utf8_hex)
  then show ?thesis using assms(5) p q by (simp add: link_input_def)
qed

text \<open>Without a collision among the inputs of two verified logs, equal hashes mean equal entries.\<close>

lemma record_hash_eq:
  assumes "verified H es" "i < length es" "verified H fs" "j < length fs"
    and "inj_on H (link_input ` (set es \<union> set fs))"
    and "ce_record_hash (es ! i) = ce_record_hash (fs ! j)"
  shows "record_bytes (ce_record (es ! i)) = record_bytes (ce_record (fs ! j)) \<and> ce_prev_hash (es ! i) = ce_prev_hash (fs ! j)"
proof (rule link_input_eq [OF assms(1-4)])
  show "link_input (es ! i) = link_input (fs ! j)"
    by (rule inj_onD [OF assms(5)])
      (use assms(2,4,6) verified_nth(1) [OF assms(1,2)] verified_nth(1) [OF assms(3,4)] in auto)
qed

lemma hash_not_genesis:
  "genesis_hash \<notin> H ` link_input ` set es \<Longrightarrow> i < length es \<Longrightarrow> H (link_input (es ! i)) \<noteq> genesis_hash"
  by (metis imageI nth_mem)

lemma record_hash_position:
  assumes "verified H es" and "inj_on H (link_input ` set es)" and "genesis_hash \<notin> H ` link_input ` set es"
  shows "i < length es \<Longrightarrow> j < length es \<Longrightarrow> ce_record_hash (es ! i) = ce_record_hash (es ! j) \<Longrightarrow> i = j"
proof (induction i arbitrary: j)
  case 0
  have "ce_prev_hash (es ! 0) = ce_prev_hash (es ! j)"
    using record_hash_eq [OF assms(1) 0(1) assms(1) 0(2)] assms(2) 0(3) by simp
  then show ?case
    using verified_nth(2) [OF assms(1) 0(1)] verified_nth(2) [OF assms(1) 0(2)] 0(2)
      hash_not_genesis [OF assms(3), of "j - 1"]
    by (cases j) auto
next
  case (Suc i)
  have p: "ce_prev_hash (es ! Suc i) = ce_prev_hash (es ! j)"
    using record_hash_eq [OF assms(1) Suc(2) assms(1) Suc(3)] assms(2) Suc(4) by simp
  have "j \<noteq> 0"
    using p verified_nth(2) [OF assms(1) Suc(2)] verified_nth(2) [OF assms(1) Suc(3)] Suc(2)
      hash_not_genesis [OF assms(3), of i]
    by (cases j) auto
  then have "ce_record_hash (es ! i) = ce_record_hash (es ! (j - 1))"
    using p verified_nth [OF assms(1)] Suc(2,3) by auto
  then show ?case using Suc.IH [of "j - 1"] Suc(2,3) \<open>j \<noteq> 0\<close> by auto
qed

lemma verified_subset_prefix:
  assumes "verified H es" and "verified H fs" and "set fs \<subseteq> set es"
    and "inj_on H (link_input ` set es)" and "genesis_hash \<notin> H ` link_input ` set es"
  shows "prefix fs es"
proof -
  have "n < length es \<and> fs ! n = es ! n" if "n < length fs" for n
    using that
  proof (induction n)
    case 0
    then obtain m where m: "m < length es" "fs ! 0 = es ! m" using assms(3) by (metis in_set_conv_nth nth_mem subset_iff)
    have "m = 0"
      using verified_nth(2) [OF assms(2) 0] verified_nth(2) [OF assms(1) m(1)] m
        hash_not_genesis [OF assms(5), of "m - 1"]
      by (auto split: if_splits)
    then show ?case using m by auto
  next
    case (Suc n)
    then have n: "n < length es" "fs ! n = es ! n" by auto
    obtain m where m: "m < length es" "fs ! Suc n = es ! m"
      using assms(3) Suc(2) by (metis in_set_conv_nth nth_mem subset_iff)
    have p: "ce_prev_hash (es ! m) = JStr (H (link_input (es ! n)))"
      using verified_nth(2) [OF assms(2) Suc(2)] m n by simp
    have "m \<noteq> 0"
      using p verified_nth(2) [OF assms(1) m(1)] hash_not_genesis [OF assms(5) n(1)] by (cases m) auto
    then have "ce_record_hash (es ! (m - 1)) = ce_record_hash (es ! n)"
      using p verified_nth [OF assms(1)] m(1) n(1) by auto
    then have "m - 1 = n" using record_hash_position [OF assms(1,4,5)] m(1) n(1) by auto
    then show ?case using m \<open>m \<noteq> 0\<close> by auto
  qed
  then have "length fs \<le> length es \<and> fs = take (length fs) es"
    by (metis (no_types, lifting) leI length_take min.absorb2 nat_less_le nth_equalityI nth_take order_less_irrefl)
  then show ?thesis by (metis take_is_prefix)
qed

lemma verified_edit:
  assumes "verified H es" and "verified H (es[k := e])" and "Suc k < length es"
    and "inj_on H (link_input ` insert e (set es))"
  shows "record_bytes (ce_record e) = record_bytes (ce_record (es ! k)) \<and> ce_prev_hash e = ce_prev_hash (es ! k)"
proof -
  have "ce_prev_hash (es ! Suc k) = ce_record_hash (es[k := e] ! k)"
    using verified_nth [OF assms(2)] assms(3) by (metis Suc_lessD diff_Suc_1 length_list_update nat.distinct(1) n_not_Suc_n nth_list_update_neq)
  moreover have "ce_prev_hash (es ! Suc k) = ce_record_hash (es ! k)"
    using verified_nth [OF assms(1)] assms(3) by simp
  moreover have "inj_on H (link_input ` (set (es[k := e]) \<union> set es))"
    using assms(4) by (rule inj_on_subset) (use set_update_subset_insert in fastforce)
  ultimately show ?thesis
    using record_hash_eq [OF assms(2) _ assms(1), of k k] assms(3) by simp
qed

end

text \<open>
  C17. A verified log stands for its history: any list of its entries that verifies on its own,
  however entries were dropped, repeated or reordered, is a prefix of it, unless two of the
  hashed inputs collide or one of them hashes to the genesis value.
\<close>

theorem verified_log_rearranged:
  assumes "hex_digest H" and "verified H es" and "verified H fs" and "set fs \<subseteq> set es"
    and "inj_on H (link_input ` set es)" and "genesis_hash \<notin> H ` link_input ` set es"
  shows "prefix fs es"
  by (rule hex_digest.verified_subset_prefix [OF assms])

definition toy_records :: "json list" where
  "toy_records = [JObj [(''a'', JInt 1)], JObj [(''a'', JInt 2)]]"

text \<open>A digest for concrete evaluation: it tells the two records apart.\<close>

definition toy_hash :: "bytes \<Rightarrow> string" where
  "toy_hash b = (if prefix (dumps (JObj [(''a'', JInt 1)])) b then replicate 64 (CHR ''a'') else replicate 64 (CHR ''b''))"

lemma toy_hex: "hex_digest toy_hash"
  by unfold_locales (simp add: toy_hash_def is_sha256_hex_def list_all_iff is_lower_hex_def is_digit_def)

lemma toy_dumps:
  "dumps (JObj [(''a'', JInt 1)]) = [CHR ''{'', CHR 0x22, CHR ''a'', CHR 0x22, CHR '':'', CHR ''1'', CHR ''}'']"
  "dumps (JObj [(''a'', JInt 2)]) = [CHR ''{'', CHR 0x22, CHR ''a'', CHR 0x22, CHR '':'', CHR ''2'', CHR ''}'']"
  by code_simp+

lemma toy_verified: "verified toy_hash (entries_of toy_hash toy_records)"
  by (simp add: verified_def entries_of_def verify_chain_from)

lemma toy_inj: "inj_on toy_hash (link_input ` set (entries_of toy_hash toy_records))"
  by (simp add: entries_of_def toy_records_def Let_def link_input_def record_bytes_def toy_hash_def
      toy_dumps inj_on_def utf8_def utf8_char_def del: dumps.simps)

lemma toy_no_genesis: "genesis_hash \<notin> toy_hash ` X"
  by (auto simp: toy_hash_def genesis_hash_def replicate_eq_replicate)

theorem verified_log_rearranged_witness:
  "prefix (take 1 (entries_of toy_hash toy_records)) (entries_of toy_hash toy_records)"
proof (rule verified_log_rearranged [OF toy_hex toy_verified _ _ toy_inj toy_no_genesis])
  show "verified toy_hash (take 1 (entries_of toy_hash toy_records))"
    using toy_verified verify_take by (simp add: verified_def)
qed (simp add: set_take_subset)

text \<open>
  Editing an entry that is not the last one is detected: if the log still verifies after
  entry \<open>k\<close> was replaced, the replacement has the same record (as canonical bytes) and the
  same link, unless two hashed inputs collide.
\<close>

theorem verified_log_edited:
  assumes "hex_digest H" and "verified H es" and "verified H (es[k := e])" and "Suc k < length es"
    and "inj_on H (link_input ` insert e (set es))"
  shows "record_bytes (ce_record e) = record_bytes (ce_record (es ! k)) \<and> ce_prev_hash e = ce_prev_hash (es ! k)"
  by (rule hex_digest.verified_edit [OF assms])

theorem verified_log_edited_witness:
  "let es = entries_of toy_hash toy_records; e = (es ! 0)\<lparr>ce_index := JInt 7\<rparr>
   in verified toy_hash (es[0 := e]) \<and> record_bytes (ce_record e) = record_bytes (ce_record (es ! 0))
      \<and> ce_prev_hash e = ce_prev_hash (es ! 0)"
proof -
  let ?es = "entries_of toy_hash toy_records"
  let ?e = "(?es ! 0)\<lparr>ce_index := JInt 7\<rparr>"
  have v: "verified toy_hash (?es[0 := ?e])"
    by (simp add: verified_def entries_of_def toy_records_def Let_def record_bytes_def del: dumps.simps)
  have len: "Suc 0 < length ?es" by (simp only: entries_of_def length_chain_from toy_records_def) simp
  have "link_input ?e = link_input (?es ! 0)" by (simp add: link_input_def)
  moreover have "?es ! 0 \<in> set ?es" by (rule nth_mem) (use len in linarith)
  ultimately have "link_input ` insert ?e (set ?es) = link_input ` set ?es" by auto
  then have "inj_on toy_hash (link_input ` insert ?e (set ?es))" using toy_inj by simp
  from verified_log_edited [OF toy_hex toy_verified v len this] v show ?thesis by (simp add: Let_def)
qed

text \<open>
  What verification cannot see: cutting off the last entries of a log that verifies leaves a
  log that verifies.
\<close>

theorem verified_log_truncated:
  assumes "verified H es"
  shows "verified H (take n es)"
  using assms verify_take by (simp add: verified_def)

theorem verified_log_truncated_witness: "verified toy_hash (take 1 (entries_of toy_hash toy_records))"
  by (rule verified_log_truncated [OF toy_verified])

section \<open>Event stores on the chain\<close>

text \<open>
  What \<open>LocalAuditLog\<close> and \<open>LocalProvenanceStore\<close> share: events are appended as records and
  read back record by record.  The interface asks of an event type that its record can be read
  back after a trip through JSON.
\<close>

definition all_events :: "(json \<Rightarrow> exn + 'e) \<Rightarrow> log_file \<Rightarrow> exn + 'e list" where
  "all_events from_record f =
     (case read_all_entries f of
        Inl e \<Rightarrow> Inl e
      | Inr es \<Rightarrow> map_result (\<lambda>e. from_record (ce_record e)) es)"

text \<open>\<open>r["..."]\<close> of a member declared \<open>str\<close>; any other type there, which is never written, is outside the model.\<close>

definition str_item :: "json \<Rightarrow> string \<Rightarrow> exn + string" where
  "str_item r k =
     (case json_item r k of Inl e \<Rightarrow> Inl e | Inr v \<Rightarrow> (case v of JStr s \<Rightarrow> Inr s | _ \<Rightarrow> Inl TypeError))"

text \<open>\<open>r.get("...")\<close> of a member declared \<open>str | None\<close>.\<close>

definition opt_item :: "json \<Rightarrow> string \<Rightarrow> exn + string option" where
  "opt_item r k =
     (case r of
        JObj kvs \<Rightarrow>
          (case map_of kvs k of
             None \<Rightarrow> Inr None | Some JNull \<Rightarrow> Inr None | Some (JStr s) \<Rightarrow> Inr (Some s) | Some _ \<Rightarrow> Inl TypeError)
      | _ \<Rightarrow> Inl AttributeError)"

definition opt_json :: "string option \<Rightarrow> json" where
  "opt_json s = (case s of None \<Rightarrow> JNull | Some t \<Rightarrow> JStr t)"

lemma json_item_canon:
  "distinct (map fst kvs) \<Longrightarrow> json_item (canon (JObj kvs)) k = map_sum id canon (json_item (JObj kvs) k)"
  by (simp add: json_item_def map_of_canon split: option.splits)

lemma str_item_canon: "distinct (map fst kvs) \<Longrightarrow> str_item (canon (JObj kvs)) k = str_item (JObj kvs) k"
  by (simp add: str_item_def json_item_def map_of_canon split: option.splits json.splits)

lemma opt_item_canon: "distinct (map fst kvs) \<Longrightarrow> opt_item (canon (JObj kvs)) k = opt_item (JObj kvs) k"
  by (auto simp: opt_item_def map_of_canon split: option.splits json.splits)

lemmas item_defs = str_item_def opt_item_def json_item_def opt_json_def

locale event_log =
  fixes to_record :: "'e \<Rightarrow> json" and from_record :: "json \<Rightarrow> exn + 'e"
  assumes from_to: "from_record (canon (to_record e)) = Inr e"
    and wf_record: "wf_json (to_record e)"
begin

lemma all_events_holds:
  assumes "holds_records H f (map to_record evs)"
  shows "all_events from_record f = Inr evs"
proof -
  have "map_result (\<lambda>e. from_record (ce_record e)) (chain_from H p i (map to_record evs)) = Inr evs" for p i
    by (induction evs arbitrary: p i) (simp_all add: Let_def from_to)
  then show ?thesis by (simp add: all_events_def read_all_holds [OF assms] entries_of_def)
qed

lemma record_event:
  assumes "holds_records H f (map to_record evs)"
  shows "\<exists>t e. append_entry H f (to_record ev) = Inr (t, e)
    \<and> holds_records H (Some t) (map to_record (evs @ [ev]))
    \<and> all_events from_record (Some t) = Inr (evs @ [ev]) \<and> verify_chain H (Some t) = Inr ()"
proof -
  obtain t e where a: "append_entry H f (to_record ev) = Inr (t, e)"
    using append_holds [OF assms wf_record] by blast
  have h: "holds_records H (Some t) (map to_record (evs @ [ev]))"
    using holds_records_append [OF assms wf_record a] by simp
  from a h all_events_holds [OF h] verify_holds [OF h] show ?thesis by blast
qed

end

end
