(* ===== verification/Registry.thy ===== *)
theory Registry
  imports Chain Schemas
begin

text \<open>
  \<open>registry/identifiers.py\<close>, \<open>models.py\<close>, \<open>protocol.py\<close> and \<open>local.py\<close>: registry identifiers,
  the records, the \<open>Registry\<close> protocol and its file-backed implementation.  The protocol is a
  locale: its laws say that the operations refine an abstract registry, a list of registrations
  and a list of revocation events.  The theorems about registries, that a registration never
  changes and that a revocation stays until it is lifted, are proved from the laws.
\<close>

section \<open>Identifiers\<close>

definition max_identifier_length :: nat where
  "max_identifier_length = 200"

text \<open>
  \<open>unicodedata.normalize("NFC", s)\<close>: no code point below U+0300 is changed or reordered by NFC,
  so on the modelled strings it is the identity.
\<close>

definition nfc :: "string \<Rightarrow> string" where
  "nfc s = s"

definition quoted :: "string \<Rightarrow> string" where
  "quoted s = CHR 0x27 # s @ [CHR 0x27]"

definition identifier_problem :: "string \<Rightarrow> string option" where
  "identifier_problem v =
     (if v = [] then Some ''must not be empty''
      else if length v > max_identifier_length
        then Some (''longer than '' @ nat_str max_identifier_length @ '' characters'')
      else if v \<in> {''.'', ''..''} then Some (''must not be '' @ quoted ''.'' @ '' or '' @ quoted ''..'')
      else if CHR ''/'' \<in> set v \<or> CHR 0x5C \<in> set v then Some ''must not contain path separators''
      else if list_ex is_control v then Some ''must not contain control characters''
      else if v \<noteq> py_strip v then Some ''must not have leading or trailing whitespace''
      else if nfc v \<noteq> v then Some ''must be Unicode NFC-normalized''
      else None)"

definition validate_identifier :: "string \<Rightarrow> exn + string" where
  "validate_identifier v = (case identifier_problem v of Some p \<Rightarrow> Inl InvalidIdentifierError | None \<Rightarrow> Inr v)"

definition valid_identifier :: "string \<Rightarrow> bool" where
  "valid_identifier v \<longleftrightarrow> identifier_problem v = None"

lemma validate_identifier_eq:
  "validate_identifier v = (if valid_identifier v then Inr v else Inl InvalidIdentifierError)"
  by (cases "identifier_problem v") (simp_all add: validate_identifier_def valid_identifier_def)

section \<open>Records\<close>

record revocation_record =
  rv_model_id :: string
  rv_version :: string
  rv_revoked_by :: string
  rv_reason :: string
  rv_revoked_at :: string

record registry_record =
  rr_model_id :: string
  rr_version :: string
  rr_artifact_digest :: string
  rr_manifest :: manifest
  rr_mbom :: mlbom
  rr_registered_by :: string
  rr_registered_at :: string

text \<open>The pattern pydantic holds the digest of a record to.\<close>

definition valid_record_digest :: "string \<Rightarrow> bool" where
  "valid_record_digest d \<longleftrightarrow> prefix ''sha256:'' d \<and> is_sha256_hex (drop 7 d)"

definition valid_record :: "registry_record \<Rightarrow> bool" where
  "valid_record r \<longleftrightarrow> valid_record_digest (rr_artifact_digest r) \<and> valid_manifest (rr_manifest r)"

definition registry_uri :: "registry_record \<Rightarrow> string" where
  "registry_uri r = ''model://'' @ rr_model_id r @ ''@'' @ rr_artifact_digest r"

text \<open>
  \<open>record.model_dump(mode="json")\<close>: field names, and \<open>null\<close> for what is absent.  The models are frozen and
  check their fields when they are built, so what is not a \<open>valid_record\<close> is no instance and has no dump.
\<close>

definition record_fields :: "registry_record \<Rightarrow> (string \<times> json option) list" where
  "record_fields r =
     [(''model_id'', Some (JStr (rr_model_id r))), (''version'', Some (JStr (rr_version r))),
      (''artifact_digest'', Some (JStr (rr_artifact_digest r))),
      (''manifest'', Some (with_nulls (manifest_fields (rr_manifest r)))),
      (''mbom'', Some (with_nulls (mlbom_record_fields (rr_mbom r)))),
      (''registered_by'', Some (JStr (rr_registered_by r))), (''registered_at'', Some (JStr (rr_registered_at r)))]"

definition record_dump :: "registry_record \<Rightarrow> json option" where
  "record_dump r = (if valid_record r then Some (with_nulls (record_fields r)) else None)"

text \<open>\<open>RegistryRecord.model_validate\<close>.\<close>

definition record_of_json :: "libs \<Rightarrow> json \<Rightarrow> registry_record option" where
  "record_of_json L j =
     (case j of
        JObj d \<Rightarrow>
          if \<not> known_members [''model_id'', ''version'', ''artifact_digest'', ''manifest'', ''mbom'', ''registered_by'',
               ''registered_at''] d then None
          else
            (case (str_field d ''model_id'' None, str_field d ''version'' None, str_field d ''artifact_digest'' None,
                   Option.bind (map_of d ''manifest'') (manifest_of_json L), Option.bind (map_of d ''mbom'') (mlbom_of_json L),
                   str_field d ''registered_by'' None, str_field d ''registered_at'' (Some (lb_now L))) of
               (Some i, Some v, Some h, Some m, Some b, Some a, Some t) \<Rightarrow>
                 if valid_record_digest h
                 then Some \<lparr>rr_model_id = i, rr_version = v, rr_artifact_digest = h, rr_manifest = m, rr_mbom = b,
                        rr_registered_by = a, rr_registered_at = t\<rparr>
                 else None
             | _ \<Rightarrow> None)
      | _ \<Rightarrow> None)"

text \<open>A record that was dumped is read back, whatever the order its members come in.\<close>

lemma record_of_dumped:
  assumes d: "dumped (record_fields r) d" and "valid_record r"
  shows "record_of_json L (JObj d) = Some r"
proof -
  have "Option.bind (map_of d ''manifest'') (manifest_of_json L) = Some (rr_manifest r)"
    by (rule model_dumped [OF d _ manifest_reads(2)]) (use assms(2) in \<open>simp_all add: record_fields_def valid_record_def\<close>)
  moreover have "Option.bind (map_of d ''mbom'') (mlbom_of_json L) = Some (rr_mbom r)"
    by (rule model_dumped [OF d _ mlbom_reads(2)]) (simp_all add: record_fields_def)
  ultimately show ?thesis
    using assms(2) unfolding record_of_json_def by (simp add: field_of_dump [OF d] record_fields_def valid_record_def)
qed

lemma record_reads: "record_dump r = Some j \<Longrightarrow> canon j' = canon j \<Longrightarrow> record_of_json L j' = Some r"
  by (auto simp: record_dump_def record_fields_def [THEN arg_cong [where f = "map fst"]] record_of_dumped split: if_splits
      elim!: read_with_nulls)

section \<open>The abstract registry\<close>

text \<open>A revocation event: a revocation, or its lifting by an actor for a reason.\<close>

datatype rev_event =
    Revoked revocation_record
  | Unrevoked (un_model_id: string) (un_version: string) (un_actor: string) (un_reason: string)

fun event_key :: "rev_event \<Rightarrow> string \<times> string" where
  "event_key (Revoked r) = (rv_model_id r, rv_version r)"
| "event_key (Unrevoked m v a r) = (m, v)"

abbreviation record_key :: "registry_record \<Rightarrow> string \<times> string" where
  "record_key r \<equiv> (rr_model_id r, rr_version r)"

definition checked :: "string list \<Rightarrow> (exn + 'a) \<Rightarrow> exn + 'a" where
  "checked ids r = (if list_all valid_identifier ids then r else Inl InvalidIdentifierError)"

definition spec_register :: "registry_record list \<Rightarrow> registry_record \<Rightarrow> exn + registry_record list" where
  "spec_register regs r = checked [rr_model_id r, rr_version r]
     (if record_key r \<in> record_key ` set regs
      then Inl (DuplicateRegistrationError (rr_model_id r) (rr_version r))
      else Inr (regs @ [r]))"

definition spec_get :: "registry_record list \<Rightarrow> string \<Rightarrow> string \<Rightarrow> exn + registry_record option" where
  "spec_get regs m v = checked [m, v] (Inr (find (\<lambda>r. record_key r = (m, v)) regs))"

definition spec_get_by_digest :: "registry_record list \<Rightarrow> string \<Rightarrow> registry_record option" where
  "spec_get_by_digest regs d = find (\<lambda>r. rr_artifact_digest r = d) regs"

definition spec_list_versions :: "registry_record list \<Rightarrow> string \<Rightarrow> exn + string list" where
  "spec_list_versions regs m = checked [m] (Inr (sort (map rr_version (filter (\<lambda>r. rr_model_id r = m) regs))))"

definition spec_append :: "rev_event list \<Rightarrow> rev_event \<Rightarrow> exn + rev_event list" where
  "spec_append evs ev = checked [fst (event_key ev), snd (event_key ev)] (Inr (evs @ [ev]))"

fun revocation_of :: "rev_event option \<Rightarrow> revocation_record option" where
  "revocation_of (Some (Revoked r)) = Some r"
| "revocation_of _ = None"

definition spec_is_revoked :: "rev_event list \<Rightarrow> string \<Rightarrow> string \<Rightarrow> exn + revocation_record option" where
  "spec_is_revoked evs m v = checked [m, v]
     (Inr (revocation_of (find (\<lambda>e. event_key e = (m, v)) (rev evs))))"

text \<open>The operations that change a registry; one that fails changes nothing.\<close>

datatype reg_op =
    Register registry_record
  | Revoke revocation_record
  | Unrevoke string string string string string

fun spec_step :: "registry_record list \<times> rev_event list \<Rightarrow> reg_op \<Rightarrow> registry_record list \<times> rev_event list" where
  "spec_step (regs, evs) (Register r) = (case spec_register regs r of Inl _ \<Rightarrow> (regs, evs) | Inr regs' \<Rightarrow> (regs', evs))"
| "spec_step (regs, evs) (Revoke r) = (case spec_append evs (Revoked r) of Inl _ \<Rightarrow> (regs, evs) | Inr evs' \<Rightarrow> (regs, evs'))"
| "spec_step (regs, evs) (Unrevoke now m v a reason) =
     (case spec_append evs (Unrevoked m v a reason) of Inl _ \<Rightarrow> (regs, evs) | Inr evs' \<Rightarrow> (regs, evs'))"

text \<open>Keys are registered once, and every key is valid.\<close>

definition wf_regs :: "registry_record list \<Rightarrow> bool" where
  "wf_regs regs \<longleftrightarrow> distinct (map record_key regs)
     \<and> list_all (\<lambda>r. valid_identifier (rr_model_id r) \<and> valid_identifier (rr_version r)) regs"

lemma wf_regs_register: "wf_regs regs \<Longrightarrow> spec_register regs r = Inr regs' \<Longrightarrow> wf_regs regs' \<and> regs' = regs @ [r]"
  by (auto simp: wf_regs_def spec_register_def checked_def split: if_splits)

lemma spec_register_prefix: "spec_register regs r = Inr regs' \<Longrightarrow> prefix regs regs'"
  by (auto simp: spec_register_def checked_def split: if_splits)

lemma find_append: "find P (xs @ ys) = (case find P xs of None \<Rightarrow> find P ys | Some x \<Rightarrow> Some x)"
  by (induction xs) auto

lemma spec_step_keeps:
  assumes "spec_step (regs, evs) op = (regs', evs')"
  shows "prefix regs regs' \<and> prefix evs evs' \<and> (wf_regs regs \<longrightarrow> wf_regs regs')"
  using assms
  by (cases op) (auto simp: spec_append_def checked_def dest: wf_regs_register spec_register_prefix split: if_splits sum.splits)

lemma spec_run_keeps:
  "foldl spec_step (regs, evs) ops = (regs', evs') \<Longrightarrow>
     prefix regs regs' \<and> prefix evs evs' \<and> (wf_regs regs \<longrightarrow> wf_regs regs')"
proof (induction ops arbitrary: regs evs)
  case (Cons op ops)
  obtain r e where s: "spec_step (regs, evs) op = (r, e)" by fastforce
  show ?case using Cons.IH [of r e] Cons.prems s spec_step_keeps [OF s] by (auto intro: prefix_order.trans)
qed simp

text \<open>A revocation holds as long as no operation lifts it.\<close>

lemma spec_revocation_stays:
  assumes "find (\<lambda>e. event_key e = (m, v)) (rev evs) = Some (Revoked r0)"
    and "\<forall>op \<in> set ops. \<forall>now a reason. op \<noteq> Unrevoke now m v a reason"
  shows "\<exists>r. find (\<lambda>e. event_key e = (m, v)) (rev (snd (foldl spec_step (regs, evs) ops))) = Some (Revoked r)"
  using assms
proof (induction ops arbitrary: regs evs r0)
  case (Cons op ops)
  obtain r e where s: "spec_step (regs, evs) op = (r, e)" by fastforce
  have "\<exists>r1. find (\<lambda>e. event_key e = (m, v)) (rev e) = Some (Revoked r1)"
    using Cons.prems s by (cases op) (auto simp: spec_append_def checked_def split: if_splits sum.splits)
  then show ?case using Cons.IH [of e _ r] Cons.prems(2) s by auto
qed simp

lemma find_prefix: "find P xs = Some x \<Longrightarrow> prefix xs ys \<Longrightarrow> find P ys = Some x"
  by (auto simp: prefix_def find_append)

lemma find_key:
  assumes "wf_regs regs" and "r \<in> set regs"
  shows "find (\<lambda>r'. record_key r' = record_key r) regs = Some r"
  using assms
proof (induction regs)
  case (Cons r' regs)
  show ?case
  proof (cases "record_key r' = record_key r")
    case True
    then have "record_key r \<notin> record_key ` set regs" using Cons.prems(1) by (auto simp: wf_regs_def)
    then show ?thesis using True Cons.prems(2) by (auto simp: image_iff)
  next
    case False
    then show ?thesis using Cons by (auto simp: wf_regs_def)
  qed
qed simp

section \<open>The protocol\<close>

text \<open>
  \<open>registry/protocol.py\<close> as an interface.  \<open>rep s regs evs\<close> says that the state \<open>s\<close> of an
  implementation represents the registrations and the revocation events; the laws are those of
  a refinement of the abstract registry, its failures included.  An implementation may refuse some
  operations on top of that (\<open>accepts\<close>) and digests it cannot look up (\<open>askable\<close>).
\<close>

locale registry =
  fixes rep :: "'s \<Rightarrow> registry_record list \<Rightarrow> rev_event list \<Rightarrow> bool"
    and accepts :: "reg_op \<Rightarrow> bool"
    and askable :: "string \<Rightarrow> bool"
    and register :: "'s \<Rightarrow> registry_record \<Rightarrow> exn + 's"
    and get :: "'s \<Rightarrow> string \<Rightarrow> string \<Rightarrow> exn + registry_record option"
    and get_by_digest :: "'s \<Rightarrow> string \<Rightarrow> exn + registry_record option"
    and list_versions :: "'s \<Rightarrow> string \<Rightarrow> exn + string list"
    and revoke :: "'s \<Rightarrow> revocation_record \<Rightarrow> exn + 's"
    and unrevoke :: "'s \<Rightarrow> string \<Rightarrow> string \<Rightarrow> string \<Rightarrow> string \<Rightarrow> string \<Rightarrow> exn + 's"
    and is_revoked :: "'s \<Rightarrow> string \<Rightarrow> string \<Rightarrow> exn + revocation_record option"
  assumes rep_wf: "rep s regs evs \<Longrightarrow> wf_regs regs"
    and register_spec: "rep s regs evs \<Longrightarrow> accepts (Register r) \<Longrightarrow>
      (case spec_register regs r of Inl e \<Rightarrow> register s r = Inl e
       | Inr regs' \<Rightarrow> \<exists>s'. register s r = Inr s' \<and> rep s' regs' evs)"
    and register_rejects: "rep s regs evs \<Longrightarrow> \<not> accepts (Register r) \<Longrightarrow> \<exists>e. register s r = Inl e"
    and revoke_rejects: "rep s regs evs \<Longrightarrow> \<not> accepts (Revoke rv) \<Longrightarrow> \<exists>e. revoke s rv = Inl e"
    and unrevoke_rejects: "rep s regs evs \<Longrightarrow> \<not> accepts (Unrevoke now m v actor reason) \<Longrightarrow>
      \<exists>e. unrevoke s now m v actor reason = Inl e"
    and get_spec: "rep s regs evs \<Longrightarrow> get s m v = spec_get regs m v"
    and get_by_digest_rejects: "rep s regs evs \<Longrightarrow> \<not> askable d \<Longrightarrow> \<exists>e. get_by_digest s d = Inl e"
    and get_by_digest_spec: "rep s regs evs \<Longrightarrow> askable d \<Longrightarrow> get_by_digest s d = Inr (spec_get_by_digest regs d)"
    and list_versions_spec: "rep s regs evs \<Longrightarrow> list_versions s m = spec_list_versions regs m"
    and revoke_spec: "rep s regs evs \<Longrightarrow> accepts (Revoke rv) \<Longrightarrow>
      (case spec_append evs (Revoked rv) of Inl e \<Rightarrow> revoke s rv = Inl e
       | Inr evs' \<Rightarrow> \<exists>s'. revoke s rv = Inr s' \<and> rep s' regs evs')"
    and unrevoke_spec: "rep s regs evs \<Longrightarrow> accepts (Unrevoke now m v actor reason) \<Longrightarrow>
      (case spec_append evs (Unrevoked m v actor reason) of Inl e \<Rightarrow> unrevoke s now m v actor reason = Inl e
       | Inr evs' \<Rightarrow> \<exists>s'. unrevoke s now m v actor reason = Inr s' \<and> rep s' regs evs')"
    and is_revoked_spec: "rep s regs evs \<Longrightarrow> is_revoked s m v = spec_is_revoked evs m v"
begin

fun step :: "'s \<Rightarrow> reg_op \<Rightarrow> 's" where
  "step s (Register r) = (case register s r of Inl _ \<Rightarrow> s | Inr s' \<Rightarrow> s')"
| "step s (Revoke r) = (case revoke s r of Inl _ \<Rightarrow> s | Inr s' \<Rightarrow> s')"
| "step s (Unrevoke now m v a reason) = (case unrevoke s now m v a reason of Inl _ \<Rightarrow> s | Inr s' \<Rightarrow> s')"

lemma step_refines:
  assumes "rep s regs evs"
  shows "accepts op \<Longrightarrow> rep (step s op) (fst (spec_step (regs, evs) op)) (snd (spec_step (regs, evs) op))"
    and "\<not> accepts op \<Longrightarrow> step s op = s"
proof -
  show "rep (step s op) (fst (spec_step (regs, evs) op)) (snd (spec_step (regs, evs) op))" if "accepts op"
  proof (cases op)
    case (Register r)
    with register_spec [OF assms, of r] assms that show ?thesis by (auto split: sum.splits)
  next
    case (Revoke r)
    with revoke_spec [OF assms, of r] assms that show ?thesis by (auto split: sum.splits)
  next
    case (Unrevoke now m v a reason)
    with unrevoke_spec [OF assms, where m = m and v = v and actor = a and reason = reason and now = now] assms that
    show ?thesis by (auto split: sum.splits)
  qed
  show "step s op = s" if "\<not> accepts op"
    using that register_rejects [OF assms] revoke_rejects [OF assms] unrevoke_rejects [OF assms] by (cases op) fastforce+
qed

lemma run_refines:
  "rep s regs evs \<Longrightarrow> foldl spec_step (regs, evs) (filter accepts ops) = (regs', evs') \<Longrightarrow> rep (foldl step s ops) regs' evs'"
proof (induction ops arbitrary: s regs evs)
  case (Cons op ops)
  show ?case
  proof (cases "accepts op")
    case True
    obtain r e where s: "spec_step (regs, evs) op = (r, e)" by fastforce
    show ?thesis using Cons.IH [of "step s op" r e] step_refines(1) [OF Cons.prems(1) True] Cons.prems(2) s True by simp
  next
    case False
    then show ?thesis using Cons step_refines(2) [OF Cons.prems(1) False] by simp
  qed
qed simp

lemma run_rep: "rep s regs evs \<Longrightarrow> \<exists>regs' evs'. rep (foldl step s ops) regs' evs' \<and> prefix regs regs' \<and> prefix evs evs'"
  by (metis prod.collapse run_refines spec_run_keeps)

lemma registration_permanent:
  assumes "rep s regs evs" and "get s m v = Inr (Some r)"
  shows "get (foldl step s ops) m v = Inr (Some r)"
proof -
  obtain regs' evs' where r: "rep (foldl step s ops) regs' evs'" "prefix regs regs'"
    using run_rep [OF assms(1)] by blast
  then show ?thesis
    using assms(2) get_spec [OF assms(1)] get_spec [OF r(1)]
    by (auto simp: spec_get_def checked_def split: if_splits intro: find_prefix)
qed

lemma digest_permanent:
  assumes "rep s regs evs" and "get_by_digest s d = Inr (Some r)"
  shows "get_by_digest (foldl step s ops) d = Inr (Some r)"
proof -
  obtain regs' evs' where r: "rep (foldl step s ops) regs' evs'" "prefix regs regs'"
    using run_rep [OF assms(1)] by blast
  have "askable d" using get_by_digest_rejects [OF assms(1), of d] assms(2) by auto
  then show ?thesis
    using assms(2) get_by_digest_spec [OF assms(1)] get_by_digest_spec [OF r(1)] r(2)
    by (auto simp: spec_get_by_digest_def intro: find_prefix)
qed

lemma register_then_get:
  assumes "rep s regs evs" and "register s r = Inr s'"
  shows "get s' (rr_model_id r) (rr_version r) = Inr (Some r) \<and> (\<exists>regs'. rep s' regs' evs)"
proof -
  have "accepts (Register r)" using register_rejects [OF assms(1), of r] assms(2) by auto
  then obtain regs' where a: "spec_register regs r = Inr regs'" "rep s' regs' evs"
    using register_spec [OF assms(1), of r] assms(2) by (cases "spec_register regs r") auto
  have w: "wf_regs regs'" "regs' = regs @ [r]" using wf_regs_register [OF rep_wf [OF assms(1)] a(1)] by auto
  then show ?thesis
    using get_spec [OF a(2)] find_key [of regs' r] a
    by (auto simp: spec_get_def checked_def wf_regs_def)
qed

lemma revocation_stays:
  assumes "rep s regs evs" and "revoke s rv = Inr s'"
    and "\<forall>op \<in> set ops. \<forall>now a reason. op \<noteq> Unrevoke now (rv_model_id rv) (rv_version rv) a reason"
  shows "\<exists>rv'. is_revoked (foldl step s' ops) (rv_model_id rv) (rv_version rv) = Inr (Some rv')"
proof -
  let ?k = "(rv_model_id rv, rv_version rv)"
  let ?last = "\<lambda>evs. find (\<lambda>e. event_key e = ?k) (rev evs)"
  have "accepts (Revoke rv)" using revoke_rejects [OF assms(1), of rv] assms(2) by auto
  then obtain evs1 where a: "spec_append evs (Revoked rv) = Inr evs1" "rep s' regs evs1"
    using revoke_spec [OF assms(1), of rv] assms(2) by (cases "spec_append evs (Revoked rv)") auto
  have valid: "valid_identifier (rv_model_id rv)" "valid_identifier (rv_version rv)"
    and l: "?last evs1 = Some (Revoked rv)"
    using a(1) by (auto simp: spec_append_def checked_def split: if_splits)
  let ?ops = "filter accepts ops"
  obtain rv' where "?last (snd (foldl spec_step (regs, evs1) ?ops)) = Some (Revoked rv')"
    using spec_revocation_stays [OF l, of ?ops regs] assms(3) by auto
  moreover have "rep (foldl step s' ops) (fst (foldl spec_step (regs, evs1) ?ops)) (snd (foldl spec_step (regs, evs1) ?ops))"
    by (rule run_refines [OF a(2)]) simp
  ultimately show ?thesis using is_revoked_spec valid by (fastforce simp: spec_is_revoked_def checked_def)
qed

end

section \<open>The file-backed registry\<close>

text \<open>
  \<open>LocalRegistry\<close>.  \<open>lr_records\<close> lists the files \<open>records/<model_id>/<version>.json\<close> in any order, each with the
  JSON document its text holds, and \<open>lr_index\<close> is the dictionary the digest index holds: \<open>index_text\<close> is the text
  of its file, which \<open>index_text_reads\<close> shows is read as that dictionary.  The revocation log is its text.
\<close>

record local_registry =
  lr_records :: "((string \<times> string) \<times> json) list"
  lr_index :: "(string \<times> string) dict option"
  lr_log :: log_file

definition version_path :: "string \<Rightarrow> string \<Rightarrow> exn + string \<times> string" where
  "version_path model_id version =
     (case validate_identifier model_id of
        Inl e \<Rightarrow> Inl e
      | Inr m \<Rightarrow> (case validate_identifier version of Inl e \<Rightarrow> Inl e | Inr v \<Rightarrow> Inr (m, v)))"

definition read_digest_index :: "local_registry \<Rightarrow> (string \<times> string) dict" where
  "read_digest_index s = (case lr_index s of None \<Rightarrow> [] | Some d \<Rightarrow> d)"

text \<open>\<open>_write_digest_index\<close>.\<close>

definition index_json :: "(string \<times> string) dict \<Rightarrow> json" where
  "index_json index = JObj (map (\<lambda>(d, m, v). (d, JObj [(''model_id'', JStr m), (''version'', JStr v)])) index)"

definition index_text :: "(string \<times> string) dict \<Rightarrow> string" where
  "index_text index = dumps_indented True 0 (index_json index)"

lemma index_text_reads:
  assumes "distinct (map fst index)"
  shows "loads (index_text index) = Some (index_json (sort_key fst index))"
proof -
  have "wf_json (index_json index)" using assms by (auto simp: index_json_def comp_def case_prod_unfold)
  moreover have "canon (index_json index) = index_json (sort_key fst index)"
    using sort_key_fst_map [of "\<lambda>(m, v). JObj [(''model_id'', JStr m), (''version'', JStr v)]" index]
    by (simp add: index_json_def comp_def case_prod_unfold sort_key_id_if_sorted)
  ultimately show ?thesis by (simp add: index_text_def loads_dumps_indented)
qed

definition local_register :: "local_registry \<Rightarrow> registry_record \<Rightarrow> exn + local_registry" where
  "local_register s r =
     (case version_path (rr_model_id r) (rr_version r) of
        Inl e \<Rightarrow> Inl e
      | Inr path \<Rightarrow>
          if map_of (lr_records s) path \<noteq> None
          then Inl (DuplicateRegistrationError (rr_model_id r) (rr_version r))
          else
            (case record_dump r of
               None \<Rightarrow> Inl ValidationError
             | Some doc \<Rightarrow>
                 (let s1 = s\<lparr>lr_records := (path, doc) # lr_records s\<rparr>;
                      index = read_digest_index s1
                  in if map_of index (rr_artifact_digest r) = None
                     then Inr (s1\<lparr>lr_index := Some (sort_key fst
                            (AList.update (rr_artifact_digest r) (rr_model_id r, rr_version r) index))\<rparr>)
                     else Inr s1)))"

definition local_get :: "libs \<Rightarrow> local_registry \<Rightarrow> string \<Rightarrow> string \<Rightarrow> exn + registry_record option" where
  "local_get L s model_id version =
     (case version_path model_id version of
        Inl e \<Rightarrow> Inl e
      | Inr path \<Rightarrow>
          (case map_of (lr_records s) path of
             None \<Rightarrow> Inr None
           | Some doc \<Rightarrow> (case record_of_json L doc of None \<Rightarrow> Inl ValidationError | Some r \<Rightarrow> Inr (Some r))))"

definition local_get_by_digest :: "libs \<Rightarrow> local_registry \<Rightarrow> string \<Rightarrow> exn + registry_record option" where
  "local_get_by_digest L s artifact_digest =
     (case map_of (read_digest_index s) artifact_digest of
        None \<Rightarrow> Inr None
      | Some (m, v) \<Rightarrow> local_get L s m v)"

definition local_list_versions :: "local_registry \<Rightarrow> string \<Rightarrow> exn + string list" where
  "local_list_versions s model_id =
     (case validate_identifier model_id of
        Inl e \<Rightarrow> Inl e
      | Inr m \<Rightarrow> Inr (sort (map (snd \<circ> fst) (filter (\<lambda>f. fst (fst f) = m) (lr_records s)))))"

definition revoke_record :: "revocation_record \<Rightarrow> json" where
  "revoke_record r =
     JObj [(''action'', JStr ''revoke''), (''model_id'', JStr (rv_model_id r)),
           (''version'', JStr (rv_version r)), (''revoked_by'', JStr (rv_revoked_by r)),
           (''reason'', JStr (rv_reason r)), (''revoked_at'', JStr (rv_revoked_at r))]"

definition unrevoke_record :: "string \<Rightarrow> string \<Rightarrow> string \<Rightarrow> string \<Rightarrow> json" where
  "unrevoke_record m v actor reason =
     JObj [(''action'', JStr ''unrevoke''), (''model_id'', JStr m), (''version'', JStr v),
           (''revoked_by'', JStr actor), (''reason'', JStr reason)]"

definition local_revoke :: "(bytes \<Rightarrow> string) \<Rightarrow> local_registry \<Rightarrow> revocation_record \<Rightarrow> exn + local_registry" where
  "local_revoke H s r =
     (case validate_identifier (rv_model_id r) of Inl e \<Rightarrow> Inl e | Inr _ \<Rightarrow>
     (case validate_identifier (rv_version r) of Inl e \<Rightarrow> Inl e | Inr _ \<Rightarrow>
     (case append_entry H (lr_log s) (revoke_record r) of
        Inl e \<Rightarrow> Inl e
      | Inr (t, _) \<Rightarrow> Inr (s\<lparr>lr_log := Some t\<rparr>))))"

definition local_unrevoke ::
    "(bytes \<Rightarrow> string) \<Rightarrow> local_registry \<Rightarrow> string \<Rightarrow> string \<Rightarrow> string \<Rightarrow> string \<Rightarrow> exn + local_registry" where
  "local_unrevoke H s m v actor reason =
     (case validate_identifier m of Inl e \<Rightarrow> Inl e | Inr _ \<Rightarrow>
     (case validate_identifier v of Inl e \<Rightarrow> Inl e | Inr _ \<Rightarrow>
     (case append_entry H (lr_log s) (unrevoke_record m v actor reason) of
        Inl e \<Rightarrow> Inl e
      | Inr (t, _) \<Rightarrow> Inr (s\<lparr>lr_log := Some t\<rparr>))))"

text \<open>The \<open>RevocationRecord\<close> built from a log record: missing keys raise first, then pydantic checks the types.\<close>

definition revocation_from_record :: "json \<Rightarrow> exn + revocation_record" where
  "revocation_from_record r =
     (case map_result (json_item r) [''model_id'', ''version'', ''revoked_by'', ''reason'', ''revoked_at''] of
        Inl e \<Rightarrow> Inl e
      | Inr [JStr m, JStr v, JStr b, JStr q, JStr t] \<Rightarrow>
          Inr \<lparr>rv_model_id = m, rv_version = v, rv_revoked_by = b, rv_reason = q, rv_revoked_at = t\<rparr>
      | Inr _ \<Rightarrow> Inl ValidationError)"

fun replay :: "string \<Rightarrow> string \<Rightarrow> revocation_record option \<Rightarrow> json list \<Rightarrow> exn + revocation_record option" where
  "replay m v latest_revoke [] = Inr latest_revoke"
| "replay m v latest_revoke (r # rs) =
     (case json_item r ''model_id'' of Inl e \<Rightarrow> Inl e | Inr rm \<Rightarrow>
      if rm \<noteq> JStr m then replay m v latest_revoke rs else
     (case json_item r ''version'' of Inl e \<Rightarrow> Inl e | Inr rv \<Rightarrow>
      if rv \<noteq> JStr v then replay m v latest_revoke rs else
     (case json_item r ''action'' of Inl e \<Rightarrow> Inl e | Inr action \<Rightarrow>
      if action = JStr ''revoke'' then
        (case revocation_from_record r of Inl e \<Rightarrow> Inl e | Inr rec \<Rightarrow> replay m v (Some rec) rs)
      else if action = JStr ''unrevoke'' then replay m v None rs
      else replay m v latest_revoke rs)))"

definition local_is_revoked :: "local_registry \<Rightarrow> string \<Rightarrow> string \<Rightarrow> exn + revocation_record option" where
  "local_is_revoked s m v =
     (case validate_identifier m of Inl e \<Rightarrow> Inl e | Inr _ \<Rightarrow>
     (case validate_identifier v of Inl e \<Rightarrow> Inl e | Inr _ \<Rightarrow>
     (case read_all_entries (lr_log s) of
        Inl e \<Rightarrow> Inl e
      | Inr es \<Rightarrow> replay m v None (map ce_record es))))"

section \<open>It refines the abstract registry\<close>

fun event_record :: "rev_event \<Rightarrow> json" where
  "event_record (Revoked r) = revoke_record r"
| "event_record (Unrevoked m v a q) = unrevoke_record m v a q"

text \<open>The files hold the registrations, the index the first one of every digest, the log the events.\<close>

definition local_rep :: "(bytes \<Rightarrow> string) \<Rightarrow> local_registry \<Rightarrow> registry_record list \<Rightarrow> rev_event list \<Rightarrow> bool" where
  "local_rep H s regs evs \<longleftrightarrow>
     wf_regs regs \<and> list_all valid_record regs
     \<and> mset (lr_records s) = mset (map (\<lambda>r. (record_key r, with_nulls (record_fields r))) regs)
     \<and> distinct (map fst (read_digest_index s))
     \<and> (\<forall>d. map_of (read_digest_index s) d = map_option record_key (spec_get_by_digest regs d))
     \<and> holds_records H (lr_log s) (map event_record evs)"

definition empty_registry :: local_registry where
  "empty_registry = \<lparr>lr_records = [], lr_index = None, lr_log = None\<rparr>"

lemma empty_rep: "local_rep H empty_registry [] []"
  by (simp add: local_rep_def empty_registry_def wf_regs_def read_digest_index_def spec_get_by_digest_def holds_records_def)

lemma version_path_eq: "version_path m v = checked [m, v] (Inr (m, v))"
  by (auto simp: version_path_def validate_identifier_eq checked_def)

lemma local_files:
  assumes "local_rep H s regs evs"
  shows "map_of (lr_records s) k = map_option (\<lambda>r. with_nulls (record_fields r)) (find (\<lambda>r. record_key r = k) regs)"
proof -
  let ?fs = "map (\<lambda>r. (record_key r, with_nulls (record_fields r))) regs"
  have d: "distinct (map fst ?fs)" using assms by (simp add: local_rep_def wf_regs_def comp_def)
  have m: "mset (lr_records s) = mset ?fs" using assms by (simp add: local_rep_def)
  then have "mset (map fst (lr_records s)) = mset (map fst ?fs)" by (simp only: mset_map)
  then have "distinct (map fst (lr_records s))" using d mset_eq_imp_distinct_iff by blast
  from map_of_inject_set [OF this d] have "map_of (lr_records s) = map_of ?fs"
    using mset_eq_setD [OF m] by blast
  moreover have "map_of ?fs k = map_option (\<lambda>r. with_nulls (record_fields r)) (find (\<lambda>r. record_key r = k) regs)"
    by (induction regs) auto
  ultimately show ?thesis by simp
qed

lemma json_item_event:
  "json_item (canon (event_record ev)) ''model_id'' = Inr (JStr (fst (event_key ev)))"
  "json_item (canon (event_record ev)) ''version'' = Inr (JStr (snd (event_key ev)))"
  "json_item (canon (event_record ev)) ''action'' = Inr (JStr (case ev of Revoked _ \<Rightarrow> ''revoke'' | Unrevoked _ _ _ _ \<Rightarrow> ''unrevoke''))"
  by (cases ev; simp add: revoke_record_def unrevoke_record_def json_item_canon; simp add: json_item_def)+

lemma revocation_from_revoke: "revocation_from_record (canon (revoke_record r)) = Inr r"
proof -
  have "json_item (canon (revoke_record r)) = (\<lambda>k. map_sum id canon (json_item (revoke_record r) k))"
    unfolding revoke_record_def by (intro ext json_item_canon) simp
  then show ?thesis by (simp add: revocation_from_record_def revoke_record_def json_item_def)
qed

lemma replay_events:
  "replay m v latest (map (\<lambda>ev. canon (event_record ev)) evs) =
     Inr (case find (\<lambda>e. event_key e = (m, v)) (rev evs) of None \<Rightarrow> latest | Some e \<Rightarrow> revocation_of (Some e))"
proof (induction evs arbitrary: latest)
  case (Cons ev evs)
  have key: "event_key ev = (m, v) \<longleftrightarrow> fst (event_key ev) = m \<and> snd (event_key ev) = v"
    by (cases "event_key ev") simp
  have from_record: "ev = Revoked r \<Longrightarrow> revocation_from_record (canon (event_record ev)) = Inr r" for r
    using revocation_from_revoke by simp
  show ?case
    using key from_record
    by (cases ev; simp only: list.map replay.simps json_item_event sum.case Cons.IH rev.simps find_append)
      (auto split: option.splits)
qed simp

lemma wf_event_record: "wf_json (event_record ev)"
  by (cases ev) (simp_all add: revoke_record_def unrevoke_record_def)

lemma log_append:
  assumes "holds_records H f (map event_record evs)"
  shows "\<exists>t e. append_entry H f (event_record ev) = Inr (t, e) \<and> holds_records H (Some t) (map event_record (evs @ [ev]))"
proof -
  obtain t e where a: "append_entry H f (event_record ev) = Inr (t, e)"
    using append_holds [OF assms wf_event_record] by blast
  with holds_records_append [OF assms wf_event_record a] show ?thesis by auto
qed

lemma checked_one: "checked [a] r = (if valid_identifier a then r else Inl InvalidIdentifierError)"
  by (simp add: checked_def)

lemma checked_two:
  "checked [a, b] r = (if valid_identifier a \<and> valid_identifier b then r else Inl InvalidIdentifierError)"
  by (simp add: checked_def)

lemma local_get_eq:
  assumes "local_rep H s regs evs"
  shows "local_get L s m v = spec_get regs m v"
proof (cases "find (\<lambda>r. record_key r = (m, v)) regs")
  case (Some r)
  then have "r \<in> set regs" by (metis find_Some_iff nth_mem)
  then have "record_dump r = Some (with_nulls (record_fields r))"
    using assms by (auto simp: local_rep_def list_all_iff record_dump_def)
  from record_reads [OF this refl, of L] show ?thesis
    using Some by (simp add: local_get_def version_path_eq checked_two spec_get_def local_files [OF assms])
qed (use assms in \<open>simp add: local_get_def version_path_eq checked_two spec_get_def local_files\<close>)

lemma local_get_by_digest_eq:
  assumes "local_rep H s regs evs"
  shows "local_get_by_digest L s d = Inr (spec_get_by_digest regs d)"
proof (cases "spec_get_by_digest regs d")
  case None
  then show ?thesis using assms by (simp add: local_get_by_digest_def local_rep_def)
next
  case (Some r)
  then have "r \<in> set regs" by (metis find_Some_iff2 nth_mem spec_get_by_digest_def)
  then have "local_get L s (rr_model_id r) (rr_version r) = Inr (Some r)"
    using assms find_key [of regs r]
    unfolding local_get_eq [OF assms] by (auto simp: spec_get_def checked_two local_rep_def wf_regs_def list_all_iff)
  then show ?thesis using Some assms by (simp add: local_get_by_digest_def local_rep_def)
qed

lemma local_list_versions_eq:
  assumes "local_rep H s regs evs"
  shows "local_list_versions s m = spec_list_versions regs m"
proof -
  have "mset (map (snd \<circ> fst) (filter (\<lambda>f. fst (fst f) = m) (lr_records s)))
      = image_mset (snd \<circ> fst) (filter_mset (\<lambda>f. fst (fst f) = m) (mset (lr_records s)))"
    by (simp add: mset_filter)
  also have "\<dots> = mset (map rr_version (filter (\<lambda>r. rr_model_id r = m) regs))"
    using assms by (simp add: local_rep_def filter_mset_image_mset image_mset.compositionality comp_def mset_filter)
  finally show ?thesis
    by (simp only: local_list_versions_def spec_list_versions_def validate_identifier_eq checked_one)
      (auto intro: properties_for_sort)
qed

lemma spec_get_by_digest_append:
  "spec_get_by_digest (regs @ [r]) d =
     (case spec_get_by_digest regs d of Some x \<Rightarrow> Some x
      | None \<Rightarrow> if rr_artifact_digest r = d then Some r else None)"
  by (simp add: spec_get_by_digest_def find_append split: option.split)

lemma local_file_new:
  assumes "local_rep H s regs evs"
  shows "map_of (lr_records s) k = None \<longleftrightarrow> k \<notin> record_key ` set regs"
proof -
  have "find (\<lambda>r. record_key r = k) regs = None \<longleftrightarrow> k \<notin> record_key ` set regs"
    unfolding find_None_iff by blast
  then show ?thesis by (simp add: local_files [OF assms])
qed

text \<open>Registering keeps the representation whether or not the digest is new to the index.\<close>

definition registered :: "local_registry \<Rightarrow> registry_record \<Rightarrow> local_registry" where
  "registered s r =
     (let s1 = s\<lparr>lr_records := (record_key r, with_nulls (record_fields r)) # lr_records s\<rparr>
      in if map_of (read_digest_index s) (rr_artifact_digest r) = None
         then s1\<lparr>lr_index := Some (sort_key fst (AList.update (rr_artifact_digest r) (record_key r) (read_digest_index s)))\<rparr>
         else s1)"

lemma read_index_registered:
  "read_digest_index (registered s r) =
     (if map_of (read_digest_index s) (rr_artifact_digest r) = None
      then sort_key fst (AList.update (rr_artifact_digest r) (record_key r) (read_digest_index s))
      else read_digest_index s)"
  "lr_records (registered s r) = (record_key r, with_nulls (record_fields r)) # lr_records s"
  "lr_log (registered s r) = lr_log s"
  by (simp_all add: registered_def Let_def read_digest_index_def)

lemma index_registered:
  assumes "local_rep H s regs evs"
  shows "distinct (map fst (read_digest_index (registered s r)))"
    and "map_of (read_digest_index (registered s r)) d = map_option record_key (spec_get_by_digest (regs @ [r]) d)"
proof -
  have i: "distinct (map fst (read_digest_index s))"
    "\<And>d. map_of (read_digest_index s) d = map_option record_key (spec_get_by_digest regs d)"
    using assms by (auto simp: local_rep_def)
  have u: "distinct (map fst (AList.update (rr_artifact_digest r) (record_key r) (read_digest_index s)))"
    using i(1) by (rule distinct_update)
  show "distinct (map fst (read_digest_index (registered s r)))"
    using i(1) u by (simp add: read_index_registered)
  show "map_of (read_digest_index (registered s r)) d = map_option record_key (spec_get_by_digest (regs @ [r]) d)"
    using i(2) [of d] i(2) [of "rr_artifact_digest r"]
    by (auto simp: read_index_registered map_of_sort_key [OF u] spec_get_by_digest_append split: option.splits)
qed

lemma registered_rep:
  assumes "local_rep H s regs evs" and "wf_regs (regs @ [r])" and "valid_record r"
  shows "local_rep H (registered s r) (regs @ [r]) evs"
  unfolding local_rep_def
proof (intro conjI allI)
  show "mset (lr_records (registered s r)) = mset (map (\<lambda>r. (record_key r, with_nulls (record_fields r))) (regs @ [r]))"
    using assms(1) by (simp add: local_rep_def read_index_registered)
  show "holds_records H (lr_log (registered s r)) (map event_record evs)"
    using assms(1) by (simp add: local_rep_def read_index_registered)
  show "list_all valid_record (regs @ [r])" using assms by (simp add: local_rep_def)
qed (use assms(2) index_registered [OF assms(1)] in auto)

lemma local_register_eq:
  "local_register s r = checked [rr_model_id r, rr_version r]
     (if map_of (lr_records s) (record_key r) \<noteq> None
      then Inl (DuplicateRegistrationError (rr_model_id r) (rr_version r))
      else if valid_record r then Inr (registered s r) else Inl ValidationError)"
  by (simp add: local_register_def version_path_eq checked_two registered_def Let_def read_digest_index_def record_dump_def)

lemma local_register_refines:
  assumes "local_rep H s regs evs" and "valid_record r"
  shows "case spec_register regs r of Inl e \<Rightarrow> local_register s r = Inl e
     | Inr regs' \<Rightarrow> \<exists>s'. local_register s r = Inr s' \<and> local_rep H s' regs' evs"
proof (cases "spec_register regs r")
  case (Inl e)
  then show ?thesis
    using local_file_new [OF assms(1), of "record_key r"] assms(2)
    by (auto simp: spec_register_def checked_two local_register_eq split: if_splits)
next
  case (Inr regs')
  then have "regs' = regs @ [r]" "wf_regs regs'" "local_register s r = Inr (registered s r)"
    using local_file_new [OF assms(1), of "record_key r"] assms wf_regs_register [OF _ Inr]
    by (auto simp: spec_register_def checked_two local_register_eq local_rep_def split: if_splits)
  then show ?thesis using Inr registered_rep [OF assms(1) _ assms(2)] by simp
qed

lemma local_append_refines:
  assumes "local_rep H s regs evs"
    and "f = (case validate_identifier (fst (event_key ev)) of Inl e \<Rightarrow> Inl e | Inr _ \<Rightarrow>
       (case validate_identifier (snd (event_key ev)) of Inl e \<Rightarrow> Inl e | Inr _ \<Rightarrow>
       (case append_entry H (lr_log s) (event_record ev) of Inl e \<Rightarrow> Inl e
        | Inr (t, _) \<Rightarrow> Inr (s\<lparr>lr_log := Some t\<rparr>))))"
  shows "case spec_append evs ev of Inl e \<Rightarrow> f = Inl e
     | Inr evs' \<Rightarrow> \<exists>s'. f = Inr s' \<and> local_rep H s' regs evs'"
proof (cases "valid_identifier (fst (event_key ev)) \<and> valid_identifier (snd (event_key ev))")
  case True
  obtain t e where t: "append_entry H (lr_log s) (event_record ev) = Inr (t, e)"
    "holds_records H (Some t) (map event_record (evs @ [ev]))"
    using log_append [of H "lr_log s" evs ev] assms(1) unfolding local_rep_def by blast
  then have "local_rep H (s\<lparr>lr_log := Some t\<rparr>) regs (evs @ [ev])"
    using assms(1) by (simp add: local_rep_def read_digest_index_def)
  then show ?thesis using True t(1) assms(2) by (simp add: spec_append_def checked_two validate_identifier_eq)
qed (use assms(2) in \<open>auto simp: spec_append_def checked_two validate_identifier_eq\<close>)

lemma local_is_revoked_eq:
  assumes "local_rep H s regs evs"
  shows "local_is_revoked s m v = spec_is_revoked evs m v"
proof -
  have "holds_records H (lr_log s) (map event_record evs)" using assms by (simp add: local_rep_def)
  from read_all_holds [OF this] have "read_all_entries (lr_log s) = Inr (entries_of H (map event_record evs))" .
  then show ?thesis
    using replay_events [of m v None evs]
    by (auto simp: local_is_revoked_def spec_is_revoked_def checked_two validate_identifier_eq
        entries_of_def map_record_chain_from comp_def split: option.splits)
qed

text \<open>It accepts every instance of the models.\<close>

fun local_accepts :: "reg_op \<Rightarrow> bool" where
  "local_accepts (Register r) \<longleftrightarrow> valid_record r"
| "local_accepts _ \<longleftrightarrow> True"

interpretation local_reg: registry "local_rep H" local_accepts "\<lambda>_. True" local_register "local_get L" "local_get_by_digest L"
  local_list_versions "local_revoke H" "\<lambda>s now. local_unrevoke H s" local_is_revoked for H L
proof
  fix s regs evs r m v actor reason now d rv
  assume rep: "local_rep H s regs evs"
  show "wf_regs regs" using rep by (simp add: local_rep_def)
  show "case spec_register regs r of Inl e \<Rightarrow> local_register s r = Inl e
     | Inr regs' \<Rightarrow> \<exists>s'. local_register s r = Inr s' \<and> local_rep H s' regs' evs" if "local_accepts (Register r)"
    using local_register_refines [OF rep] that by simp
  show "\<exists>e. local_register s r = Inl e" if "\<not> local_accepts (Register r)"
    using that by (simp add: local_register_eq checked_two)
  show "\<exists>e. local_revoke H s rv = Inl e" if "\<not> local_accepts (Revoke rv)" using that by simp
  show "\<exists>e. local_unrevoke H s m v actor reason = Inl e" if "\<not> local_accepts (Unrevoke now m v actor reason)" using that by simp
  show "\<exists>e. local_get_by_digest L s d = Inl e" if "\<not> True" using that by simp
  show "local_get L s m v = spec_get regs m v" by (rule local_get_eq [OF rep])
  show "local_get_by_digest L s d = Inr (spec_get_by_digest regs d)" by (rule local_get_by_digest_eq [OF rep])
  show "local_list_versions s m = spec_list_versions regs m" by (rule local_list_versions_eq [OF rep])
  show "case spec_append evs (Revoked rv) of Inl e \<Rightarrow> local_revoke H s rv = Inl e
     | Inr evs' \<Rightarrow> \<exists>s'. local_revoke H s rv = Inr s' \<and> local_rep H s' regs evs'"
    by (rule local_append_refines [OF rep])
      (unfold local_revoke_def event_key.simps event_record.simps fst_conv snd_conv, rule refl)
  show "case spec_append evs (Unrevoked m v actor reason) of Inl e \<Rightarrow> local_unrevoke H s m v actor reason = Inl e
     | Inr evs' \<Rightarrow> \<exists>s'. local_unrevoke H s m v actor reason = Inr s' \<and> local_rep H s' regs evs'"
    by (rule local_append_refines [OF rep])
      (unfold local_unrevoke_def event_key.simps event_record.simps fst_conv snd_conv, rule refl)
  show "local_is_revoked s m v = spec_is_revoked evs m v" by (rule local_is_revoked_eq [OF rep])
qed

section \<open>Properties\<close>

text \<open>A caller of the registry: an operation that raises leaves it as it was.\<close>

fun local_step :: "(bytes \<Rightarrow> string) \<Rightarrow> local_registry \<Rightarrow> reg_op \<Rightarrow> local_registry" where
  "local_step H s (Register r) = (case local_register s r of Inl _ \<Rightarrow> s | Inr s' \<Rightarrow> s')"
| "local_step H s (Revoke r) = (case local_revoke H s r of Inl _ \<Rightarrow> s | Inr s' \<Rightarrow> s')"
| "local_step H s (Unrevoke now m v a reason) = (case local_unrevoke H s m v a reason of Inl _ \<Rightarrow> s | Inr s' \<Rightarrow> s')"

definition local_run :: "(bytes \<Rightarrow> string) \<Rightarrow> reg_op list \<Rightarrow> local_registry" where
  "local_run H ops = foldl (local_step H) empty_registry ops"

lemma local_step_eq: "local_step H = local_reg.step H"
proof (intro ext)
  fix s op show "local_step H s op = local_reg.step H s op" by (cases op) simp_all
qed

lemma local_run_append: "local_run H (ops @ ops') = foldl (local_reg.step H) (local_run H ops) ops'"
  by (simp add: local_run_def local_step_eq)

lemma local_run_rep:
  "foldl spec_step ([], []) (filter local_accepts ops) = (regs, evs) \<Longrightarrow> local_rep H (local_run H ops) regs evs"
  unfolding local_run_def local_step_eq by (rule local_reg.run_refines [OF empty_rep])

lemma local_run_rep_ex: "\<exists>regs evs. local_rep H (local_run H ops) regs evs"
  using local_run_rep [of ops _ _ H] by (metis prod.collapse)

text \<open>
  C18. The file-backed registry refines the abstract one: after any operations, failed ones
  included, every query answers what it answers on the list of accepted registrations and the
  list of accepted revocation events, each record read back from the file it was written to.
\<close>

theorem local_registry_refines:
  "case foldl spec_step ([], []) (filter local_accepts ops) of (regs, evs) \<Rightarrow>
     local_get L (local_run H ops) m v = spec_get regs m v
     \<and> local_get_by_digest L (local_run H ops) d = Inr (spec_get_by_digest regs d)
     \<and> local_list_versions (local_run H ops) m = spec_list_versions regs m
     \<and> local_is_revoked (local_run H ops) m v = spec_is_revoked evs m v"
proof -
  obtain regs evs where r: "foldl spec_step ([], []) (filter local_accepts ops) = (regs, evs)" by fastforce
  note rep = local_run_rep [OF r, of H]
  show ?thesis
    using local_reg.get_spec [OF rep] local_reg.get_by_digest_spec [OF rep TrueI]
      local_reg.list_versions_spec [OF rep] local_reg.is_revoked_spec [OF rep]
    by (simp add: r)
qed

text \<open>
  A registration is permanent: what a name and version resolve to never changes, whatever is
  registered, revoked or restored afterwards.
\<close>

theorem registration_never_changes:
  assumes "local_get L (local_run H ops) m v = Inr (Some r)"
  shows "local_get L (local_run H (ops @ ops')) m v = Inr (Some r)"
  using local_run_rep_ex [of H ops] local_reg.registration_permanent [OF _ assms]
  unfolding local_run_append by blast

definition sample_digest :: "char \<Rightarrow> string" where
  "sample_digest c = ''sha256:'' @ replicate 64 c"

lemma sample_digest_valid: "is_lower_hex c \<Longrightarrow> valid_record_digest (sample_digest c)"
  by (simp add: sample_digest_def valid_record_digest_def is_sha256_hex_def list_all_iff)

definition sample_registration :: "string \<Rightarrow> registry_record" where
  "sample_registration name = \<lparr>rr_model_id = name, rr_version = ''1'', rr_artifact_digest = sample_digest CHR ''a'',
     rr_manifest = sample_manifest, rr_mbom = sample_mlbom, rr_registered_by = ''ci'', rr_registered_at = ''t''\<rparr>"

lemmas identifier_simps = valid_identifier_def identifier_problem_def max_identifier_length_def
  is_control_def py_strip_def is_space_def nfc_def

lemma sample_valid: "valid_identifier ''demo''" "valid_identifier ''copy''" "valid_identifier ''1''"
  by (simp_all add: identifier_simps)

lemma sample_registration_valid: "valid_record (sample_registration name)"
  using sample_digest_valid [of "CHR ''a''"]
  by (simp add: valid_record_def sample_registration_def sample_manifest_def valid_manifest_def is_lower_hex_def is_digit_def)

lemma sample_get:
  "local_get L (local_run H [Register (sample_registration ''demo'')]) ''demo'' ''1''
     = Inr (Some (sample_registration ''demo''))"
proof -
  let ?r = "sample_registration ''demo''"
  have l: "local_register empty_registry ?r = Inr (registered empty_registry ?r)"
    using sample_registration_valid sample_valid
    by (simp add: local_register_eq checked_two empty_registry_def) (simp add: sample_registration_def)
  have "rr_model_id ?r = ''demo''" "rr_version ?r = ''1''" by (simp_all add: sample_registration_def)
  with local_reg.register_then_get [OF empty_rep l] show ?thesis by (simp add: local_run_def l)
qed

theorem registration_never_changes_witness:
  "local_get L (local_run sha256 ([Register (sample_registration ''demo'')] @ [Register (sample_registration ''demo''
     \<lparr>rr_artifact_digest := sample_digest CHR ''b''\<rparr>)])) ''demo'' ''1'' = Inr (Some (sample_registration ''demo''))"
  by (rule registration_never_changes [OF sample_get])

text \<open>
  A digest keeps resolving to the registration that first carried it: registering the same
  bytes under another name does not repoint it.
\<close>

theorem digest_keeps_first_registration:
  assumes "local_get_by_digest L (local_run H ops) d = Inr (Some r)"
  shows "local_get_by_digest L (local_run H (ops @ ops')) d = Inr (Some r)"
  using local_run_rep_ex [of H ops] local_reg.digest_permanent [OF _ assms]
  unfolding local_run_append by blast

theorem digest_keeps_first_registration_witness:
  "local_get_by_digest L (local_run H ([Register (sample_registration ''demo'')]
     @ [Register (sample_registration ''copy'')])) (sample_digest CHR ''a'') = Inr (Some (sample_registration ''demo''))"
proof (rule digest_keeps_first_registration)
  show "local_get_by_digest L (local_run H [Register (sample_registration ''demo'')]) (sample_digest CHR ''a'')
      = Inr (Some (sample_registration ''demo''))"
    using sample_get [of L H] sample_registration_valid [of "''demo''"]
    by (simp add: local_get_by_digest_def read_index_registered local_run_def local_register_eq checked_two
        sample_registration_def sample_valid empty_registry_def map_of_sort_key)
      (simp add: read_digest_index_def)
qed

text \<open>
  A revoked version stays revoked until it is explicitly restored: whatever else happens to
  the registry, \<open>is_revoked\<close> keeps reporting a revocation of it.
\<close>

theorem revocation_stays_until_lifted:
  assumes "local_revoke H (local_run H ops) rv = Inr s"
    and "\<forall>op \<in> set ops'. \<forall>now a reason. op \<noteq> Unrevoke now (rv_model_id rv) (rv_version rv) a reason"
  shows "\<exists>rv'. local_is_revoked (foldl (local_step H) s ops') (rv_model_id rv) (rv_version rv) = Inr (Some rv')"
  using local_run_rep_ex [of H ops] local_reg.revocation_stays [OF _ assms]
  unfolding local_step_eq by blast

definition sample_revocation :: revocation_record where
  "sample_revocation = \<lparr>rv_model_id = ''demo'', rv_version = ''1'', rv_revoked_by = ''sec'',
     rv_reason = ''bad'', rv_revoked_at = ''t''\<rparr>"

theorem revocation_stays_until_lifted_witness:
  "\<exists>s rv'. local_revoke sha256 (local_run sha256 []) sample_revocation = Inr s
     \<and> local_is_revoked (foldl (local_step sha256) s [Unrevoke ''t'' ''demo'' ''2'' ''sec'' ''ok'']) ''demo'' ''1'' = Inr (Some rv')"
proof -
  have "\<exists>s. local_revoke sha256 (local_run sha256 []) sample_revocation = Inr s"
    using local_append_refines [OF empty_rep [of sha256], of _ "Revoked sample_revocation"]
    by (auto simp: local_revoke_def local_run_def spec_append_def checked_two sample_revocation_def sample_valid
        split: sum.splits)
  then obtain s where "local_revoke sha256 (local_run sha256 []) sample_revocation = Inr s" by blast
  with revocation_stays_until_lifted [OF this, of "[Unrevoke ''t'' ''demo'' ''2'' ''sec'' ''ok'']"]
  show ?thesis by (auto simp: sample_revocation_def)
qed

end
