(* ===== verification/Provenance.thy ===== *)
theory Provenance
  imports Chain
begin

text \<open>
  \<open>provenance/\<close>: the events of the lineage graph, the store they are appended to, and the
  queries over it.  The theorems say that the two traversals end on any event set, cycles
  included, and compute reachability: \<open>lineage\<close> lists every ancestor edge exactly once,
  \<open>find_models_derived_from\<close> the descendants, and the deployments of a revoked model are those
  whose subject is revoked or descends from a revoked model.
\<close>

section \<open>Data\<close>

record provenance_event =
  pe_subject_id :: string
  pe_relationship :: string
  pe_object_id :: string
  pe_actor :: string
  pe_evidence :: string
  pe_event_id :: string
  pe_timestamp :: string

definition lineage_relationships :: "string list" where
  "lineage_relationships =
     [''DERIVED_FROM'', ''TRAINED_ON'', ''FINE_TUNED_FROM'', ''MERGED_FROM'', ''QUANTIZED_FROM'',
      ''EXPORTED_FROM'', ''PACKAGED_IN'']"

definition event_to_record :: "provenance_event \<Rightarrow> json" where
  "event_to_record e =
     JObj [(''event_id'', JStr (pe_event_id e)), (''subject_id'', JStr (pe_subject_id e)),
           (''relationship'', JStr (pe_relationship e)), (''object_id'', JStr (pe_object_id e)),
           (''actor'', JStr (pe_actor e)), (''evidence'', JStr (pe_evidence e)),
           (''timestamp'', JStr (pe_timestamp e))]"

definition event_from_record :: "json \<Rightarrow> exn + provenance_event" where
  "event_from_record r =
     (case str_item r ''event_id'' of Inl e \<Rightarrow> Inl e | Inr event_id \<Rightarrow>
     (case str_item r ''subject_id'' of Inl e \<Rightarrow> Inl e | Inr subject_id \<Rightarrow>
     (case str_item r ''relationship'' of Inl e \<Rightarrow> Inl e | Inr relationship \<Rightarrow>
     (case str_item r ''object_id'' of Inl e \<Rightarrow> Inl e | Inr object_id \<Rightarrow>
     (case str_item r ''actor'' of Inl e \<Rightarrow> Inl e | Inr actor \<Rightarrow>
     (case str_item r ''evidence'' of Inl e \<Rightarrow> Inl e | Inr evidence \<Rightarrow>
     (case str_item r ''timestamp'' of Inl e \<Rightarrow> Inl e | Inr timestamp \<Rightarrow>
       Inr \<lparr>pe_subject_id = subject_id, pe_relationship = relationship, pe_object_id = object_id,
            pe_actor = actor, pe_evidence = evidence, pe_event_id = event_id,
            pe_timestamp = timestamp\<rparr>)))))))"

section \<open>The store\<close>

definition provenance_record ::
    "(bytes \<Rightarrow> string) \<Rightarrow> log_file \<Rightarrow> provenance_event \<Rightarrow> exn + string \<times> provenance_event" where
  "provenance_record H f event =
     (case append_entry H f (event_to_record event) of
        Inl e \<Rightarrow> Inl e
      | Inr (t, _) \<Rightarrow> Inr (t, event))"

definition store_events :: "log_file \<Rightarrow> exn + provenance_event list" where
  "store_events f = all_events event_from_record f"

definition provenance_verify :: "(bytes \<Rightarrow> string) \<Rightarrow> log_file \<Rightarrow> exn + unit" where
  "provenance_verify H f = verify_chain H f"

interpretation provenance_log: event_log event_to_record event_from_record
proof
  fix e :: provenance_event
  have "distinct (map fst
   [(''event_id'', JStr (pe_event_id e)), (''subject_id'', JStr (pe_subject_id e)),
           (''relationship'', JStr (pe_relationship e)), (''object_id'', JStr (pe_object_id e)),
           (''actor'', JStr (pe_actor e)), (''evidence'', JStr (pe_evidence e)),
           (''timestamp'', JStr (pe_timestamp e))])" by simp
  note c = str_item_canon [OF this]
  show "event_from_record (canon (event_to_record e)) = Inr e"
    by (simp only: event_to_record_def event_from_record_def c) (simp add: item_defs)
  show "wf_json (event_to_record e)" by (simp add: event_to_record_def)
qed

section \<open>Queries\<close>

definition in_lineage :: "provenance_event \<Rightarrow> bool" where
  "in_lineage e \<longleftrightarrow> pe_relationship e \<in> set lineage_relationships"

definition parents :: "log_file \<Rightarrow> string \<Rightarrow> exn + provenance_event list" where
  "parents store model_id =
     map_sum id (filter (\<lambda>e. pe_subject_id e = model_id \<and> in_lineage e)) (store_events store)"

definition children :: "log_file \<Rightarrow> string \<Rightarrow> exn + provenance_event list" where
  "children store model_id =
     map_sum id (filter (\<lambda>e. pe_object_id e = model_id \<and> in_lineage e)) (store_events store)"

text \<open>
  The traversals keep a set of visited ids and a stack, \<open>frontier\<close>, whose end is popped.
  \<open>expand\<close> is their inner loop over the edges found at the popped id; \<open>tgt\<close> is the end of an
  edge they walk to.
\<close>

fun expand :: "('e \<Rightarrow> string) \<Rightarrow> 'e list \<Rightarrow> string set \<Rightarrow> string list \<Rightarrow> string set \<times> string list" where
  "expand tgt [] visited frontier = (visited, frontier)"
| "expand tgt (edge # es) visited frontier =
     (if tgt edge \<notin> visited
      then expand tgt es (insert (tgt edge) visited) (frontier @ [tgt edge])
      else expand tgt es visited frontier)"

lemma expand_spec:
  "expand tgt es v f = (v', f') \<Longrightarrow>
     v' = v \<union> tgt ` set es \<and> (\<exists>news. f' = f @ news \<and> distinct news \<and> set news = tgt ` set es - v)"
proof (induction es arbitrary: v f)
  case (Cons e es)
  show ?case
  proof (cases "tgt e \<in> v")
    case True
    then show ?thesis using Cons.IH [of v f] Cons.prems by (auto simp: insert_absorb)
  next
    case False
    then obtain news where "v' = insert (tgt e) v \<union> tgt ` set es"
      "f' = (f @ [tgt e]) @ news" "distinct news" "set news = tgt ` set es - insert (tgt e) v"
      using Cons.IH [of "insert (tgt e) v" "f @ [tgt e]"] Cons.prems by auto
    then show ?thesis using False by (auto intro!: exI [of _ "tgt e # news"])
  qed
qed simp

lemma expand_measure:
  assumes "expand tgt es v f = (v', f')" and "set es \<subseteq> set events"
  shows "card (tgt ` set events - v') + length f' = card (tgt ` set events - v) + length f"
proof -
  obtain news where n: "v' = v \<union> tgt ` set es" "f' = f @ news" "distinct news" "set news = tgt ` set es - v"
    using expand_spec [OF assms(1)] by blast
  have "card (tgt ` set events - v) = card (tgt ` set events - v') + card (tgt ` set es - v)"
    by (subst card_Un_disjoint [symmetric]) (use n(1) assms(2) in \<open>auto intro: arg_cong [where f = card]\<close>)
  moreover have "length news = card (tgt ` set es - v)"
    using n(3,4) distinct_card by metis
  ultimately show ?thesis using n(2) by simp
qed

text \<open>
  The outer loop, from the source end \<open>src\<close> of an edge: it collects the edges in the order
  they are met, and ends because every round pops an id and an id is pushed once only.
\<close>

function traverse ::
    "('e \<Rightarrow> string) \<Rightarrow> ('e \<Rightarrow> string) \<Rightarrow> 'e list \<Rightarrow> string set \<Rightarrow> string list \<Rightarrow> 'e list \<Rightarrow> string set \<times> 'e list" where
  "traverse src tgt events visited frontier result =
     (if frontier = [] then (visited, result)
      else (let current = last frontier;
                direct = filter (\<lambda>e. src e = current) events
            in case expand tgt direct visited (butlast frontier) of
                 (visited', frontier') \<Rightarrow>
                   traverse src tgt events visited' frontier' (result @ direct)))"
  by pat_completeness auto
termination
proof (relation "measure (\<lambda>(src, tgt, events, visited, frontier, result). card (tgt ` set events - visited) + length frontier)", goal_cases)
  case (2 src tgt events visited frontier result current direct visited' frontier')
  have "card (tgt ` set events - visited') + length frontier' = card (tgt ` set events - visited) + length (butlast frontier)"
    using 2 by (intro expand_measure [of tgt direct]) auto
  then show ?case using 2(1) by (cases frontier) auto
qed simp

declare traverse.simps [simp del]

lemma traverse_Nil [simp]: "traverse src tgt events visited [] result = (visited, result)"
  by (simp add: traverse.simps)

definition lineage :: "log_file \<Rightarrow> string \<Rightarrow> exn + provenance_event list" where
  "lineage store model_id =
     (case store_events store of
        Inl e \<Rightarrow> Inl e
      | Inr events \<Rightarrow>
          Inr (snd (traverse pe_subject_id pe_object_id (filter in_lineage events) {model_id} [model_id] [])))"

definition derived_ids :: "provenance_event list \<Rightarrow> string \<Rightarrow> string set" where
  "derived_ids events base_model_id =
     fst (traverse pe_object_id pe_subject_id (filter in_lineage events) {} [base_model_id] [])"

definition find_models_derived_from :: "log_file \<Rightarrow> string \<Rightarrow> exn + string list" where
  "find_models_derived_from store base_model_id =
     (case store_events store of
        Inl e \<Rightarrow> Inl e
      | Inr events \<Rightarrow> Inr (sorted_list_of_set (derived_ids events base_model_id)))"

definition find_deployments_using_revoked_model :: "log_file \<Rightarrow> string set \<Rightarrow> exn + provenance_event list" where
  "find_deployments_using_revoked_model store revoked_model_ids =
     (case store_events store of
        Inl e \<Rightarrow> Inl e
      | Inr events \<Rightarrow>
          (let affected = revoked_model_ids \<union> \<Union> (derived_ids events ` revoked_model_ids)
           in Inr (filter (\<lambda>e. pe_relationship e = ''DEPLOYED_TO'' \<and> pe_subject_id e \<in> affected) events)))"

section \<open>The abstract graph\<close>

text \<open>The lineage graph: an edge from a model to what it was derived from.\<close>

definition edges :: "('e \<Rightarrow> string) \<Rightarrow> ('e \<Rightarrow> string) \<Rightarrow> 'e list \<Rightarrow> (string \<times> string) set" where
  "edges src tgt events = (\<lambda>e. (src e, tgt e)) ` set events"

definition derives :: "provenance_event list \<Rightarrow> (string \<times> string) set" where
  "derives events = edges pe_subject_id pe_object_id (filter in_lineage events)"

lemma derives_converse: "edges pe_object_id pe_subject_id (filter in_lineage events) = (derives events)\<inverse>"
  by (auto simp: derives_def edges_def)

lemma direct_targets: "tgt ` set (filter (\<lambda>e. src e = c) events) = edges src tgt events `` {c}"
  by (auto simp: edges_def)

text \<open>What one round does to the visited set and the stack.\<close>

lemma traverse_round:
  assumes "frontier \<noteq> []"
    and "expand tgt (filter (\<lambda>e. src e = last frontier) events) visited (butlast frontier) = (visited', frontier')"
  shows "traverse src tgt events visited frontier result =
      traverse src tgt events visited' frontier' (result @ filter (\<lambda>e. src e = last frontier) events)"
    and "visited' = visited \<union> edges src tgt events `` {last frontier}"
    and "\<exists>news. frontier' = butlast frontier @ news \<and> distinct news
       \<and> set news = edges src tgt events `` {last frontier} - visited"
  using assms expand_spec [OF assms(2)] unfolding direct_targets
  by (auto simp: traverse.simps [of src tgt events visited frontier result] Let_def)

lemma stack_split: "frontier \<noteq> [] \<Longrightarrow> set frontier = insert (last frontier) (set (butlast frontier))"
  by (metis append_butlast_last_id list.simps(15) set_append Un_insert_right list.set(1) sup_bot_right)

text \<open>Every visited id but those still on the stack has its targets visited; so at the end all of them.\<close>

lemma traverse_closed:
  assumes "\<forall>x \<in> visited \<union> base. x \<notin> set frontier \<longrightarrow> edges src tgt events `` {x} \<subseteq> visited"
    and "traverse src tgt events visited frontier result = (v, r)"
  shows "visited \<subseteq> v \<and> edges src tgt events `` (v \<union> base) \<subseteq> v"
  using assms
proof (induction src tgt events visited frontier result rule: traverse.induct)
  case (1 src tgt events visited frontier result)
  show ?case
  proof (cases "frontier = []")
    case True
    then show ?thesis using 1(2,3) by (simp add: subset_iff Image_Un Image_iff) blast
  next
    case False
    obtain v' f' where e: "expand tgt (filter (\<lambda>e. src e = last frontier) events) visited (butlast frontier) = (v', f')"
      by fastforce
    note r = traverse_round [where src = src and tgt = tgt and events = events and visited = visited and frontier = frontier, OF False e]
    have inv: "\<forall>x \<in> v' \<union> base. x \<notin> set f' \<longrightarrow> edges src tgt events `` {x} \<subseteq> v'"
    proof (intro ballI impI)
      fix x assume x: "x \<in> v' \<union> base" "x \<notin> set f'"
      show "edges src tgt events `` {x} \<subseteq> v'"
      proof (cases "x = last frontier")
        case other: False
        obtain news where n: "f' = butlast frontier @ news" "set news = edges src tgt events `` {last frontier} - visited"
          using r(3) by blast
        have "x \<in> visited \<union> base" using x n r(2) by auto
        moreover have "x \<notin> set frontier" using x(2) n(1) other stack_split [OF False] by simp
        ultimately show ?thesis using 1(2) r(2) by blast
      qed (use r(2) in simp)
    qed
    have "v' \<subseteq> v \<and> edges src tgt events `` (v \<union> base) \<subseteq> v"
      by (rule 1(1) [OF False refl refl e [symmetric] inv]) (simp only: 1(3) r(1) [symmetric])
    then show ?thesis using r(2) by blast
  qed
qed

lemma traverse_sound:
  assumes "traverse src tgt events visited frontier result = (v, r)"
  shows "v \<subseteq> visited \<union> (edges src tgt events)\<^sup>+ `` set frontier"
  using assms
proof (induction src tgt events visited frontier result rule: traverse.induct)
  case (1 src tgt events visited frontier result)
  show ?case
  proof (cases "frontier = []")
    case True
    then show ?thesis using 1(2) by auto
  next
    case False
    let ?E = "edges src tgt events"
    obtain v' f' where e: "expand tgt (filter (\<lambda>e. src e = last frontier) events) visited (butlast frontier) = (v', f')"
      by fastforce
    note r = traverse_round [where src = src and tgt = tgt and events = events and visited = visited and frontier = frontier, OF False e]
    have "v \<subseteq> v' \<union> ?E\<^sup>+ `` set f'"
      using 1(1) [OF False refl refl e [symmetric]] 1(2) r(1) by metis
    moreover have "set f' \<subseteq> set (butlast frontier) \<union> ?E `` {last frontier}" using r(3) by auto
    ultimately have "v \<subseteq> visited \<union> ?E `` {last frontier} \<union> ?E\<^sup>+ `` (set (butlast frontier) \<union> ?E `` {last frontier})"
      using r(2) by blast
    also have "\<dots> \<subseteq> visited \<union> ?E\<^sup>+ `` set frontier"
      using stack_split [OF False] by (auto intro: trancl_into_trancl2)
    finally show ?thesis .
  qed
qed

text \<open>The ids already popped are the visited ones off the stack; their edges have been collected, once each.\<close>

lemma traverse_collects:
  assumes "distinct frontier" and "set frontier \<subseteq> visited"
    and "mset result = mset (filter (\<lambda>e. src e \<in> visited - set frontier) events)"
    and "traverse src tgt events visited frontier result = (v, r)"
  shows "mset r = mset (filter (\<lambda>e. src e \<in> v) events)"
  using assms
proof (induction src tgt events visited frontier result rule: traverse.induct)
  case (1 src tgt events visited frontier result)
  show ?case
  proof (cases "frontier = []")
    case True
    then show ?thesis using 1(4,5) by simp
  next
    case False
    let ?E = "edges src tgt events" and ?c = "last frontier"
    obtain v' f' where e: "expand tgt (filter (\<lambda>e. src e = ?c) events) visited (butlast frontier) = (v', f')"
      by fastforce
    note r = traverse_round [where src = src and tgt = tgt and events = events and visited = visited and frontier = frontier, OF False e]
    obtain news where n: "f' = butlast frontier @ news" "distinct news" "set news = ?E `` {?c} - visited"
      using r(3) by blast
    have c: "?c \<in> visited" "?c \<notin> set (butlast frontier)" "distinct (butlast frontier)"
      using 1(2,3) False by (metis append_butlast_last_id distinct_append disjoint_insert(1) last_in_set list.set(2) subsetD,
        metis append_butlast_last_id distinct_append disjoint_insert(1) list.set(2), simp add: distinct_butlast)
    have b: "set (butlast frontier) \<subseteq> visited" using 1(3) stack_split [OF False] by auto
    have d: "distinct f'" "set f' \<subseteq> v'" using n c b r(2) by auto
    have off: "v' - set f' = insert ?c (visited - set frontier)" "?c \<notin> visited - set frontier"
      using n c b r(2) stack_split [OF False] by auto
    have "mset (filter (\<lambda>e. src e \<in> v' - set f') events)
        = mset (filter (\<lambda>e. src e \<in> visited - set frontier) events) + mset (filter (\<lambda>e. src e = ?c) events)"
      unfolding off(1) using off(2) by (induction events) auto
    then have m: "mset (result @ filter (\<lambda>e. src e = ?c) events) = mset (filter (\<lambda>e. src e \<in> v' - set f') events)"
      using 1(4) by simp
    show ?thesis
      by (rule 1(1) [OF False refl refl e [symmetric] d m]) (use 1(5) r(1) in simp)
  qed
qed

lemma closed_trancl: "E `` (v \<union> base) \<subseteq> v \<Longrightarrow> E\<^sup>+ `` base \<subseteq> v"
proof
  fix x assume c: "E `` (v \<union> base) \<subseteq> v" and "x \<in> E\<^sup>+ `` base"
  then obtain b where "(b, x) \<in> E\<^sup>+" "b \<in> base" by auto
  then show "x \<in> v" by (induction rule: trancl_induct) (use c in auto)
qed

lemma derived_ids_trancl: "derived_ids events base = {m. (m, base) \<in> (derives events)\<^sup>+}"
proof -
  let ?ev = "filter in_lineage events"
  obtain v r where t: "traverse pe_object_id pe_subject_id ?ev {} [base] [] = (v, r)" by fastforce
  have "edges pe_object_id pe_subject_id ?ev `` (v \<union> {base}) \<subseteq> v"
    using traverse_closed [OF _ t, of "{base}"] by auto
  from closed_trancl [OF this] have "((derives events)\<inverse>)\<^sup>+ `` {base} \<subseteq> v" unfolding derives_converse .
  moreover have "v \<subseteq> ((derives events)\<inverse>)\<^sup>+ `` {base}"
    using traverse_sound [OF t] unfolding derives_converse by simp
  ultimately have "v = {m. (m, base) \<in> (derives events)\<^sup>+}" by (auto simp: trancl_converse)
  then show ?thesis by (simp add: derived_ids_def t)
qed

lemma finite_derived_ids [simp]: "finite (derived_ids events base)"
proof (rule finite_subset)
  show "derived_ids events base \<subseteq> pe_subject_id ` set events"
    unfolding derived_ids_trancl
    by (auto simp: derives_def edges_def dest!: tranclD)
qed simp

lemma lineage_mset:
  "mset (snd (traverse pe_subject_id pe_object_id (filter in_lineage events) {m} [m] []))
     = mset (filter (\<lambda>e. in_lineage e \<and> (m, pe_subject_id e) \<in> (derives events)\<^sup>*) events)"
proof -
  let ?ev = "filter in_lineage events"
  obtain v r where t: "traverse pe_subject_id pe_object_id ?ev {m} [m] [] = (v, r)" by fastforce
  have cl: "{m} \<subseteq> v \<and> derives events `` (v \<union> {m}) \<subseteq> v"
    using traverse_closed [OF _ t, of "{m}"] by (simp add: derives_def)
  have "v \<subseteq> {m} \<union> (derives events)\<^sup>+ `` {m}"
    using traverse_sound [OF t] by (simp add: derives_def)
  then have "v = (derives events)\<^sup>* `` {m}"
    using cl closed_trancl [of "derives events" v "{m}"] by (auto simp: rtrancl_eq_or_trancl)
  moreover have "mset r = mset (filter (\<lambda>e. pe_subject_id e \<in> v) ?ev)"
    by (rule traverse_collects [OF _ _ _ t]) simp_all
  ultimately show ?thesis by (simp add: t conj_commute)
qed

section \<open>Properties\<close>

text \<open>A store in which two models claim to derive from each other and one of them is deployed.\<close>

definition sample_edge :: "string \<Rightarrow> string \<Rightarrow> string \<Rightarrow> provenance_event" where
  "sample_edge s r t = \<lparr>pe_subject_id = s, pe_relationship = r, pe_object_id = t, pe_actor = ''ci'',
     pe_evidence = ''DECLARED'', pe_event_id = s @ t, pe_timestamp = ''t''\<rparr>"

definition sample_events :: "provenance_event list" where
  "sample_events = [sample_edge ''b'' ''DERIVED_FROM'' ''a'', sample_edge ''a'' ''TRAINED_ON'' ''b'',
     sample_edge ''b'' ''DEPLOYED_TO'' ''prod'']"

definition sample_store :: log_file where
  "sample_store = Some (log_text (entries_of sha256 (map event_to_record sample_events)))"

lemma sample_store_events: "store_events sample_store = Inr sample_events"
  unfolding store_events_def
  by (rule provenance_log.all_events_holds [where H = sha256])
    (auto simp: holds_records_def sample_store_def list_all_iff provenance_log.wf_record)

text \<open>
  C37. \<open>lineage\<close> returns on every event set, cyclic ones included, and lists exactly the lineage
  edges that leave the model or one of its ancestors, each event as often as it is in the store.
\<close>

theorem lineage_ancestors:
  assumes "store_events store = Inr events"
  shows "\<exists>es. lineage store m = Inr es
    \<and> mset es = mset (filter (\<lambda>e. in_lineage e \<and> (m, pe_subject_id e) \<in> (derives events)\<^sup>*) events)"
  using assms lineage_mset by (simp add: lineage_def)

theorem lineage_ancestors_witness:
  "\<exists>es. lineage sample_store ''b'' = Inr es
     \<and> mset es = mset (filter (\<lambda>e. in_lineage e \<and> (''b'', pe_subject_id e) \<in> (derives sample_events)\<^sup>*) sample_events)"
  by (rule lineage_ancestors [OF sample_store_events])

text \<open>
  \<open>find_models_derived_from\<close> lists the transitive descendants of a model, each once and in
  order; the model itself is among them exactly when it lies on a cycle.
\<close>

theorem derived_models_descendants:
  assumes "store_events store = Inr events"
  shows "\<exists>ms. find_models_derived_from store base = Inr ms
    \<and> set ms = {m. (m, base) \<in> (derives events)\<^sup>+} \<and> sorted ms \<and> distinct ms"
proof -
  have "finite {m. (m, base) \<in> (derives events)\<^sup>+}"
    using finite_derived_ids unfolding derived_ids_trancl .
  then show ?thesis using assms by (simp add: find_models_derived_from_def derived_ids_trancl)
qed

theorem derived_models_descendants_witness:
  "\<exists>ms. find_models_derived_from sample_store ''a'' = Inr ms
     \<and> set ms = {m. (m, ''a'') \<in> (derives sample_events)\<^sup>+} \<and> sorted ms \<and> distinct ms"
  by (rule derived_models_descendants [OF sample_store_events])

text \<open>
  C38. The deployments of revoked models are the deployment events whose subject is revoked or
  derives, over any number of steps, from a revoked model.
\<close>

theorem revoked_deployments:
  assumes "store_events store = Inr events"
  shows "find_deployments_using_revoked_model store R = Inr (filter
    (\<lambda>e. pe_relationship e = ''DEPLOYED_TO'' \<and> (\<exists>r \<in> R. (pe_subject_id e, r) \<in> (derives events)\<^sup>*)) events)"
proof -
  have "x \<in> R \<union> \<Union> (derived_ids events ` R) \<longleftrightarrow> (\<exists>r \<in> R. (x, r) \<in> (derives events)\<^sup>*)" for x
    by (auto simp: derived_ids_trancl rtrancl_eq_or_trancl)
  then show ?thesis using assms by (simp add: find_deployments_using_revoked_model_def Let_def)
qed

theorem revoked_deployments_witness:
  "find_deployments_using_revoked_model sample_store {''a''} = Inr (filter
    (\<lambda>e. pe_relationship e = ''DEPLOYED_TO'' \<and> (\<exists>r \<in> {''a''}. (pe_subject_id e, r) \<in> (derives sample_events)\<^sup>*))
    sample_events)"
  by (rule revoked_deployments [OF sample_store_events])

end
