(* ===== verification/Keys.thy ===== *)
theory Keys
  imports Signing
begin

text \<open>
  \<open>signing/keys.py\<close>: local key files.  A directory maps file names to a permission mode and the
  bytes; saving is the sequence of states the system calls go through, so that what other users
  could read meanwhile is part of the model.  \<open>ed_public\<close> derives the public from the private key
  (\<open>Ed25519PrivateKey.public_key\<close>), the other arguments say whether \<open>cryptography\<close> takes raw bytes.
\<close>

type_synonym key_dir = "(nat \<times> bytes) dict"

definition private_key_suffix :: string where "private_key_suffix = ''.modelguard.key''"
definition public_key_suffix :: string where "public_key_suffix = ''.modelguard.pub''"

text \<open>Mode \<open>0600\<close>: the bits for group and others are clear.\<close>

definition owner_only :: nat where "owner_only = 384"

definition private_mode :: "nat \<Rightarrow> bool" where
  "private_mode m \<longleftrightarrow> m mod 64 = 0"

definition generate_keypair :: "(bytes \<Rightarrow> bytes) \<Rightarrow> bytes \<Rightarrow> string \<Rightarrow> local_key_pair" where
  "generate_keypair ed_public seed identity =
     \<lparr>kp_identity = identity, kp_private_key = seed, kp_public_key = ed_public seed\<rparr>"

text \<open>\<open>identity.replace("/", "_").replace("@", "_at_")\<close>.\<close>

definition safe_name :: "string \<Rightarrow> string" where
  "safe_name identity =
     concat (map (\<lambda>c. if c = CHR ''@'' then ''_at_'' else [c]) (map (\<lambda>c. if c = CHR ''/'' then CHR ''_'' else c) identity))"

definition private_file :: "local_key_pair \<Rightarrow> string" where
  "private_file kp = safe_name (kp_identity kp) @ private_key_suffix"

definition public_file :: "local_key_pair \<Rightarrow> string" where
  "public_file kp = safe_name (kp_identity kp) @ public_key_suffix"

text \<open>
  \<open>os.open\<close> with \<open>O_CREAT | O_TRUNC\<close> gives the mode to a new file only; an existing one is emptied
  and keeps its mode.
\<close>

definition open_truncated :: "nat \<Rightarrow> string \<Rightarrow> key_dir \<Rightarrow> key_dir" where
  "open_truncated mode name d =
     AList.update name (case map_of d name of None \<Rightarrow> (mode, []) | Some (m, _) \<Rightarrow> (m, [])) d"

definition write_to :: "string \<Rightarrow> bytes \<Rightarrow> key_dir \<Rightarrow> key_dir" where
  "write_to name b d = (case map_of d name of None \<Rightarrow> d | Some (m, _) \<Rightarrow> AList.update name (m, b) d)"

definition chmod :: "nat \<Rightarrow> string \<Rightarrow> key_dir \<Rightarrow> key_dir" where
  "chmod mode name d = (case map_of d name of None \<Rightarrow> d | Some (_, b) \<Rightarrow> AList.update name (mode, b) d)"

text \<open>The states of the directory, in order; \<open>default_mode\<close> is what \<open>open\<close> creates files with.\<close>

definition save_keypair :: "nat \<Rightarrow> local_key_pair \<Rightarrow> key_dir \<Rightarrow> key_dir list" where
  "save_keypair default_mode kp d0 =
     (let d1 = open_truncated owner_only (private_file kp) d0;
          d2 = write_to (private_file kp) (kp_private_key kp) d1;
          d3 = chmod owner_only (private_file kp) d2;
          d4 = open_truncated default_mode (public_file kp) d3;
          d5 = write_to (public_file kp) (kp_public_key kp) d4
      in [d1, d2, d3, d4, d5])"

definition load_private_key ::
    "(bytes \<Rightarrow> bool) \<Rightarrow> (bytes \<Rightarrow> bytes) \<Rightarrow> key_dir \<Rightarrow> string \<Rightarrow> string \<Rightarrow> exn + local_key_pair" where
  "load_private_key accepts ed_public d name identity =
     (case map_of d name of
        None \<Rightarrow> Inl (KeyNotFoundError name)
      | Some (_, raw) \<Rightarrow>
          if length raw \<noteq> 32 then Inl InvalidKeyError
          else if \<not> accepts raw then Inl InvalidKeyError
          else Inr \<lparr>kp_identity = identity, kp_private_key = raw, kp_public_key = ed_public raw\<rparr>)"

definition load_public_key :: "(bytes \<Rightarrow> bool) \<Rightarrow> key_dir \<Rightarrow> string \<Rightarrow> exn + bytes" where
  "load_public_key accepts d name =
     (case map_of d name of
        None \<Rightarrow> Inl (KeyNotFoundError name)
      | Some (_, raw) \<Rightarrow>
          if length raw \<noteq> 32 then Inl InvalidKeyError
          else if \<not> accepts raw then Inl InvalidKeyError
          else Inr raw)"

lemma files_differ: "private_file kp \<noteq> public_file kp"
  by (simp add: private_file_def public_file_def private_key_suffix_def public_key_suffix_def)

lemma saved_files:
  "map_of (last (save_keypair dm kp d)) (private_file kp) = Some (owner_only, kp_private_key kp)"
  "\<exists>m. map_of (last (save_keypair dm kp d)) (public_file kp) = Some (m, kp_public_key kp)"
  using files_differ [of kp]
  by (auto simp: save_keypair_def Let_def open_truncated_def write_to_def chmod_def split: option.splits)

text \<open>
  A saved key pair is loaded back as it was, and the private key file ends with mode 0600.
\<close>

theorem saved_keys_load:
  assumes "length (kp_private_key kp) = 32" and "accepts (kp_private_key kp)"
    and "kp_public_key kp = ed_public (kp_private_key kp)"
    and "length (kp_public_key kp) = 32" and "accepts_public (kp_public_key kp)"
  shows "load_private_key accepts ed_public (last (save_keypair dm kp d)) (private_file kp) (kp_identity kp) = Inr kp
    \<and> load_public_key accepts_public (last (save_keypair dm kp d)) (public_file kp) = Inr (kp_public_key kp)
    \<and> map_of (last (save_keypair dm kp d)) (private_file kp) = Some (owner_only, kp_private_key kp)"
  using assms saved_files [of dm kp d] by (auto simp: load_private_key_def load_public_key_def)

theorem saved_keys_load_witness:
  "load_private_key (\<lambda>_. True) id (last (save_keypair 420 sample_key_pair [])) (private_file sample_key_pair) ''alice''
     = Inr sample_key_pair
   \<and> load_public_key (\<lambda>_. True) (last (save_keypair 420 sample_key_pair [])) (public_file sample_key_pair)
     = Inr (kp_public_key sample_key_pair)"
  using saved_keys_load [of sample_key_pair "\<lambda>_. True" id "\<lambda>_. True" 420 "[]"]
  by (simp add: sample_key_pair_def)

text \<open>
  When the file is new, no state on the way to a saved key pair has the private key readable by
  another user.
\<close>

theorem new_key_never_exposed:
  assumes "map_of d (private_file kp) = None" and "s \<in> set (save_keypair dm kp d)"
    and "map_of s (private_file kp) = Some (m, b)"
  shows "private_mode m"
  using assms files_differ [of kp]
  by (auto simp: save_keypair_def Let_def open_truncated_def write_to_def chmod_def private_mode_def owner_only_def
      split: option.splits)

theorem new_key_never_exposed_witness:
  "private_mode 384 \<and> map_of (hd (save_keypair 420 sample_key_pair [])) (private_file sample_key_pair) = Some (384, [])"
  using new_key_never_exposed [of "[]" sample_key_pair "hd (save_keypair 420 sample_key_pair [])" 420 384 "[]"]
  by (simp add: save_keypair_def Let_def open_truncated_def owner_only_def)

text \<open>
  When the file exists with a wider mode, the private key is written before the mode is
  narrowed, so that there is a state in which others can read it.
\<close>

theorem overwritten_key_exposed:
  assumes "map_of d (private_file kp) = Some (m, b)" and "\<not> private_mode m"
  shows "\<exists>s \<in> set (save_keypair dm kp d). map_of s (private_file kp) = Some (m, kp_private_key kp)"
  using assms by (auto simp: save_keypair_def Let_def open_truncated_def write_to_def)

theorem overwritten_key_exposed_witness:
  "\<exists>s \<in> set (save_keypair 420 sample_key_pair [(private_file sample_key_pair, (420, ''old''))]).
     map_of s (private_file sample_key_pair) = Some (420, kp_private_key sample_key_pair)"
  by (rule overwritten_key_exposed [where b = "''old''"]) (simp_all add: private_mode_def)

end
