(* ===== verification/Sdk.thy ===== *)
theory Sdk
  imports Scanning Cache Trust Policy Registry Provenance Keys
begin

text \<open>
  The SDK (\<open>sdk.py\<close>): \<open>ModelGuard\<close> puts the components together.  An instance is its configuration
  and the state it owns or was given: the local storage (registry and provenance log), an injected
  registry of any kind with its operations, the hasher and the merged trust configuration.

  Each file argument is the node its path names; a call reads one snapshot.  \<open>H\<close> is SHA-256, \<open>C\<close> the
  cryptographic primitives, \<open>L\<close> the conversions of pydantic and PyYAML, \<open>clock\<close> the
  current time.  A reason is a constructor with its variable parts.
\<close>

section \<open>Registries\<close>

text \<open>The operations of the \<open>Registry\<close> protocol on a state.\<close>

record 'r registry_ops =
  ro_register :: "'r \<Rightarrow> registry_record \<Rightarrow> exn + 'r"
  ro_get :: "'r \<Rightarrow> string \<Rightarrow> string \<Rightarrow> exn + registry_record option"
  ro_get_by_digest :: "'r \<Rightarrow> string \<Rightarrow> exn + registry_record option"
  ro_list_versions :: "'r \<Rightarrow> string \<Rightarrow> exn + string list"
  ro_revoke :: "'r \<Rightarrow> revocation_record \<Rightarrow> exn + 'r"
  ro_is_revoked :: "'r \<Rightarrow> string \<Rightarrow> string \<Rightarrow> exn + revocation_record option"

text \<open>\<open>storage_root\<close>: the local registry and \<open>provenance/events.jsonl\<close>.\<close>

record storage =
  so_registry :: local_registry
  so_provenance :: log_file

record 'r model_guard =
  mg_allow_legacy :: bool
  mg_storage :: "storage option"
  mg_injected :: "'r option"
  mg_hasher :: "(string list \<Rightarrow> exn + hash_result) option"
  mg_trust :: "trust_config option"

section \<open>Construction\<close>

definition guard_trust :: "string list option \<Rightarrow> trust_config option \<Rightarrow> exn + trust_config option" where
  "guard_trust fingerprints config =
     (case (case fingerprints of
              None \<Rightarrow> Inr []
            | Some fps \<Rightarrow> (case build_minimal_trust_config fps of Inl e \<Rightarrow> Inl e | Inr c \<Rightarrow> Inr [c])) of
        Inl e \<Rightarrow> Inl e
      | Inr first \<Rightarrow>
          (let configs = first @ (case config of None \<Rightarrow> [] | Some c \<Rightarrow> [c])
           in if configs = [] then Inr None
              else (case merge_trust_configs configs of Inl e \<Rightarrow> Inl e | Inr c \<Rightarrow> Inr (Some c))))"

definition make_model_guard ::
    "storage option \<Rightarrow> (string list \<Rightarrow> exn + hash_result) option \<Rightarrow> string list option \<Rightarrow> trust_config option
       \<Rightarrow> 'r option \<Rightarrow> bool \<Rightarrow> exn + 'r model_guard" where
  "make_model_guard storage hasher fingerprints config injected allow_legacy_signatures =
     (case guard_trust fingerprints config of
        Inl e \<Rightarrow> Inl e
      | Inr trust \<Rightarrow>
          Inr \<lparr>mg_allow_legacy = allow_legacy_signatures, mg_storage = storage, mg_injected = injected,
               mg_hasher = hasher, mg_trust = trust\<rparr>)"

definition trusted_key_fingerprints :: "'r model_guard \<Rightarrow> string set option" where
  "trusted_key_fingerprints g = map_option (\<lambda>c. tk_key_id ` set (tr_keys c)) (mg_trust g)"

definition has_registry :: "'r model_guard \<Rightarrow> bool" where
  "has_registry g = (mg_injected g \<noteq> None \<or> mg_storage g \<noteq> None)"

definition require_storage_root :: "'r model_guard \<Rightarrow> exn + storage" where
  "require_storage_root g = (case mg_storage g of None \<Rightarrow> Inl ModelGuardError | Some s \<Rightarrow> Inr s)"

text \<open>A query of the \<open>registry\<close> property: the injected registry if there is one, else the local one.\<close>

definition on_registry ::
    "'r model_guard \<Rightarrow> ('r \<Rightarrow> exn + 'a) \<Rightarrow> (local_registry \<Rightarrow> exn + 'a) \<Rightarrow> exn + 'a" where
  "on_registry g injected local =
     (case mg_injected g of
        Some r \<Rightarrow> injected r
      | None \<Rightarrow> (case require_storage_root g of Inl e \<Rightarrow> Inl e | Inr s \<Rightarrow> local (so_registry s)))"

text \<open>An operation of the \<open>registry\<close> property that changes it.\<close>

definition change_registry ::
    "'r model_guard \<Rightarrow> ('r \<Rightarrow> exn + 'r) \<Rightarrow> (local_registry \<Rightarrow> exn + local_registry) \<Rightarrow> exn + 'r model_guard" where
  "change_registry g injected local =
     (case mg_injected g of
        Some r \<Rightarrow> (case injected r of Inl e \<Rightarrow> Inl e | Inr r' \<Rightarrow> Inr (g\<lparr>mg_injected := Some r'\<rparr>))
      | None \<Rightarrow> (case require_storage_root g of Inl e \<Rightarrow> Inl e | Inr s \<Rightarrow>
          (case local (so_registry s) of Inl e \<Rightarrow> Inl e
           | Inr l \<Rightarrow> Inr (g\<lparr>mg_storage := Some (s\<lparr>so_registry := l\<rparr>)\<rparr>))))"

section \<open>Verification\<close>

datatype verify_reason =
    SignatureProblem exn
  | MbomMismatch
  | ArtifactMismatch string string
  | HashProblem exn
  | TrustProblem trust_reason
  | RevokedModel revocation_record

record verification_result =
  vr_allowed :: bool
  vr_artifact_digest :: string
  vr_signature_valid :: bool
  vr_mbom_valid :: bool
  vr_revoked :: bool
  vr_reasons :: "verify_reason list"
  vr_digest_matches :: bool
  vr_signer_trusted :: "bool option"
  vr_revocation_checked :: bool
  vr_digest_from_cache :: bool
  vr_signature_algorithm :: "string option"
  vr_signer_key_fingerprint :: "string option"

definition raise_if_denied :: "(verify_reason \<Rightarrow> string) \<Rightarrow> verification_result \<Rightarrow> exn + unit" where
  "raise_if_denied text r = (if \<not> vr_allowed r then Inl (VerificationDenied (map text (vr_reasons r))) else Inr ())"

text \<open>\<open>try: ... except ModelGuardError\<close>: what it catches becomes a value, anything else goes on.\<close>

definition caught :: "exn + 'a \<Rightarrow> exn + (exn + 'a)" where
  "caught r = (case r of Inl e \<Rightarrow> if is_modelguard e then Inr (Inl e) else Inl e | Inr x \<Rightarrow> Inr (Inr x))"

text \<open>\<open>json.loads(path.read_text())\<close> in a UTF-8 locale; line ends do not matter to JSON.\<close>

definition read_json :: "fs_node option \<Rightarrow> exn + json" where
  "read_json nd =
     (case read_file nd of
        Inl e \<Rightarrow> Inl e
      | Inr raw \<Rightarrow>
          (case utf8_decode raw of
             None \<Rightarrow> Inl UnicodeDecodeError
           | Some t \<Rightarrow> (case loads t of None \<Rightarrow> Inl JSONDecodeError | Some j \<Rightarrow> Inr j)))"

definition load_mbom :: "libs \<Rightarrow> fs_node option \<Rightarrow> exn + mlbom" where
  "load_mbom L nd =
     (case read_json nd of
        Inl e \<Rightarrow> Inl e
      | Inr j \<Rightarrow> (case mlbom_of_json L j of None \<Rightarrow> Inl ValidationError | Some b \<Rightarrow> Inr b))"

definition guard_hash :: "(bytes \<Rightarrow> string) \<Rightarrow> 'r model_guard \<Rightarrow> string list \<Rightarrow> fs_node option \<Rightarrow> exn + hash_result" where
  "guard_hash H g path nd =
     (case mg_hasher g of
        None \<Rightarrow> (case hash_artifact H path nd of Inl e \<Rightarrow> Inl e | Inr d \<Rightarrow> Inr \<lparr>hr_digest = d, hr_from_cache = False\<rparr>)
      | Some hash \<Rightarrow> hash path)"

text \<open>The trust part: whether the signer is trusted, and the reasons it adds.\<close>

definition signer_trust ::
    "trust_config option \<Rightarrow> int \<Rightarrow> signature_payload \<Rightarrow> signature_check option \<Rightarrow> bool option \<times> verify_reason list" where
  "signer_trust trust clock payload chk =
     (case trust of
        None \<Rightarrow> (None, [])
      | Some config \<Rightarrow>
          (case chk of
             None \<Rightarrow> (Some False, [])
           | Some c \<Rightarrow>
               (let evaluation = evaluate_trust (sc_key_fingerprint c) (sc_algorithm c) config
                      (Some (sp_signer_identity payload)) (sp_model_id payload) clock
                in (Some (te_trusted evaluation),
                    if te_trusted evaluation then [] else map TrustProblem (te_reasons evaluation)))))"

text \<open>The revocation part: whether it was checked, and the revocation found.\<close>

definition revocation_check ::
    "'r registry_ops \<Rightarrow> 'r model_guard \<Rightarrow> signature_payload \<Rightarrow> exn + bool \<times> revocation_record option" where
  "revocation_check ops g payload =
     (if has_registry g \<and> truthy (sp_model_id payload) \<and> truthy (sp_version payload) then
        (let m = the (sp_model_id payload); v = the (sp_version payload)
         in case on_registry g (\<lambda>r. ro_is_revoked ops r m v) (\<lambda>l. local_is_revoked l m v) of
              Inl e \<Rightarrow> Inl e
            | Inr revocation \<Rightarrow> Inr (True, revocation))
      else Inr (False, None))"

definition guard_verify ::
    "(bytes \<Rightarrow> string) \<Rightarrow> crypto \<Rightarrow> libs \<Rightarrow> 'r registry_ops \<Rightarrow> int \<Rightarrow> 'r model_guard
       \<Rightarrow> string list \<Rightarrow> fs_node option \<Rightarrow> fs_node option \<Rightarrow> fs_node option \<Rightarrow> exn + verification_result" where
  "guard_verify H C L ops clock g path artifact mbom_file signature_file =
     (case load_mbom L mbom_file of Inl e \<Rightarrow> Inl e | Inr mbom \<Rightarrow>
     (case load_envelope signature_file of Inl e \<Rightarrow> Inl e | Inr envelope \<Rightarrow>
     (case caught (verify_envelope_signature H (default_verifiers C) (mg_allow_legacy g) envelope) of Inl e \<Rightarrow> Inl e
      | Inr signature \<Rightarrow>
     (let hashed = guard_hash H g path artifact;
          mbom_valid = check_mbom_digest H mbom envelope
      in case caught (check_artifact_digest (map_sum id hr_digest hashed) envelope) of Inl e \<Rightarrow> Inl e
      | Inr tamper \<Rightarrow>
     (let payload = se_payload envelope;
          chk = (case signature of Inl _ \<Rightarrow> None | Inr c \<Rightarrow> Some c);
          signature_valid = (chk \<noteq> None);
          digest_matches = (case tamper of Inl _ \<Rightarrow> False | Inr t \<Rightarrow> tc_matches t);
          trust = signer_trust (mg_trust g) clock payload chk
      in case revocation_check ops g payload of Inl e \<Rightarrow> Inl e
      | Inr (revocation_checked, revocation) \<Rightarrow>
          Inr \<lparr>vr_allowed = (signature_valid \<and> mbom_valid \<and> digest_matches \<and> fst trust \<noteq> Some False \<and> revocation = None),
               vr_artifact_digest = (case tamper of Inl _ \<Rightarrow> sp_artifact_digest payload | Inr t \<Rightarrow> tc_current_digest t),
               vr_signature_valid = signature_valid,
               vr_mbom_valid = mbom_valid,
               vr_revoked = (revocation \<noteq> None),
               vr_reasons =
                 (case signature of Inl e \<Rightarrow> [SignatureProblem e] | Inr _ \<Rightarrow> [])
                 @ (if mbom_valid then [] else [MbomMismatch])
                 @ (case tamper of Inl e \<Rightarrow> [HashProblem e]
                    | Inr t \<Rightarrow> if tc_matches t then [] else [ArtifactMismatch (tc_signed_digest t) (tc_current_digest t)])
                 @ snd trust
                 @ (case revocation of None \<Rightarrow> [] | Some rv \<Rightarrow> [RevokedModel rv]),
               vr_digest_matches = digest_matches,
               vr_signer_trusted = fst trust,
               vr_revocation_checked = revocation_checked,
               vr_digest_from_cache = (case hashed of Inl _ \<Rightarrow> False | Inr h \<Rightarrow> hr_from_cache h),
               vr_signature_algorithm = map_option sc_algorithm chk,
               vr_signer_key_fingerprint = map_option sc_key_fingerprint chk\<rparr>)))))"

section \<open>Signing and scanning\<close>

definition guard_inspect :: "(bytes \<Rightarrow> string) \<Rightarrow> string list \<Rightarrow> fs_node option \<Rightarrow> exn + artifact_digest" where
  "guard_inspect H path nd = hash_artifact H path nd"

definition guard_build_manifest ::
    "(bytes \<Rightarrow> string) \<Rightarrow> string list \<Rightarrow> fs_node option \<Rightarrow> declared_metadata option \<Rightarrow> exn + manifest" where
  "guard_build_manifest H path nd metadata = build_manifest H path nd metadata None"

definition guard_generate_mbom :: "string \<Rightarrow> string \<Rightarrow> manifest \<Rightarrow> declared_provenance option \<Rightarrow> mlbom" where
  "guard_generate_mbom uuid now m provenance = generate_mbom uuid now m provenance"

definition guard_sign ::
    "(bytes \<Rightarrow> string) \<Rightarrow> crypto \<Rightarrow> (bytes \<Rightarrow> bytes \<Rightarrow> bytes) \<Rightarrow> string \<Rightarrow> manifest \<Rightarrow> mlbom \<Rightarrow> local_key_pair
       \<Rightarrow> exn + signature_envelope" where
  "guard_sign H C ed_sign now m b kp = sign_artifact H C ed_sign now m b kp"

definition guard_sign_with_provider ::
    "(bytes \<Rightarrow> string) \<Rightarrow> crypto \<Rightarrow> string \<Rightarrow> manifest \<Rightarrow> mlbom \<Rightarrow> signer_provider \<Rightarrow> exn + signature_envelope" where
  "guard_sign_with_provider H C now m b provider = sign_with_provider H (default_verifiers C) now m b provider"

definition guard_load_public_key :: "(bytes \<Rightarrow> bool) \<Rightarrow> key_dir \<Rightarrow> string \<Rightarrow> exn + bytes" where
  "guard_load_public_key accepts d name = load_public_key accepts d name"

definition guard_scan ::
    "(bytes \<Rightarrow> string) \<Rightarrow> (nat \<Rightarrow> bool) \<Rightarrow> string list \<Rightarrow> fs_node option \<Rightarrow> manifest option \<Rightarrow> mlbom option \<Rightarrow> exn + scan_report" where
  "guard_scan H word path nd m b = run_scanners H word path nd m b None None"

section \<open>The registry operations\<close>

definition guard_register ::
    "'r registry_ops \<Rightarrow> string \<Rightarrow> 'r model_guard \<Rightarrow> manifest \<Rightarrow> mlbom \<Rightarrow> string
       \<Rightarrow> exn + 'r model_guard \<times> registry_record" where
  "guard_register ops now g m b actor =
     (if \<not> truthy (m_model_id m) \<or> \<not> truthy (m_version m) then Inl ModelGuardError
      else
        (let record = \<lparr>rr_model_id = the (m_model_id m), rr_version = the (m_version m),
               rr_artifact_digest = m_algorithm m @ '':'' @ m_digest m, rr_manifest = m, rr_mbom = b,
               rr_registered_by = actor, rr_registered_at = now\<rparr>
         in if \<not> valid_record_digest (rr_artifact_digest record) then Inl ValidationError
            else (case change_registry g (\<lambda>r. ro_register ops r record) (\<lambda>l. local_register l record) of
              Inl e \<Rightarrow> Inl e
            | Inr g' \<Rightarrow> Inr (g', record))))"

definition guard_resolve ::
    "libs \<Rightarrow> 'r registry_ops \<Rightarrow> 'r model_guard \<Rightarrow> string \<Rightarrow> string \<Rightarrow> exn + registry_record option" where
  "guard_resolve L ops g m v = on_registry g (\<lambda>r. ro_get ops r m v) (\<lambda>l. local_get L l m v)"

definition guard_resolve_by_digest ::
    "libs \<Rightarrow> 'r registry_ops \<Rightarrow> 'r model_guard \<Rightarrow> string \<Rightarrow> exn + registry_record option" where
  "guard_resolve_by_digest L ops g d = on_registry g (\<lambda>r. ro_get_by_digest ops r d) (\<lambda>l. local_get_by_digest L l d)"

definition guard_revoke ::
    "(bytes \<Rightarrow> string) \<Rightarrow> 'r registry_ops \<Rightarrow> string \<Rightarrow> 'r model_guard \<Rightarrow> string \<Rightarrow> string \<Rightarrow> string \<Rightarrow> string
       \<Rightarrow> exn + 'r model_guard \<times> revocation_record" where
  "guard_revoke H ops now g m v actor reason =
     (let record = \<lparr>rv_model_id = m, rv_version = v, rv_revoked_by = actor, rv_reason = reason, rv_revoked_at = now\<rparr>
      in case change_registry g (\<lambda>r. ro_revoke ops r record) (\<lambda>l. local_revoke H l record) of
           Inl e \<Rightarrow> Inl e
         | Inr g' \<Rightarrow> Inr (g', record))"

definition guard_is_revoked ::
    "'r registry_ops \<Rightarrow> 'r model_guard \<Rightarrow> string \<Rightarrow> string \<Rightarrow> exn + revocation_record option" where
  "guard_is_revoked ops g m v = on_registry g (\<lambda>r. ro_is_revoked ops r m v) (\<lambda>l. local_is_revoked l m v)"

section \<open>Provenance\<close>

definition guard_record_provenance ::
    "(bytes \<Rightarrow> string) \<Rightarrow> 'r model_guard \<Rightarrow> provenance_event \<Rightarrow> exn + 'r model_guard \<times> provenance_event" where
  "guard_record_provenance H g event =
     (case require_storage_root g of Inl e \<Rightarrow> Inl e | Inr s \<Rightarrow>
     (case provenance_record H (so_provenance s) event of Inl e \<Rightarrow> Inl e
      | Inr (t, ev) \<Rightarrow> Inr (g\<lparr>mg_storage := Some (s\<lparr>so_provenance := Some t\<rparr>)\<rparr>, ev)))"

text \<open>A query of the provenance store.\<close>

definition on_provenance :: "'r model_guard \<Rightarrow> (log_file \<Rightarrow> exn + 'a) \<Rightarrow> exn + 'a" where
  "on_provenance g query = (case require_storage_root g of Inl e \<Rightarrow> Inl e | Inr s \<Rightarrow> query (so_provenance s))"

definition guard_parents :: "'r model_guard \<Rightarrow> string \<Rightarrow> exn + provenance_event list" where
  "guard_parents g model_id = on_provenance g (\<lambda>store. parents store model_id)"

definition guard_children :: "'r model_guard \<Rightarrow> string \<Rightarrow> exn + provenance_event list" where
  "guard_children g model_id = on_provenance g (\<lambda>store. children store model_id)"

definition guard_lineage :: "'r model_guard \<Rightarrow> string \<Rightarrow> exn + provenance_event list" where
  "guard_lineage g model_id = on_provenance g (\<lambda>store. lineage store model_id)"

definition guard_models_derived_from :: "'r model_guard \<Rightarrow> string \<Rightarrow> exn + string list" where
  "guard_models_derived_from g model_id = on_provenance g (\<lambda>store. find_models_derived_from store model_id)"

text \<open>The ids with a revoked version, as the loop over \<open>(subject_id, object_id)\<close> of every event collects them.\<close>

fun revoked_versions ::
    "(string \<Rightarrow> string \<Rightarrow> exn + revocation_record option) \<Rightarrow> string \<Rightarrow> string list \<Rightarrow> exn + string set" where
  "revoked_versions is_revoked m [] = Inr {}"
| "revoked_versions is_revoked m (v # vs) =
     (case is_revoked m v of Inl e \<Rightarrow> Inl e
      | Inr rv \<Rightarrow> map_sum id (\<lambda>s. if rv \<noteq> None then insert m s else s) (revoked_versions is_revoked m vs))"

fun revoked_candidates ::
    "(string \<Rightarrow> exn + string list) \<Rightarrow> (string \<Rightarrow> string \<Rightarrow> exn + revocation_record option) \<Rightarrow> string list \<Rightarrow> exn + string set" where
  "revoked_candidates list_versions is_revoked [] = Inr {}"
| "revoked_candidates list_versions is_revoked (c # cs) =
     (case list_versions c of Inl e \<Rightarrow> Inl e
      | Inr vs \<Rightarrow>
          (case revoked_versions is_revoked c vs of Inl e \<Rightarrow> Inl e
           | Inr s \<Rightarrow> map_sum id (\<lambda>t. s \<union> t) (revoked_candidates list_versions is_revoked cs)))"

definition guard_find_deployments ::
    "'r registry_ops \<Rightarrow> 'r model_guard \<Rightarrow> exn + provenance_event list" where
  "guard_find_deployments ops g =
     (case require_storage_root g of Inl e \<Rightarrow> Inl e | Inr s \<Rightarrow>
     (case store_events (so_provenance s) of Inl e \<Rightarrow> Inl e | Inr events \<Rightarrow>
     (case revoked_candidates
             (\<lambda>c. on_registry g (\<lambda>r. ro_list_versions ops r c) (\<lambda>l. local_list_versions l c))
             (guard_is_revoked ops g)
             (concat (map (\<lambda>ev. [pe_subject_id ev, pe_object_id ev]) events)) of
        Inl e \<Rightarrow> Inl e
      | Inr revoked_ids \<Rightarrow> find_deployments_using_revoked_model (so_provenance s) revoked_ids)))"

section \<open>Policy checks\<close>

record policy_check =
  pk_decision :: policy_decision_result
  pk_verification :: verification_result
  pk_scan_report :: scan_report

text \<open>\<open>s.split(":", 1)[-1]\<close>.\<close>

definition after_colon :: "string \<Rightarrow> string" where
  "after_colon s = (let p = py_partition (CHR '':'') s in if fst (snd p) = [] then s else snd (snd p))"

text \<open>The manifest made up from the signature for the rules.\<close>

definition policy_manifest :: "fs_node option \<Rightarrow> verification_result \<Rightarrow> signature_payload \<Rightarrow> manifest" where
  "policy_manifest artifact verification payload =
     \<lparr>m_schema_version = manifest_schema_version,
      m_artifact_type = (if path_is_file artifact then ''file'' else ''directory''),
      m_algorithm = ''sha256'', m_digest = after_colon (vr_artifact_digest verification),
      m_model_id = sp_model_id payload, m_artifact_name = None, m_version = sp_version payload, m_format = None,
      m_framework = None, m_license = None, m_creator = None, m_source_location = None, m_files = []\<rparr>"

definition check_policy_detailed ::
    "(bytes \<Rightarrow> string) \<Rightarrow> crypto \<Rightarrow> libs \<Rightarrow> (nat \<Rightarrow> bool)
       \<Rightarrow> 'r registry_ops \<Rightarrow> int \<Rightarrow> 'r model_guard
       \<Rightarrow> string list \<Rightarrow> fs_node option \<Rightarrow> fs_node option \<Rightarrow> fs_node option \<Rightarrow> fs_node option \<Rightarrow> exn + policy_check" where
  "check_policy_detailed H C L word ops clock g path artifact mbom_file signature_file policy_file =
     (case load_mbom L mbom_file of Inl e \<Rightarrow> Inl e | Inr mbom \<Rightarrow>
     (case guard_verify H C L ops clock g path artifact mbom_file signature_file of Inl e \<Rightarrow> Inl e | Inr verification \<Rightarrow>
     (case read_json signature_file of Inl e \<Rightarrow> Inl e | Inr j \<Rightarrow>
     (case envelope_of_json j of None \<Rightarrow> Inl ValidationError | Some envelope \<Rightarrow>
     (let manifest = policy_manifest artifact verification (se_payload envelope)
      in case run_scanners H word path artifact (Some manifest) (Some mbom) None
             (if vr_digest_matches verification then Some (vr_artifact_digest verification) else None) of
           Inl e \<Rightarrow> Inl e
         | Inr scan_report \<Rightarrow>
     (case load_policy_file L policy_file of Inl e \<Rightarrow> Inl e | Inr policy \<Rightarrow>
        Inr \<lparr>pk_decision = evaluate (build_context manifest mbom (vr_signature_valid verification) (vr_mbom_valid verification)
                 (vr_revoked verification) (vr_digest_matches verification) True
                 (count_severity scan_report CRITICAL) (count_severity scan_report HIGH) (vr_signer_trusted verification)) policy,
             pk_verification = verification, pk_scan_report = scan_report\<rparr>))))))"

definition check_policy ::
    "(bytes \<Rightarrow> string) \<Rightarrow> crypto \<Rightarrow> libs \<Rightarrow> (nat \<Rightarrow> bool)
       \<Rightarrow> 'r registry_ops \<Rightarrow> int \<Rightarrow> 'r model_guard
       \<Rightarrow> string list \<Rightarrow> fs_node option \<Rightarrow> fs_node option \<Rightarrow> fs_node option \<Rightarrow> fs_node option \<Rightarrow> exn + policy_decision_result" where
  "check_policy H C L word ops clock g path artifact mbom_file signature_file policy_file =
     map_sum id pk_decision
       (check_policy_detailed H C L word ops clock g path artifact mbom_file signature_file policy_file)"

text \<open>An ML-BOM file that was written is loaded as it was.\<close>

lemma read_written_json: "wf_json j \<Longrightarrow> read_json (Some (FFile (dumps j))) = Inr (canon j)"
  by (simp add: read_json_def read_file_def dumps_ascii loads_dumps)

lemma load_written_mbom: "load_mbom L (Some (FFile (dumps (drop_none (mlbom_fields b))))) = Inr b"
  by (simp add: load_mbom_def read_written_json [OF wf_mlbom] mlbom_of_dump)

section \<open>What verification concludes\<close>

lemma verify_modelguard: "verify_envelope_signature H (default_verifiers C) allow env = Inl e \<Longrightarrow> is_modelguard e"
proof -
  assume "verify_envelope_signature H (default_verifiers C) allow env = Inl e"
  then have "catches SignatureInvalidErrorC e" using verify_fails default_verifier by blast
  then show ?thesis by (auto simp: is_modelguard_iff catches_signature_invalid)
qed

lemma caught_simps [simp]:
  "caught (Inr x) = Inr (Inr x)" "is_modelguard e \<Longrightarrow> caught (Inl e) = Inr (Inl e)" "\<not> is_modelguard e \<Longrightarrow> caught (Inl e) = Inl e"
  by (simp_all add: caught_def)

lemma caught_Inr_iff: "caught r = Inr x \<longleftrightarrow> r = x \<and> (\<forall>e. x = Inl e \<longrightarrow> is_modelguard e)"
  by (cases r) (auto simp: caught_def)

lemma caught_verify: "caught (verify_envelope_signature H (default_verifiers C) allow env)
    = Inr (verify_envelope_signature H (default_verifiers C) allow env)"
  by (cases "verify_envelope_signature H (default_verifiers C) allow env") (auto dest: verify_modelguard)

lemma guard_verify_InrE:
  assumes "guard_verify H C L ops clock g path artifact mbom_file signature_file = Inr r"
  obtains b env tamper rc revocation where "load_mbom L mbom_file = Inr b" and "load_envelope signature_file = Inr env"
    and "check_artifact_digest (map_sum id hr_digest (guard_hash H g path artifact)) env = tamper"
    and "revocation_check ops g (se_payload env) = Inr (rc, revocation)"
    and "r = (let signature = verify_envelope_signature H (default_verifiers C) (mg_allow_legacy g) env;
                  chk = (case signature of Inl _ \<Rightarrow> None | Inr c \<Rightarrow> Some c);
                  digest_matches = (case tamper of Inl _ \<Rightarrow> False | Inr t \<Rightarrow> tc_matches t);
                  mbom_valid = check_mbom_digest H b env;
                  trust = signer_trust (mg_trust g) clock (se_payload env) chk
              in \<lparr>vr_allowed = (chk \<noteq> None \<and> mbom_valid \<and> digest_matches \<and> fst trust \<noteq> Some False \<and> revocation = None),
               vr_artifact_digest = (case tamper of Inl _ \<Rightarrow> sp_artifact_digest (se_payload env) | Inr t \<Rightarrow> tc_current_digest t),
               vr_signature_valid = (chk \<noteq> None), vr_mbom_valid = mbom_valid, vr_revoked = (revocation \<noteq> None),
               vr_reasons =
                 (case signature of Inl e \<Rightarrow> [SignatureProblem e] | Inr _ \<Rightarrow> [])
                 @ (if mbom_valid then [] else [MbomMismatch])
                 @ (case tamper of Inl e \<Rightarrow> [HashProblem e]
                    | Inr t \<Rightarrow> if tc_matches t then [] else [ArtifactMismatch (tc_signed_digest t) (tc_current_digest t)])
                 @ snd trust
                 @ (case revocation of None \<Rightarrow> [] | Some rv \<Rightarrow> [RevokedModel rv]),
               vr_digest_matches = digest_matches, vr_signer_trusted = fst trust, vr_revocation_checked = rc,
               vr_digest_from_cache = (case guard_hash H g path artifact of Inl _ \<Rightarrow> False | Inr h \<Rightarrow> hr_from_cache h),
               vr_signature_algorithm = map_option sc_algorithm chk,
               vr_signer_key_fingerprint = map_option sc_key_fingerprint chk\<rparr>)"
  using assms unfolding guard_verify_def caught_verify Let_def
  by (auto split: sum.splits prod.splits simp: caught_Inr_iff)

lemma guard_verify_revocation:
  assumes "guard_verify H C L ops clock g path artifact mbom_file signature_file = Inr r"
    and "load_envelope signature_file = Inr env"
  obtains revocation where "revocation_check ops g (se_payload env) = Inr (vr_revocation_checked r, revocation)"
    and "vr_revoked r \<longleftrightarrow> revocation \<noteq> None" and "vr_allowed r \<longrightarrow> revocation = None"
proof -
  obtain env' rc revocation where e: "load_envelope signature_file = Inr env'"
      "revocation_check ops g (se_payload env') = Inr (rc, revocation)"
      "vr_revocation_checked r = rc" "vr_revoked r \<longleftrightarrow> revocation \<noteq> None" "vr_allowed r \<longrightarrow> revocation = None"
    by (rule guard_verify_InrE [OF assms(1)]) (unfold Let_def, (erule ssubst)?, simp)
  with assms(2) that show thesis by simp
qed

lemma guard_verify_valid:
  assumes "guard_verify H C L ops clock g path artifact mbom_file signature_file = Inr r"
  shows "vr_allowed r \<Longrightarrow> vr_signature_valid r"
  by (rule guard_verify_InrE [OF assms]) (simp add: Let_def)

lemma guard_verify_total:
  assumes "load_mbom L mbom_file = Inr b" and "load_envelope signature_file = Inr env"
    and "guard_hash H g path artifact = Inr h" and "revocation_check ops g (se_payload env) = Inr x"
  shows "\<exists>r. guard_verify H C L ops clock g path artifact mbom_file signature_file = Inr r"
  using assms unfolding guard_verify_def caught_verify Let_def by (cases x) (simp add: check_artifact_digest_def)

text \<open>When the artifact's digest matches: it was hashed, to the digest that was signed.\<close>

lemma digest_matches_iff:
  "(case check_artifact_digest (map_sum id hr_digest hashed) env of Inl _ \<Rightarrow> False | Inr t \<Rightarrow> tc_matches t)
     \<longleftrightarrow> (\<exists>h. hashed = Inr h \<and> digest_ref (hr_digest h) = sp_artifact_digest (se_payload env))"
  by (cases hashed) (auto simp: check_artifact_digest_def)

lemma allowed_iff:
  assumes "guard_verify H C L ops clock g path artifact mbom_file signature_file = Inr r"
    and "load_mbom L mbom_file = Inr b" and "load_envelope signature_file = Inr env"
  shows "vr_allowed r \<longleftrightarrow>
    (\<exists>chk. verify_envelope_signature H (default_verifiers C) (mg_allow_legacy g) env = Inr chk
       \<and> (\<forall>config. mg_trust g = Some config \<longrightarrow>
            te_trusted (evaluate_trust (sc_key_fingerprint chk) (sc_algorithm chk) config
              (Some (sp_signer_identity (se_payload env))) (sp_model_id (se_payload env)) clock)))
    \<and> check_mbom_digest H b env
    \<and> (\<exists>h. guard_hash H g path artifact = Inr h \<and> digest_ref (hr_digest h) = sp_artifact_digest (se_payload env))
    \<and> (\<exists>rc. revocation_check ops g (se_payload env) = Inr (rc, None))"
  by (rule guard_verify_InrE [OF assms(1)])
    (use assms(2,3) in \<open>auto simp: Let_def signer_trust_def simp flip: digest_matches_iff split: sum.splits option.splits\<close>)

text \<open>
  C3. \<open>allowed\<close> means exactly what it says: the signature verifies, the ML-BOM is the one signed, the
  artifact hashes to the signed digest, the key that verified it is trusted if trust is configured, and
  no revocation of the signed model and version was found.
\<close>

theorem allowed_exactly_when:
  assumes "guard_verify H C L ops clock g path artifact mbom_file signature_file = Inr r"
    and "load_mbom L mbom_file = Inr b" and "load_envelope signature_file = Inr env"
  shows "vr_allowed r \<longleftrightarrow>
    (\<exists>chk. verify_envelope_signature H (default_verifiers C) (mg_allow_legacy g) env = Inr chk
       \<and> (\<forall>config. mg_trust g = Some config \<longrightarrow>
            te_trusted (evaluate_trust (sc_key_fingerprint chk) (sc_algorithm chk) config
              (Some (sp_signer_identity (se_payload env))) (sp_model_id (se_payload env)) clock)))
    \<and> check_mbom_digest H b env
    \<and> (\<exists>h. guard_hash H g path artifact = Inr h \<and> digest_ref (hr_digest h) = sp_artifact_digest (se_payload env))
    \<and> (\<exists>rc. revocation_check ops g (se_payload env) = Inr (rc, None))"
  by (rule allowed_iff [OF assms])

lemma verify_raises:
  assumes "guard_verify H C L ops clock g path artifact mbom_file signature_file = Inl e"
  shows "load_mbom L mbom_file = Inl e
    \<or> load_envelope signature_file = Inl e
    \<or> guard_hash H g path artifact = Inl e \<and> \<not> is_modelguard e
    \<or> (\<exists>env. load_envelope signature_file = Inr env \<and> revocation_check ops g (se_payload env) = Inl e)"
proof -
  have "guard_hash H g path artifact = Inl e \<and> \<not> is_modelguard e"
    if "caught (check_artifact_digest (map_sum id hr_digest (guard_hash H g path artifact)) env) = Inl e" for env
    using that by (cases "guard_hash H g path artifact") (auto simp: check_artifact_digest_def caught_def split: if_splits)
  then show ?thesis
    using assms unfolding guard_verify_def caught_verify Let_def by (auto split: sum.splits prod.splits)
qed

text \<open>
  Verification reports failed checks and raises only for what keeps it from checking: an ML-BOM or a
  signature file that cannot be read, an error from the hasher outside the program's own classes, or a
  registry that does not answer; an outage of the registry never passes for "not revoked".
\<close>

theorem verify_raises_only:
  assumes "guard_verify H C L ops clock g path artifact mbom_file signature_file = Inl e"
  shows "load_mbom L mbom_file = Inl e
    \<or> load_envelope signature_file = Inl e
    \<or> guard_hash H g path artifact = Inl e \<and> \<not> is_modelguard e
    \<or> (\<exists>env. load_envelope signature_file = Inr env \<and> revocation_check ops g (se_payload env) = Inl e)"
  by (rule verify_raises [OF assms])

section \<open>Revocation\<close>

lemma local_revoke_truthy:
  "local_revoke H s rv = Inr s' \<Longrightarrow> truthy (Some (rv_model_id rv)) \<and> truthy (Some (rv_version rv))"
  by (auto simp: local_revoke_def validate_identifier_def identifier_problem_def split: sum.splits if_splits option.splits)

lemma revoked_version_found:
  assumes "local_revoke H (local_run H ops) rv = Inr s"
    and "\<forall>op \<in> set ops'. \<forall>now a reason. op \<noteq> Unrevoke now (rv_model_id rv) (rv_version rv) a reason"
    and "mg_injected g = None" and "mg_storage g = Some \<lparr>so_registry = foldl (local_step H) s ops', so_provenance = p\<rparr>"
    and "sp_model_id payload = Some (rv_model_id rv)" and "sp_version payload = Some (rv_version rv)"
  obtains rv' where "revocation_check ops'' g payload = Inr (True, Some rv')"
proof -
  obtain rv' where "local_is_revoked (foldl (local_step H) s ops') (rv_model_id rv) (rv_version rv) = Inr (Some rv')"
    using local_run_rep_ex [of H ops] local_reg.revocation_stays [OF _ assms(1,2)] unfolding local_step_eq by blast
  then have "revocation_check ops'' g payload = Inr (True, Some rv')"
    using assms(3-6) local_revoke_truthy [OF assms(1)]
    by (simp add: revocation_check_def has_registry_def on_registry_def require_storage_root_def)
  then show thesis by (rule that)
qed

text \<open>
  Revoking reaches verification: once a version is revoked in the local registry, no artifact signed
  as that version is allowed, whatever else happens to the registry, until the revocation is lifted.
\<close>

theorem revoked_version_denied:
  assumes "local_revoke H (local_run H ops) rv = Inr s"
    and "\<forall>op \<in> set ops'. \<forall>now a reason. op \<noteq> Unrevoke now (rv_model_id rv) (rv_version rv) a reason"
    and "mg_injected g = None" and "mg_storage g = Some \<lparr>so_registry = foldl (local_step H) s ops', so_provenance = p\<rparr>"
    and "load_envelope signature_file = Inr env"
    and "sp_model_id (se_payload env) = Some (rv_model_id rv)" and "sp_version (se_payload env) = Some (rv_version rv)"
    and "guard_verify H C L ops'' clock g path artifact mbom_file signature_file = Inr r"
  shows "vr_revocation_checked r \<and> vr_revoked r \<and> \<not> vr_allowed r"
proof -
  obtain rv' where "revocation_check ops'' g (se_payload env) = Inr (True, Some rv')"
    by (rule revoked_version_found [OF assms(1-4,6,7)])
  then show ?thesis using guard_verify_revocation [OF assms(8,5)] by auto
qed

section \<open>A signed artifact\<close>

lemma signed_revocation_check:
  "\<not> has_registry g \<Longrightarrow> revocation_check ops g payload = Inr (False, None)"
  by (simp add: revocation_check_def)

lemma genuine_artifact_verifies:
  assumes "build_manifest H path artifact meta None = Inr m" and "usable_key C ed_sign kp"
    and "sign_artifact H C ed_sign now m b kp = Inr env"
    and "load_envelope signature_file = Inr env" and "load_mbom L mbom_file = Inr b"
    and "mg_hasher g = None" and "revocation_check ops g (se_payload env) = Inr (rc, None)"
    and "\<And>config. mg_trust g = Some config \<Longrightarrow>
      te_trusted (evaluate_trust (H (kp_public_key kp)) algorithm_ed25519 config (Some (kp_identity kp)) (m_model_id m) clock)"
  shows "\<exists>r. guard_verify H C L ops clock g path artifact mbom_file signature_file = Inr r
    \<and> vr_allowed r \<and> vr_reasons r = [] \<and> vr_signer_key_fingerprint r = Some (H (kp_public_key kp))
    \<and> vr_artifact_digest r = m_algorithm m @ '':'' @ m_digest m
    \<and> vr_digest_matches r \<and> vr_signer_trusted r = map_option (\<lambda>_. True) (mg_trust g)"
proof -
  obtain d where d: "hash_artifact H path artifact = Inr d" "m_digest m = ad_digest d" "m_algorithm m = ad_algorithm d"
    using assms(1) by (auto simp: build_manifest_def Let_def split: sum.splits if_splits)
  have env: "env = local_envelope H ed_sign now m b kp" using assms(3) sign_artifact_local [OF assms(2)] by simp
  have p: "sp_artifact_digest (se_payload env) = digest_ref d" "check_mbom_digest H b env"
      "sp_signer_identity (se_payload env) = kp_identity kp" "sp_model_id (se_payload env) = m_model_id m"
    using d by (simp_all add: env local_envelope_def Let_def signed_payload_def check_mbom_digest_def digest_ref_def)
  show ?thesis
    using p assms(4-8) d local_envelope_verifies [OF assms(2), of H "mg_allow_legacy g" now m b]
    by (auto simp: guard_verify_def caught_verify env [symmetric] Let_def guard_hash_def check_artifact_digest_def
        signer_trust_def digest_ref_def split: option.splits)
qed

text \<open>
  A genuine artifact passes: built, signed with a usable local key and written out, the unchanged
  artifact is allowed by every guard that trusts the key for it and finds no revocation.
\<close>

theorem signed_artifact_allowed:
  assumes "build_manifest H path artifact meta None = Inr m" and "usable_key C ed_sign kp"
    and "sign_artifact H C ed_sign now m b kp = Inr env"
    and "length (dumps (envelope_json env)) \<le> max_envelope_bytes" and "load_mbom L mbom_file = Inr b"
    and "mg_hasher g = None" and "revocation_check ops g (se_payload env) = Inr (rc, None)"
    and "\<And>config. mg_trust g = Some config \<Longrightarrow>
      te_trusted (evaluate_trust (H (kp_public_key kp)) algorithm_ed25519 config (Some (kp_identity kp)) (m_model_id m) clock)"
  shows "\<exists>r. guard_verify H C L ops clock g path artifact mbom_file (Some (FFile (dumps (envelope_json env)))) = Inr r
    \<and> vr_allowed r \<and> vr_reasons r = [] \<and> vr_signer_key_fingerprint r = Some (H (kp_public_key kp))
    \<and> vr_artifact_digest r = m_algorithm m @ '':'' @ m_digest m"
proof -
  have "load_envelope (Some (FFile (dumps (envelope_json env)))) = Inr env"
    using assms(4) by (simp add: load_envelope_def read_file_def Let_def envelope_text envelope_of_envelope_json)
  then show ?thesis using genuine_artifact_verifies [OF assms(1-3) _ assms(5-8)] by blast
qed

section \<open>Examples\<close>

text \<open>A one-file artifact, built and signed with the sample key, under a toy hash.\<close>

definition demo_hash :: "bytes \<Rightarrow> string" where
  "demo_hash b = sample_fingerprint"

definition demo_sign :: "bytes \<Rightarrow> bytes \<Rightarrow> bytes" where
  "demo_sign key msg = take 64 (msg @ replicate 64 (CHR ''x''))"

definition demo_crypto :: crypto where
  "demo_crypto = sample_crypto
     \<lparr>cr_ed25519 := \<lambda>pk sig msg. if sig = take 64 (msg @ replicate 64 (CHR ''x'')) then Accepts else RaisesInvalidSignature\<rparr>"

lemma demo_usable: "usable_key demo_crypto demo_sign sample_key_pair"
  by (auto simp: usable_key_def demo_crypto_def sample_key_pair_def demo_sign_def min_def)

definition demo_artifact :: "fs_node option" where
  "demo_artifact = Some (FFile ''w'')"

definition demo_metadata :: declared_metadata where
  "demo_metadata = no_metadata\<lparr>dm_model_id := Some ''demo'', dm_version := Some ''1''\<rparr>"

definition demo_manifest :: manifest where
  "demo_manifest = built_manifest\<lparr>m_digest := sample_fingerprint, m_model_id := Some ''demo'', m_version := Some ''1''\<rparr>"

definition demo_envelope :: signature_envelope where
  "demo_envelope = local_envelope demo_hash demo_sign ''t'' demo_manifest sample_mlbom sample_key_pair"

definition demo_signature :: "fs_node option" where
  "demo_signature = Some (FFile (dumps (envelope_json demo_envelope)))"

definition demo_mbom_file :: "fs_node option" where
  "demo_mbom_file = Some (FFile (dumps (drop_none (mlbom_fields sample_mlbom))))"

definition demo_ops :: "unit registry_ops" where
  "demo_ops = \<lparr>ro_register = \<lambda>_ _. Inl RegistryBackendError, ro_get = \<lambda>_ _ _. Inl RegistryBackendError,
     ro_get_by_digest = \<lambda>_ _. Inl RegistryBackendError, ro_list_versions = \<lambda>_ _. Inl RegistryBackendError,
     ro_revoke = \<lambda>_ _. Inl RegistryBackendError, ro_is_revoked = \<lambda>_ _ _. Inl RegistryBackendError\<rparr>"

definition demo_guard :: "storage option \<Rightarrow> unit option \<Rightarrow> unit model_guard" where
  "demo_guard st injected = \<lparr>mg_allow_legacy = False, mg_storage = st, mg_injected = injected, mg_hasher = None,
     mg_trust = Some \<lparr>tr_version = ''1'', tr_keys = [trusted_entry sample_fingerprint]\<rparr>\<rparr>"

lemma demo_manifest: "build_manifest demo_hash [''m.bin''] demo_artifact (Some demo_metadata) None = Inr demo_manifest"
  by (simp add: demo_manifest_def built_manifest_def demo_artifact_def demo_metadata_def build_manifest_def hash_artifact_def
      hash_file_def Let_def no_metadata_def valid_manifest_def manifest_schema_version_def path_name_def or_str_def
      artifact_digest_from_files_def digest_algorithm_def path_exists_def path_is_dir_def path_is_symlink_def demo_hash_def)

lemma demo_signed: "sign_artifact demo_hash demo_crypto demo_sign ''t'' demo_manifest sample_mlbom sample_key_pair = Inr demo_envelope"
  unfolding demo_envelope_def by (rule sign_artifact_local [OF demo_usable])

lemma demo_envelope_short: "length (dumps (envelope_json demo_envelope)) \<le> max_envelope_bytes"
  unfolding demo_envelope_def
  by (rule local_envelope_fits) (simp_all add: demo_hash_def sample_fingerprint_def sample_key_pair_def demo_sign_def demo_manifest_def
      built_manifest_def text_size_def)

lemma demo_loads:
  "load_mbom sample_libs demo_mbom_file = Inr sample_mlbom"
  "load_envelope demo_signature = Inr demo_envelope"
  "read_json demo_signature = Inr (canon (envelope_json demo_envelope))"
proof -
  show "load_mbom sample_libs demo_mbom_file = Inr sample_mlbom"
    unfolding demo_mbom_file_def by (rule load_written_mbom)
  show "load_envelope demo_signature = Inr demo_envelope"
    using demo_envelope_short
    by (simp add: demo_signature_def load_envelope_def read_file_def Let_def envelope_text envelope_of_envelope_json)
  show "read_json demo_signature = Inr (canon (envelope_json demo_envelope))"
    by (simp add: demo_signature_def read_json_def read_file_def envelope_text)
qed

lemma demo_trusted:
  "te_trusted (evaluate_trust sample_fingerprint alg \<lparr>tr_version = ''1'', tr_keys = [trusted_entry sample_fingerprint]\<rparr> identity model clock)"
  by (simp add: evaluate_trust_def trust_reasons_def trusted_entry_def)

lemma demo_hashed: "\<exists>h. guard_hash demo_hash (demo_guard st injd) [''m.bin''] demo_artifact = Inr h"
  by (simp add: guard_hash_def demo_guard_def demo_artifact_def hash_artifact_def hash_file_def path_exists_def path_is_dir_def
      path_is_symlink_def artifact_digest_from_files_def)

lemma demo_revoked: "\<exists>s. local_revoke demo_hash (local_run demo_hash []) sample_revocation = Inr s"
  using local_append_refines [OF empty_rep [of demo_hash], of _ "Revoked sample_revocation"]
  by (auto simp: local_revoke_def local_run_def spec_append_def checked_two sample_revocation_def sample_valid
      split: sum.splits)

theorem signed_artifact_allowed_witness:
  "\<exists>r. guard_verify demo_hash demo_crypto sample_libs demo_ops 5 (demo_guard None None) [''m.bin''] demo_artifact
       demo_mbom_file demo_signature = Inr r \<and> vr_allowed r"
  using signed_artifact_allowed [OF demo_manifest demo_usable demo_signed demo_envelope_short demo_loads(1),
      of "demo_guard None None" demo_ops False 5]
  by (auto simp: demo_guard_def revocation_check_def has_registry_def demo_trusted demo_hash_def demo_signature_def)

theorem allowed_exactly_when_witness:
  "\<exists>r. guard_verify demo_hash demo_crypto sample_libs demo_ops 5 (demo_guard None None) [''m.bin''] None
       demo_mbom_file demo_signature = Inr r \<and> \<not> vr_allowed r"
proof -
  have h: "guard_hash demo_hash (demo_guard None None) [''m.bin''] None = Inl (ArtifactNotFoundError (path_str [''m.bin'']))"
    by (simp add: guard_hash_def demo_guard_def hash_artifact_def path_exists_def)
  obtain r where r: "guard_verify demo_hash demo_crypto sample_libs demo_ops 5 (demo_guard None None) [''m.bin''] None
      demo_mbom_file demo_signature = Inr r"
    using demo_loads h
    by (simp add: guard_verify_def caught_verify Let_def check_artifact_digest_def is_modelguard_iff revocation_check_def
        has_registry_def demo_guard_def)
  then show ?thesis using allowed_exactly_when [OF r demo_loads(1,2)] h by auto
qed

theorem verify_raises_only_witness:
  "guard_verify demo_hash demo_crypto sample_libs demo_ops 5 (demo_guard None (Some ())) [''m.bin''] demo_artifact
       demo_mbom_file demo_signature = Inl RegistryBackendError
   \<and> (\<exists>env. load_envelope demo_signature = Inr env
       \<and> revocation_check demo_ops (demo_guard None (Some ())) (se_payload env) = Inl RegistryBackendError)"
proof
  obtain h where h: "guard_hash demo_hash (demo_guard None (Some ())) [''m.bin''] demo_artifact = Inr h"
    using demo_hashed by blast
  have p: "sp_model_id (se_payload demo_envelope) = Some ''demo''" "sp_version (se_payload demo_envelope) = Some ''1''"
    by (simp_all add: demo_envelope_def local_envelope_def Let_def signed_payload_def demo_manifest_def)
  show v: "guard_verify demo_hash demo_crypto sample_libs demo_ops 5 (demo_guard None (Some ())) [''m.bin''] demo_artifact
       demo_mbom_file demo_signature = Inl RegistryBackendError"
    using demo_loads h p
    by (simp add: guard_verify_def caught_verify Let_def check_artifact_digest_def revocation_check_def
        has_registry_def on_registry_def demo_guard_def demo_ops_def)
  show "\<exists>env. load_envelope demo_signature = Inr env
       \<and> revocation_check demo_ops (demo_guard None (Some ())) (se_payload env) = Inl RegistryBackendError"
    using verify_raises_only [OF v] demo_loads h by auto
qed

theorem revoked_version_denied_witness:
  "\<exists>s r. local_revoke demo_hash (local_run demo_hash []) sample_revocation = Inr s
     \<and> guard_verify demo_hash demo_crypto sample_libs demo_ops 5
         (demo_guard (Some \<lparr>so_registry = foldl (local_step demo_hash) s [], so_provenance = None\<rparr>) None)
         [''m.bin''] demo_artifact demo_mbom_file demo_signature = Inr r
     \<and> \<not> vr_allowed r"
proof -
  obtain s where s: "local_revoke demo_hash (local_run demo_hash []) sample_revocation = Inr s" using demo_revoked by blast
  let ?g = "demo_guard (Some \<lparr>so_registry = foldl (local_step demo_hash) s [], so_provenance = None\<rparr>) None"
  have p: "sp_model_id (se_payload demo_envelope) = Some (rv_model_id sample_revocation)"
      "sp_version (se_payload demo_envelope) = Some (rv_version sample_revocation)"
    by (simp_all add: demo_envelope_def local_envelope_def Let_def signed_payload_def demo_manifest_def sample_revocation_def)
  obtain rv' where c: "revocation_check demo_ops ?g (se_payload demo_envelope) = Inr (True, Some rv')"
    by (rule revoked_version_found [OF s, of "[]" ?g None, OF _ _ _ p]) (simp_all add: demo_guard_def)
  obtain h where "guard_hash demo_hash ?g [''m.bin''] demo_artifact = Inr h" using demo_hashed by blast
  then obtain r where r: "guard_verify demo_hash demo_crypto sample_libs demo_ops 5 ?g
      [''m.bin''] demo_artifact demo_mbom_file demo_signature = Inr r"
    using guard_verify_total [OF demo_loads(1,2) _ c] by blast
  have "\<not> vr_allowed r"
    using revoked_version_denied [OF s, of "[]" ?g None, OF _ _ _ demo_loads(2) p r] by (simp add: demo_guard_def)
  with s r show ?thesis by blast
qed

end
