(* ===== verification/Messages.thy ===== *)
theory Messages
  imports Sdk
begin

text \<open>
  The wording of what the program reports: the messages of policy rules (\<open>policy/engine.py\<close>), the reasons of
  the trust evaluation and of verification (\<open>signing/trust_config.py\<close>, \<open>sdk.py\<close>), the findings of the scanners
  (\<open>scanning/\<close>), and \<open>repr\<close> of a string.  What the texts take from elsewhere is the record \<open>wording\<close>:
  \<open>str\<close> of an exception, the problems of a \<open>ValidationError\<close>, \<open>isoformat\<close> and the fresh ids of findings.
\<close>

record wording =
  wd_exn :: "exn \<Rightarrow> string"
  wd_problems :: "(string list \<times> string) list"
  wd_finding_id :: "nat \<Rightarrow> string"
  wd_isoformat :: "datetime \<Rightarrow> string"

section \<open>Strings and class names\<close>

text \<open>\<open>repr\<close> of a string: single quotes unless only they occur in it, escapes for what is not printable.\<close>

definition repr_quote :: "string \<Rightarrow> char" where
  "repr_quote s = (if CHR 0x27 \<in> set s \<and> CHR 0x22 \<notin> set s then CHR 0x22 else CHR 0x27)"

definition repr_char :: "char \<Rightarrow> char \<Rightarrow> string" where
  "repr_char q c =
     (if c = q \<or> c = CHR 0x5C then [CHR 0x5C, c]
      else if c = CHR 0x09 then [CHR 0x5C, CHR ''t'']
      else if c = CHR 0x0A then [CHR 0x5C, CHR ''n'']
      else if c = CHR 0x0D then [CHR 0x5C, CHR ''r'']
      else if ord c < 32 \<or> (127 \<le> ord c \<and> ord c \<le> 160) \<or> ord c = (173 :: nat) then [CHR 0x5C, CHR ''x''] @ to_hex [c]
      else [c])"

definition py_repr :: "string \<Rightarrow> string" where
  "py_repr s = [repr_quote s] @ concat (map (repr_char (repr_quote s)) s) @ [repr_quote s]"

definition opt_repr :: "string option \<Rightarrow> string" where
  "opt_repr s = (case s of None \<Rightarrow> ''None'' | Some t \<Rightarrow> py_repr t)"

definition list_repr :: "string list \<Rightarrow> string" where
  "list_repr ss = ''['' @ join '', '' (map py_repr ss) @ '']''"

text \<open>\<open>type(exc).__name__\<close>.\<close>

fun class_name :: "exc_class \<Rightarrow> string" where
  "class_name ExceptionC = ''Exception''"
| "class_name OSErrorC = ''OSError''"
| "class_name ValueErrorC = ''ValueError''"
| "class_name KeyErrorC = ''KeyError''"
| "class_name TypeErrorC = ''TypeError''"
| "class_name AttributeErrorC = ''AttributeError''"
| "class_name StopIterationC = ''StopIteration''"
| "class_name UnicodeDecodeErrorC = ''UnicodeDecodeError''"
| "class_name JSONDecodeErrorC = ''JSONDecodeError''"
| "class_name ValidationErrorC = ''ValidationError''"
| "class_name ModelGuardErrorC = ''ModelGuardError''"
| "class_name ArtifactErrorC = ''ArtifactError''"
| "class_name ArtifactNotFoundErrorC = ''ArtifactNotFoundError''"
| "class_name UnsafePathErrorC = ''UnsafePathError''"
| "class_name EmptyArtifactErrorC = ''EmptyArtifactError''"
| "class_name ManifestErrorC = ''ManifestError''"
| "class_name ManifestValidationErrorC = ''ManifestValidationError''"
| "class_name MLBOMErrorC = ''MLBOMError''"
| "class_name MLBOMValidationErrorC = ''MLBOMValidationError''"
| "class_name SigningErrorC = ''SigningError''"
| "class_name KeyBaseErrorC = ''KeyError_''"
| "class_name KeyNotFoundErrorC = ''KeyNotFoundError''"
| "class_name InvalidKeyErrorC = ''InvalidKeyError''"
| "class_name VerificationErrorC = ''VerificationError''"
| "class_name SignatureInvalidErrorC = ''SignatureInvalidError''"
| "class_name UnsupportedSignatureSchemeErrorC = ''UnsupportedSignatureSchemeError''"
| "class_name MalformedSignatureErrorC = ''MalformedSignatureError''"
| "class_name SigningProviderErrorC = ''SigningProviderError''"
| "class_name DigestMismatchErrorC = ''DigestMismatchError''"
| "class_name VerificationDeniedC = ''VerificationDenied''"
| "class_name TrustConfigurationErrorC = ''TrustConfigurationError''"
| "class_name AdmissionDeniedC = ''AdmissionDenied''"
| "class_name PolicyValidationErrorC = ''PolicyValidationError''"
| "class_name UnknownRuleErrorC = ''UnknownRuleError''"
| "class_name DuplicateRegistrationErrorC = ''DuplicateRegistrationError''"
| "class_name RegistryBackendErrorC = ''RegistryBackendError''"
| "class_name RegistryConfigurationErrorC = ''RegistryConfigurationError''"
| "class_name InvalidIdentifierErrorC = ''InvalidIdentifierError''"
| "class_name ChainIntegrityErrorC = ''ChainIntegrityError''"
| "class_name ArtifactStoreErrorC = ''ArtifactStoreError''"
| "class_name BlobNotFoundErrorC = ''ArtifactNotFoundError''"
| "class_name ArtifactIntegrityErrorC = ''ArtifactIntegrityError''"
| "class_name StoreConfigurationErrorC = ''StoreConfigurationError''"

section \<open>Rules\<close>

fun rule_text :: "rule_message \<Rightarrow> string" where
  "rule_text IntegrityBroken =
     ''The artifact on disk does not match the digest bound in the signature: '' @
     ''it may have been modified after signing, or the wrong signature/ML-BOM '' @
     ''was supplied. This check is unconditional and cannot be disabled by '' @
     ''policy. Suggested action: re-obtain the artifact from a trusted source, '' @
     ''or re-sign it if the change was intentional.''"
| "rule_text NotConfigured = ''not configured''"
| "rule_text SignatureFound = ''A valid signature was found.''"
| "rule_text NoSignature =
     ''No valid signature was found. Expected: a signature verifiable against a '' @
     ''known public key. Suggested action: sign the artifact with `modelguard sign` '' @
     ''before registering or deploying it.''"
| "rule_text NoTrustRoots =
     ''require_trusted_signer is enabled but no trusted signer keys were configured. '' @
     ''Expected: at least one trusted key fingerprint. Suggested action: pass '' @
     ''--trusted-fingerprint (CLI) or trusted_key_fingerprints=[...] (SDK); compute a '' @
     ''fingerprint with `modelguard fingerprint <public-key-file>`.''"
| "rule_text SignedByTrusted = ''The artifact was signed by a trusted key.''"
| "rule_text SignerNotTrusted =
     ''The signing key is not in the configured trusted set. Expected: a signature '' @
     ''made by one of the trusted key fingerprints. Suggested action: verify the '' @
     ''signer out-of-band, then add its fingerprint to the trusted set, or obtain the '' @
     ''artifact from a trusted publisher.''"
| "rule_text BomMatches = ''A matching ML-BOM was supplied.''"
| "rule_text NoBom =
     ''No valid ML-BOM was supplied, or it does not match the signed digest. '' @
     ''Expected: an ML-BOM generated with `modelguard mbom generate` and bound to '' @
     ''this artifact'' @ [CHR 0x27] @ ''s signature. Suggested action: regenerate and re-sign.''"
| "rule_text LineageDeclared = ''The ML-BOM declares at least one parent model.''"
| "rule_text NoLineage =
     ''The ML-BOM does not declare any parent model. Expected: at least one '' @
     ''parent_models entry. Suggested action: regenerate the ML-BOM with '' @
     ''DeclaredProvenance(parent_models=[...]).''"
| "rule_text LicenseDeclared = ''A license is declared.''"
| "rule_text NoLicense =
     ''No license is declared on the manifest or ML-BOM. Expected: a license '' @
     ''identifier. Suggested action: re-run `modelguard manifest --license ...`.''"
| "rule_text NotRevoked = ''The model is not revoked.''"
| "rule_text IsRevoked = ''The model has been revoked.''"
| "rule_text (NoScan level) =
     ''max_'' @ py_lower level @ ''_findings is enabled but no scan was performed. Expected: a '' @
     ''scan report to check finding counts against. Suggested action: ensure '' @
     ''ModelGuard.check_policy() (which always scans) is used, or otherwise pass '' @
     ''scan_performed=True with real finding counts to build_context().''"
| "rule_text (WithinLimit level n bound) =
     int_str n @ '' '' @ level @ '' finding(s) found, '' @ ''within the configured limit of '' @ int_str bound @ ''.''"
| "rule_text (ExceedsLimit level n bound) =
     int_str n @ '' '' @ level @ '' finding(s) found, exceeding the '' @
     ''configured limit of '' @ int_str bound @ ''. Expected: at most '' @ int_str bound @ '' '' @ level @
     '' findings. Suggested action: run `modelguard scan` and remediate the '' @
     ''reported findings before re-registering or deploying.''"

section \<open>Trust and verification\<close>

fun trust_text :: "wording \<Rightarrow> trust_reason \<Rightarrow> string" where
  "trust_text W (NoTrustedKey fingerprint) = ''No trusted key is configured with fingerprint '' @ fingerprint @ ''.''"
| "trust_text W (WrongAlgorithm key algorithm) =
     ''Trusted key '' @ tk_key_id key @ '' is configured for algorithm '' @ opt_repr (tk_algorithm key) @ '', but the '' @
     ''signature verified as '' @ py_repr algorithm @ ''.''"
| "trust_text W (NotActive key) = ''Trusted key '' @ tk_key_id key @ '' is '' @ status_value (tk_status key) @ '', not active.''"
| "trust_text W (NotYetValid key clock) =
     ''Trusted key '' @ tk_key_id key @ '' is not valid until '' @ wd_isoformat W (the (tk_not_before key)) @
     '' (current time '' @ wd_isoformat W (Aware clock) @ '').''"
| "trust_text W (Expired key clock) =
     ''Trusted key '' @ tk_key_id key @ '' expired at '' @ wd_isoformat W (the (tk_not_after key)) @
     '' (current time '' @ wd_isoformat W (Aware clock) @ '').''"
| "trust_text W (WrongIdentity key claimed) =
     ''Trusted key '' @ tk_key_id key @ '' is bound to signer identity '' @ opt_repr (tk_signer_identity key) @ '', '' @
     ''but the signature claims signer identity '' @ opt_repr claimed @ ''.''"
| "trust_text W (OutOfScope key model_id) =
     ''Trusted key '' @ tk_key_id key @ '' is scoped to model_id pattern(s) '' @
     list_repr (tk_scope key) @ '', which does not match '' @ ''model_id '' @ opt_repr model_id @ ''.''"

fun verify_text :: "wording \<Rightarrow> verify_reason \<Rightarrow> string" where
  "verify_text W (SignatureProblem e) = wd_exn W e"
| "verify_text W MbomMismatch = ''The supplied ML-BOM does not match the mbom_digest bound in '' @ ''the signature.''"
| "verify_text W (ArtifactMismatch bound current) =
     ''Artifact digest mismatch: expected '' @ bound @ '', '' @ ''got '' @ current @ ''. The artifact may have been '' @
     ''modified after signing.''"
| "verify_text W (HashProblem e) = wd_exn W e"
| "verify_text W (TrustProblem r) = trust_text W r"
| "verify_text W (RevokedModel rv) =
     ''Model '' @ rv_model_id rv @ ''@'' @ rv_version rv @ '' was revoked by '' @ rv_revoked_by rv @ '': '' @ rv_reason rv"

section \<open>Findings\<close>

fun finding_text :: "scan_message \<Rightarrow> string" where
  "finding_text (Skipped reason) = ''Skipped during scan: '' @ reason @ ''.''"
| "finding_text (SecretMatched category) =
     ''Content matching a '' @ map (\<lambda>c. if c = CHR ''_'' then CHR '' '' else c) category @ '' pattern was found.''"
| "finding_text (PickleExtension extension) =
     ''File extension '' @ py_repr extension @ '' is associated with pickle-based '' @
     ''serialization, which can execute arbitrary code during loading.''"
| "finding_text PickleHeader =
     ''File begins with a pickle protocol header (opcode 0x80) despite '' @
     ''an extension not normally associated with pickle; it may be '' @
     ''pickle-based serialization under a misleading name.''"
| "finding_text NoLicenseDeclared = ''No license is declared on the manifest or ML-BOM.''"
| "finding_text NoParentModel = ''The ML-BOM does not declare any parent model.''"
| "finding_text (ManifestMissing missing) = ''The manifest is missing: '' @ join '', '' missing @ ''.''"

text \<open>Every finding of the built-in scanners has a remediation.\<close>

fun remediation_text :: "scan_message \<Rightarrow> string" where
  "remediation_text (Skipped reason) =
     ''Symlinks are never followed during scanning. If this entry is meant to be '' @
     ''part of the artifact, replace it with a real file or directory.''"
| "remediation_text (SecretMatched category) =
     ''Remove this credential from the artifact and rotate it -- treat it '' @
     ''as compromised from the moment it was committed or packaged.''"
| "remediation_text (PickleExtension extension) =
     ''Prefer a safe format such as SafeTensors. If this file must '' @
     ''remain pickle-based, only ever load it in an isolated, '' @
     ''untrusted-input-aware environment.''"
| "remediation_text PickleHeader =
     ''Confirm the actual format of this file before loading it. If it '' @
     ''is pickle-based, treat it with the same caution as a .pkl file.''"
| "remediation_text NoLicenseDeclared = ''Set a license identifier when building the manifest or ML-BOM.''"
| "remediation_text NoParentModel =
     ''If this model was fine-tuned, merged, or quantized from another '' @
     ''model, record that lineage via DeclaredProvenance(parent_models=...).''"
| "remediation_text (ManifestMissing missing) = ''Set model_id and version via DeclaredMetadata before signing.''"

text \<open>A wording for concrete runs.\<close>

definition sample_wording :: wording where
  "sample_wording = \<lparr>wd_exn = \<lambda>_. ''e'', wd_problems = [], wd_finding_id = nat_str, wd_isoformat = \<lambda>_. ''t''\<rparr>"

end
