(* ===== verification/Audit_Log.thy ===== *)
theory Audit_Log
  imports Chain
begin

text \<open>
  \<open>audit/log.py\<close>: the audit log, a hash-chained log of \<open>AuditEvent\<close>s.  The correlation id and
  the timestamp, which the dataclass draws from \<open>uuid4\<close> and the clock, are fields like the
  others.
\<close>

record audit_event =
  ae_event_type :: string
  ae_actor :: string
  ae_subject :: string
  ae_artifact_digest :: "string option"
  ae_result :: string
  ae_reason :: "string option"
  ae_correlation_id :: string
  ae_timestamp :: string

definition audit_to_record :: "audit_event \<Rightarrow> json" where
  "audit_to_record e =
     JObj [(''event_type'', JStr (ae_event_type e)), (''actor'', JStr (ae_actor e)),
           (''subject'', JStr (ae_subject e)), (''artifact_digest'', opt_json (ae_artifact_digest e)),
           (''result'', JStr (ae_result e)), (''reason'', opt_json (ae_reason e)),
           (''correlation_id'', JStr (ae_correlation_id e)), (''timestamp'', JStr (ae_timestamp e))]"

definition entry_to_event :: "json \<Rightarrow> exn + audit_event" where
  "entry_to_event r =
     (case str_item r ''event_type'' of Inl e \<Rightarrow> Inl e | Inr event_type \<Rightarrow>
     (case str_item r ''actor'' of Inl e \<Rightarrow> Inl e | Inr actor \<Rightarrow>
     (case str_item r ''subject'' of Inl e \<Rightarrow> Inl e | Inr subject \<Rightarrow>
     (case opt_item r ''artifact_digest'' of Inl e \<Rightarrow> Inl e | Inr artifact_digest \<Rightarrow>
     (case str_item r ''result'' of Inl e \<Rightarrow> Inl e | Inr result \<Rightarrow>
     (case opt_item r ''reason'' of Inl e \<Rightarrow> Inl e | Inr reason \<Rightarrow>
     (case str_item r ''correlation_id'' of Inl e \<Rightarrow> Inl e | Inr correlation_id \<Rightarrow>
     (case str_item r ''timestamp'' of Inl e \<Rightarrow> Inl e | Inr timestamp \<Rightarrow>
       Inr \<lparr>ae_event_type = event_type, ae_actor = actor, ae_subject = subject,
            ae_artifact_digest = artifact_digest, ae_result = result, ae_reason = reason,
            ae_correlation_id = correlation_id, ae_timestamp = timestamp\<rparr>))))))))"

definition audit_record :: "(bytes \<Rightarrow> string) \<Rightarrow> log_file \<Rightarrow> audit_event \<Rightarrow> exn + string \<times> chain_entry" where
  "audit_record H f event = append_entry H f (audit_to_record event)"

definition audit_all_events :: "log_file \<Rightarrow> exn + audit_event list" where
  "audit_all_events f = all_events entry_to_event f"

definition audit_verify :: "(bytes \<Rightarrow> string) \<Rightarrow> log_file \<Rightarrow> exn + unit" where
  "audit_verify H f = verify_chain H f"

lemma audit_keys: "distinct (map fst
   [(''event_type'', a), (''actor'', b), (''subject'', c), (''artifact_digest'', d), (''result'', e),
    (''reason'', f), (''correlation_id'', g), (''timestamp'', h)])"
  by simp

interpretation audit_log: event_log audit_to_record entry_to_event
proof
  fix e
  show "entry_to_event (canon (audit_to_record e)) = Inr e"
    by (cases "ae_artifact_digest e"; cases "ae_reason e")
      (simp_all only: audit_to_record_def entry_to_event_def str_item_canon [OF audit_keys]
        opt_item_canon [OF audit_keys], simp_all add: item_defs)
  show "wf_json (audit_to_record e)"
    by (auto simp: audit_to_record_def opt_json_def split: option.splits)
qed

text \<open>
  Recording an event in an audit log that was written by recording events always succeeds;
  all events are then read back, equal and in order, the new one last, and the log verifies.
\<close>

theorem audit_record_appends:
  assumes "holds_records H f (map audit_to_record evs)"
  shows "\<exists>t e. audit_record H f ev = Inr (t, e) \<and> holds_records H (Some t) (map audit_to_record (evs @ [ev]))
    \<and> audit_all_events (Some t) = Inr (evs @ [ev]) \<and> audit_verify H (Some t) = Inr ()"
  using audit_log.record_event [OF assms]
  by (simp add: audit_record_def audit_all_events_def audit_verify_def)

definition sample_event :: audit_event where
  "sample_event = \<lparr>ae_event_type = ''model.registered'', ae_actor = ''ci'', ae_subject = ''m@1'',
     ae_artifact_digest = None, ae_result = ''success'', ae_reason = None, ae_correlation_id = ''c'',
     ae_timestamp = ''t''\<rparr>"

theorem audit_record_appends_witness:
  "\<exists>t e. audit_record sha256 None sample_event = Inr (t, e)
     \<and> holds_records sha256 (Some t) (map audit_to_record ([] @ [sample_event]))
     \<and> audit_all_events (Some t) = Inr ([] @ [sample_event]) \<and> audit_verify sha256 (Some t) = Inr ()"
  by (rule audit_record_appends) (simp add: holds_records_def)

end
