(* ===== verification/Admission.thy ===== *)
theory Admission
  imports Messages Audit_Log
begin

text \<open>
  \<open>admission.py\<close>: the check a deployment system makes before a model runs.  The random
  correlation id and the clock readings are arguments.  A reason is a constructor with what its
  text names.  An audit target is the log file's content, with, when the disk refuses the write,
  the error and what it left of the file.
\<close>

datatype admission_reason =
    NoTrustRoot
  | CheckFailed exn
  | PolicyDecision decision
  | FailedRule string rule_message
  | DigestDiffers
  | SignerUntrusted
  | Unauditable exn

record admission_decision =
  an_admitted :: bool
  an_reasons :: "admission_reason list"
  an_correlation_id :: string
  an_decision :: "decision option"
  an_subject :: "string option"
  an_artifact_digest :: "string option"
  an_revocation_checked :: bool
  an_digest_from_cache :: bool
  an_audited :: bool
  an_error :: "exc_class option"

fun admission_text :: "wording \<Rightarrow> admission_reason \<Rightarrow> string" where
  "admission_text W NoTrustRoot =
     ''No trusted signer keys are configured. Admission requires an '' @
     ''explicit trust root: construct ModelGuard(trusted_key_fingerprints='' @
     ''[...]) or ModelGuard(trust_config=...).''"
| "admission_text W (CheckFailed e) = ''Admission check failed with '' @ class_name (class_of e) @ '': '' @ wd_exn W e"
| "admission_text W (PolicyDecision d) = ''Policy decision was '' @ decision_value d @ ''.''"
| "admission_text W (FailedRule name message) = name @ '': '' @ rule_text message"
| "admission_text W DigestDiffers = ''The artifact does not match the digest bound in its signature.''"
| "admission_text W SignerUntrusted = ''The artifact was not signed by a trusted key.''"
| "admission_text W (Unauditable e) =
     ''The admission decision could not be written to the audit log '' @
     ''('' @ class_name (class_of e) @ ''); refusing to admit an unauditable deployment.''"

definition raise_if_blocked :: "wording \<Rightarrow> admission_decision \<Rightarrow> exn + unit" where
  "raise_if_blocked W d = (if \<not> an_admitted d then Inl (AdmissionDenied (map (admission_text W) (an_reasons d))) else Inr ())"

type_synonym audit_target = "log_file \<times> (exn \<times> log_file) option"

definition refusal :: "string \<Rightarrow> admission_reason \<Rightarrow> exc_class option \<Rightarrow> admission_decision" where
  "refusal cid reason err =
     \<lparr>an_admitted = False, an_reasons = [reason], an_correlation_id = cid, an_decision = None, an_subject = None,
      an_artifact_digest = None, an_revocation_checked = False, an_digest_from_cache = False, an_audited = False, an_error = err\<rparr>"

text \<open>The event \<open>_finish\<close> records.\<close>

definition admission_event :: "wording \<Rightarrow> string \<Rightarrow> string \<Rightarrow> admission_decision \<Rightarrow> audit_event" where
  "admission_event W now actor d =
     \<lparr>ae_event_type = ''deployment.admission'', ae_actor = actor, ae_subject = name_or_unknown (an_subject d),
      ae_artifact_digest = an_artifact_digest d, ae_result = (if an_admitted d then ''success'' else ''failure''),
      ae_reason = Some (if an_reasons d \<noteq> [] then take 500 (join ''; '' (map (admission_text W) (an_reasons d))) else ''admitted''),
      ae_correlation_id = an_correlation_id d, ae_timestamp = now\<rparr>"

definition finish ::
    "(bytes \<Rightarrow> string) \<Rightarrow> wording \<Rightarrow> string \<Rightarrow> string \<Rightarrow> audit_target option \<Rightarrow> admission_decision
       \<Rightarrow> admission_decision \<times> log_file option" where
  "finish H W now actor audit d =
     (case audit of
        None \<Rightarrow> (d, None)
      | Some (log, disk) \<Rightarrow>
          (case (case audit_record H log (admission_event W now actor d) of
                   Inl e \<Rightarrow> Inl (e, log)
                 | Inr (t, entry) \<Rightarrow> (case disk of None \<Rightarrow> Inr t | Some (e, left) \<Rightarrow> Inl (e, left))) of
             Inl (e, left) \<Rightarrow>
               (d\<lparr>an_admitted := False, an_reasons := an_reasons d @ [Unauditable e], an_audited := False,
                  an_error := Some (class_of e)\<rparr>, Some left)
           | Inr t \<Rightarrow> (d\<lparr>an_audited := True\<rparr>, Some (Some t))))"

definition admission_reasons :: "policy_check \<Rightarrow> admission_reason list" where
  "admission_reasons chk =
     (if \<not> is_allowed (dr_decision (pk_decision chk))
      then PolicyDecision (dr_decision (pk_decision chk))
             # map (\<lambda>x. FailedRule (rs_rule x) (rs_message x)) (failed_rules (pk_decision chk))
      else [])
     @ (if \<not> vr_digest_matches (pk_verification chk) then [DigestDiffers] else [])
     @ (if vr_signer_trusted (pk_verification chk) \<noteq> Some True then [SignerUntrusted] else [])"

definition admit ::
    "(bytes \<Rightarrow> string) \<Rightarrow> crypto \<Rightarrow> libs \<Rightarrow> (nat \<Rightarrow> bool)
       \<Rightarrow> wording \<Rightarrow> string \<Rightarrow> string \<Rightarrow> 'r registry_ops \<Rightarrow> int \<Rightarrow> 'r model_guard
       \<Rightarrow> string list \<Rightarrow> fs_node option \<Rightarrow> fs_node option \<Rightarrow> fs_node option \<Rightarrow> fs_node option \<Rightarrow> string \<Rightarrow> audit_target option
       \<Rightarrow> admission_decision \<times> log_file option" where
  "admit H C L word W cid now ops clock g path artifact mbom_file signature_file policy_file actor audit =
     (if trusted_key_fingerprints g = None then finish H W now actor audit (refusal cid NoTrustRoot None)
      else
        (case check_policy_detailed H C L word ops clock g path artifact mbom_file signature_file policy_file of
           Inl e \<Rightarrow> finish H W now actor audit (refusal cid (CheckFailed e) (Some (class_of e)))
         | Inr chk \<Rightarrow>
             (let reasons = admission_reasons chk
              in finish H W now actor audit
                   \<lparr>an_admitted = (reasons = []), an_reasons = reasons, an_correlation_id = cid,
                    an_decision = Some (dr_decision (pk_decision chk)), an_subject = Some (dr_subject (pk_decision chk)),
                    an_artifact_digest = (if vr_digest_matches (pk_verification chk)
                                          then Some (vr_artifact_digest (pk_verification chk)) else None),
                    an_revocation_checked = vr_revocation_checked (pk_verification chk),
                    an_digest_from_cache = vr_digest_from_cache (pk_verification chk),
                    an_audited = False, an_error = None\<rparr>)))"

section \<open>When an artifact is admitted\<close>

text \<open>The audit record can be written: the log's last entry can be read and the disk takes the new one.\<close>

definition recordable :: "audit_target option \<Rightarrow> bool" where
  "recordable audit =
     (case audit of
        None \<Rightarrow> True
      | Some (log, disk) \<Rightarrow> disk = None \<and> (case last_link log of Inr (JStr _, _) \<Rightarrow> True | _ \<Rightarrow> False))"

lemma audit_record_ok:
  "(\<exists>t e. audit_record H log ev = Inr (t, e)) \<longleftrightarrow> (case last_link log of Inr (JStr _, _) \<Rightarrow> True | _ \<Rightarrow> False)"
  by (auto simp: audit_record_def append_entry_def Let_def split: sum.splits prod.splits json.splits)

lemma finish_admitted: "an_admitted (fst (finish H W now actor audit d)) \<longleftrightarrow> an_admitted d \<and> recordable audit"
proof (cases audit)
  case (Some target)
  obtain log disk where t: "target = (log, disk)" by (cases target)
  show ?thesis
    using audit_record_ok [of H log "admission_event W now actor d"]
    by (auto simp: Some t finish_def recordable_def split: sum.splits option.splits)
qed (simp add: finish_def recordable_def)

lemma admission_reasons_empty:
  "admission_reasons chk = [] \<longleftrightarrow> is_allowed (dr_decision (pk_decision chk)) \<and> vr_digest_matches (pk_verification chk)
     \<and> vr_signer_trusted (pk_verification chk) = Some True"
  by (simp add: admission_reasons_def)

text \<open>
  C2. An artifact is admitted exactly when a trust root is configured, the check ran to its end, the
  policy allows it, it matches the signed digest, its signer is trusted and, if an audit log was
  asked for, the decision is in it.  Every error of the check or of the log refuses it.
\<close>

theorem admitted_exactly_when:
  "an_admitted (fst (admit H C L word W cid now ops clock g path artifact mbom_file signature_file
       policy_file actor audit)) \<longleftrightarrow>
     mg_trust g \<noteq> None
   \<and> (\<exists>chk. check_policy_detailed H C L word ops clock g path artifact mbom_file signature_file policy_file = Inr chk
        \<and> is_allowed (dr_decision (pk_decision chk)) \<and> vr_digest_matches (pk_verification chk)
        \<and> vr_signer_trusted (pk_verification chk) = Some True)
   \<and> recordable audit"
  by (auto simp: admit_def finish_admitted refusal_def Let_def trusted_key_fingerprints_def admission_reasons_empty split: sum.splits)

lemma check_policy_verification:
  assumes "check_policy_detailed H C L word ops clock g path artifact mbom_file signature_file policy_file = Inr chk"
  obtains policy ctx where "guard_verify H C L ops clock g path artifact mbom_file signature_file = Inr (pk_verification chk)"
    and "load_policy_file L policy_file = Inr policy" and "pk_decision chk = evaluate ctx policy"
    and "cx_revoked ctx = vr_revoked (pk_verification chk)"
    and "cx_high_finding_count ctx = count_severity (pk_scan_report chk) HIGH" and "cx_scan_performed ctx"
    and "\<exists>m b d. run_scanners H word path artifact (Some m) (Some b) None d = Inr (pk_scan_report chk)"
  using assms unfolding check_policy_detailed_def Let_def by (fastforce split: sum.splits option.splits simp: build_context_def)

lemma verified_facts:
  assumes "guard_verify H C L ops clock g path artifact mbom_file signature_file = Inr r"
  obtains env where "load_envelope signature_file = Inr env"
    and "vr_digest_matches r \<Longrightarrow>
      \<exists>h. guard_hash H g path artifact = Inr h \<and> digest_ref (hr_digest h) = sp_artifact_digest (se_payload env)"
    and "vr_signer_trusted r = Some True \<Longrightarrow>
      \<exists>config chk. mg_trust g = Some config \<and> verify_envelope_signature H (default_verifiers C) (mg_allow_legacy g) env = Inr chk
        \<and> te_trusted (evaluate_trust (sc_key_fingerprint chk) (sc_algorithm chk) config
              (Some (sp_signer_identity (se_payload env))) (sp_model_id (se_payload env)) clock)"
  by (rule guard_verify_InrE [OF assms], rule that, assumption)
    (auto simp: Let_def signer_trust_def simp flip: digest_matches_iff split: sum.splits option.splits)

text \<open>
  C1. Whatever the policy file says, what is admitted was hashed to the digest that a key signed, and the
  trust configuration trusts that key for the signer and the model now.
\<close>

theorem admitted_is_signed:
  assumes "an_admitted (fst (admit H C L word W cid now ops clock g path artifact mbom_file signature_file
       policy_file actor audit))"
  shows "\<exists>env config chk h. load_envelope signature_file = Inr env \<and> mg_trust g = Some config
     \<and> verify_envelope_signature H (default_verifiers C) (mg_allow_legacy g) env = Inr chk
     \<and> te_trusted (evaluate_trust (sc_key_fingerprint chk) (sc_algorithm chk) config
              (Some (sp_signer_identity (se_payload env))) (sp_model_id (se_payload env)) clock)
     \<and> guard_hash H g path artifact = Inr h \<and> digest_ref (hr_digest h) = sp_artifact_digest (se_payload env)"
proof -
  obtain chk where chk: "check_policy_detailed H C L word ops clock g path artifact mbom_file signature_file
      policy_file = Inr chk" "vr_digest_matches (pk_verification chk)" "vr_signer_trusted (pk_verification chk) = Some True"
    using assms by (auto simp: admit_def finish_admitted refusal_def Let_def admission_reasons_empty split: sum.splits if_splits)
  obtain policy ctx where "guard_verify H C L ops clock g path artifact mbom_file signature_file = Inr (pk_verification chk)"
    by (rule check_policy_verification [OF chk(1)])
  then show ?thesis by (rule verified_facts) (use chk(2,3) in blast)
qed

lemma not_admitted:
  assumes "\<And>chk. check_policy_detailed H C L word ops clock g path artifact mbom_file signature_file
      policy_file = Inr chk \<Longrightarrow> \<not> is_allowed (dr_decision (pk_decision chk))"
  shows "\<not> an_admitted (fst (admit H C L word W cid now ops clock g path artifact mbom_file
      signature_file policy_file actor audit))"
  using assms by (auto simp: admit_def finish_admitted refusal_def Let_def admission_reasons_empty split: sum.splits)

text \<open>A revocation that the registry reports refuses, under a policy that enables the rule.\<close>

lemma found_revocation_decision:
  assumes "revocation_check ops g (se_payload env) = Inr (True, Some rv)" and "load_envelope signature_file = Inr env"
    and "load_policy_file L policy_file = Inr policy" and "map_of (pd_rules policy) revocation_rule = Some config" and "rc_enabled config"
    and "check_policy_detailed H C L word ops clock g path artifact mbom_file signature_file policy_file = Inr chk"
  shows "dr_decision (pk_decision chk) = REVOKED"
proof -
  obtain ctx where v: "guard_verify H C L ops clock g path artifact mbom_file signature_file = Inr (pk_verification chk)"
      "pk_decision chk = evaluate ctx policy" "cx_revoked ctx = vr_revoked (pk_verification chk)"
    using check_policy_verification [OF assms(6)] assms(3) by (metis sum.inject(2))
  have "vr_revoked (pk_verification chk)" using guard_verify_revocation [OF v(1) assms(2)] assms(1) by auto
  then show ?thesis using v revoked_always_rejected [OF _ assms(4,5)] by simp
qed

lemma found_revocation_not_admitted:
  assumes "revocation_check ops g (se_payload env) = Inr (True, Some rv)" and "load_envelope signature_file = Inr env"
    and "load_policy_file L policy_file = Inr policy" and "map_of (pd_rules policy) revocation_rule = Some config" and "rc_enabled config"
  shows "\<not> an_admitted (fst (admit H C L word W cid now ops clock g path artifact mbom_file
      signature_file policy_file actor audit))"
proof (rule not_admitted)
  fix chk
  assume c: "check_policy_detailed H C L word ops clock g path artifact mbom_file signature_file
      policy_file = Inr chk"
  have "dr_decision (pk_decision chk) = REVOKED" by (rule found_revocation_decision) (rule assms c)+
  then show "\<not> is_allowed (dr_decision (pk_decision chk))" by (simp add: is_allowed_def)
qed

text \<open>A registry that does not answer refuses.\<close>

lemma failed_revocation_check_not_admitted:
  assumes "load_envelope signature_file = Inr env" and "revocation_check ops g (se_payload env) = Inl e"
  shows "\<not> an_admitted (fst (admit H C L word W cid now ops clock g path artifact mbom_file
      signature_file policy_file actor audit))"
proof (rule not_admitted)
  fix chk
  assume c: "check_policy_detailed H C L word ops clock g path artifact mbom_file signature_file
      policy_file = Inr chk"
  obtain ctx policy where "load_policy_file L policy_file = Inr policy"
      "guard_verify H C L ops clock g path artifact mbom_file signature_file = Inr (pk_verification chk)"
    using check_policy_verification [OF c] by blast
  then show "\<not> is_allowed (dr_decision (pk_decision chk))" using guard_verify_revocation [OF _ assms(1)] assms(2) by fastforce
qed

text \<open>
  C9. Revocation reaches admission: a version revoked in the local registry is not admitted under a policy
  that enables the revocation rule, whatever action the rule is given, until the revocation is lifted.
\<close>

theorem revoked_version_not_admitted:
  assumes "local_revoke H (local_run H ops) rv = Inr s"
    and "\<forall>op \<in> set ops'. \<forall>now a reason. op \<noteq> Unrevoke now (rv_model_id rv) (rv_version rv) a reason"
    and "mg_injected g = None" and "mg_storage g = Some \<lparr>so_registry = foldl (local_step H) s ops', so_provenance = p\<rparr>"
    and "load_envelope signature_file = Inr env"
    and "sp_model_id (se_payload env) = Some (rv_model_id rv)" and "sp_version (se_payload env) = Some (rv_version rv)"
    and "load_policy_file L policy_file = Inr policy" and "map_of (pd_rules policy) revocation_rule = Some config" and "rc_enabled config"
  shows "\<not> an_admitted (fst (admit H C L word W cid now ops'' clock g path artifact mbom_file
      signature_file policy_file actor audit))"
proof -
  obtain rv' where r: "revocation_check ops'' g (se_payload env) = Inr (True, Some rv')"
    by (rule revoked_version_found [OF assms(1-4,6,7)])
  show ?thesis by (rule found_revocation_not_admitted) (rule r assms)+
qed

text \<open>
  C11. The scan reaches admission: an artifact with a file of a pickle extension, however deep, is not
  admitted under a policy that enables \<open>max_high_findings: 0\<close> with an action that refuses.
\<close>

theorem pickle_not_admitted:
  assumes "(q, content) \<in> set (contents [] n)" and "\<not> is_symlink n"
    and "py_lower (path_suffix (component_name path q)) \<in> set pickle_extensions"
    and "load_policy_file L policy_file = Inr policy" and "map_of (pd_rules policy) ''max_high_findings'' = Some config"
    and "rc_enabled config" and "rc_max_count config = 0" and "\<not> is_allowed (action_to_decision (rc_on_fail config))"
  shows "\<not> an_admitted (fst (admit H C L word W cid now ops clock g path (Some n) mbom_file
      signature_file policy_file actor audit))"
proof (rule not_admitted)
  fix chk
  assume c: "check_policy_detailed H C L word ops clock g path (Some n) mbom_file signature_file
      policy_file = Inr chk"
  obtain ctx m b d where v: "pk_decision chk = evaluate ctx policy" "cx_scan_performed ctx"
      "cx_high_finding_count ctx = count_severity (pk_scan_report chk) HIGH"
      "run_scanners H word path (Some n) (Some m) (Some b) None d = Inr (pk_scan_report chk)"
    using check_policy_verification [OF c] assms(4) by (metis sum.inject(2))
  have "0 < count_severity (pk_scan_report chk) HIGH"
    using pickle_reported [OF v(4) assms(1,2), of HIGH] assms(3) by simp
  then have "\<not> fst (check_max_high_findings ctx config)"
    using v assms(7) by (simp add: check_max_high_findings_def check_max_findings_def)
  then show "\<not> is_allowed (dr_decision (pk_decision chk))"
    unfolding v(1) using assms(5,6,8)
    by (intro failing_rule_refuses [of "''max_high_findings''" check_max_high_findings])
      (simp_all add: rule_checks_def triggered_def revocation_rule_def)
qed

section \<open>The record of a decision\<close>

lemma admit_finishes:
  "\<exists>d0. admit H C L word W cid now ops clock g path artifact mbom_file signature_file policy_file
       actor audit = finish H W now actor audit d0 \<and> an_correlation_id d0 = cid"
proof -
  have "an_correlation_id (refusal cid reason err) = cid" for reason err by (simp add: refusal_def)
  then show ?thesis
    unfolding admit_def Let_def
    by (cases "check_policy_detailed H C L word ops clock g path artifact mbom_file signature_file policy_file")
      (force | simp)+
qed

text \<open>
  C12. An audited decision is the last event of the log, which verifies: success exactly for an admission,
  with the decision's digest and correlation id.  Refusals are recorded like admissions.
\<close>

theorem admission_recorded:
  assumes "holds_records H log (map audit_to_record evs)"
    and "admit H C L word W cid now ops clock g path artifact mbom_file signature_file policy_file
       actor (Some (log, None)) = (d, log')"
  shows "\<exists>t ev. log' = Some (Some t) \<and> audit_all_events (Some t) = Inr (evs @ [ev]) \<and> audit_verify H (Some t) = Inr ()
    \<and> an_audited d \<and> ae_result ev = (if an_admitted d then ''success'' else ''failure'')
    \<and> ae_actor ev = actor \<and> ae_artifact_digest ev = an_artifact_digest d \<and> ae_correlation_id ev = cid"
proof -
  obtain d0 where d0: "(d, log') = finish H W now actor (Some (log, None)) d0" "an_correlation_id d0 = cid"
    using admit_finishes assms(2) by metis
  let ?ev = "admission_event W now actor d0"
  obtain t e where t: "audit_record H log ?ev = Inr (t, e)" "audit_all_events (Some t) = Inr (evs @ [?ev])"
      "audit_verify H (Some t) = Inr ()"
    using audit_log.record_event [OF assms(1), of ?ev] by (auto simp: audit_record_def audit_all_events_def audit_verify_def)
  have "d = d0\<lparr>an_audited := True\<rparr>" "log' = Some (Some t)" using d0(1) t(1) by (simp_all add: finish_def)
  with t d0(2) show ?thesis by (intro exI [of _ t] exI [of _ ?ev]) (simp add: admission_event_def)
qed

section \<open>Examples\<close>

definition one_rule :: "string \<Rightarrow> policy_document" where
  "one_rule name = \<lparr>pd_version = ''1'', pd_name = ''p'', pd_environment = None,
     pd_rules = [(name, \<lparr>rc_enabled = True, rc_on_fail = Deny, rc_max_count = 0\<rparr>)]\<rparr>"

definition one_rule_json :: "string \<Rightarrow> json" where
  "one_rule_json name = JObj [(''policy'', JObj [(''name'', JStr ''p'')]), (''rules'', JObj [(name, JObj [])])]"

definition one_rule_file :: "string \<Rightarrow> fs_node option" where
  "one_rule_file name = Some (FFile (dumps (one_rule_json name)))"

lemma load_one_rule: "name \<in> set known_rule_names \<Longrightarrow> load_policy_file sample_libs (one_rule_file name) = Inr (one_rule name)"
proof -
  assume n: "name \<in> set known_rule_names"
  have "wf_json (one_rule_json name)" by (simp add: one_rule_json_def)
  then have "load_policy_file sample_libs (one_rule_file name)
      = (case canon (one_rule_json name) of JObj d \<Rightarrow> parse_policy_document sample_libs d | _ \<Rightarrow> Inl PolicyValidationError)"
    by (simp add: load_policy_file_def one_rule_file_def path_exists_def read_file_def dumps_ascii loads_dumps sample_libs_yaml)
  also have "canon (one_rule_json name) = one_rule_json name" by (simp add: one_rule_json_def)
  finally show ?thesis
    using n by (simp add: one_rule_json_def parse_policy_document_def known_members_def opt_field_def rule_config_of_json_def
        bool_field_def enum_field_def int_field_def one_rule_def)
qed

lemma load_demo_policies:
  "load_policy_file sample_libs (one_rule_file ''require_valid_signature'') = Inr (one_rule ''require_valid_signature'')"
  "load_policy_file sample_libs (one_rule_file revocation_rule) = Inr (one_rule revocation_rule)"
  "load_policy_file sample_libs (one_rule_file ''max_high_findings'') = Inr (one_rule ''max_high_findings'')"
  by (rule load_one_rule, simp add: known_rule_names_def revocation_rule_def)+

abbreviation demo_admit :: "storage option \<Rightarrow> string \<Rightarrow> fs_node option \<Rightarrow> audit_target option \<Rightarrow> admission_decision \<times> log_file option" where
  "demo_admit st rule artifact audit \<equiv>
     admit demo_hash demo_crypto sample_libs (\<lambda>_. False) sample_wording ''c'' ''t'' demo_ops 5
       (demo_guard st None) [''m.bin''] artifact demo_mbom_file demo_signature (one_rule_file rule) ''ci'' audit"

lemma demo_check:
  "\<exists>chk. check_policy_detailed demo_hash demo_crypto sample_libs (\<lambda>_. False) demo_ops 5 (demo_guard None None) [''m.bin'']
      demo_artifact demo_mbom_file demo_signature (one_rule_file ''require_valid_signature'') = Inr chk
    \<and> is_allowed (dr_decision (pk_decision chk)) \<and> vr_digest_matches (pk_verification chk)
    \<and> vr_signer_trusted (pk_verification chk) = Some True"
proof -
  obtain r where r: "guard_verify demo_hash demo_crypto sample_libs demo_ops 5 (demo_guard None None) [''m.bin'']
      demo_artifact demo_mbom_file demo_signature = Inr r" "vr_allowed r" "vr_digest_matches r" "vr_signer_trusted r = Some True"
    using genuine_artifact_verifies [OF demo_manifest demo_usable demo_signed demo_loads(2,1),
        of "demo_guard None None" demo_ops False 5]
    by (auto simp: demo_guard_def revocation_check_def has_registry_def demo_trusted demo_hash_def demo_signature_def)
  have "vr_signature_valid r" using r(2) guard_verify_valid [OF r(1)] by simp
  then have "failures (build_context m b True mv rv True sp c h st) (one_rule ''require_valid_signature'') rule_checks = {}" for m b mv rv sp c h st
    by (auto simp: failures_def one_rule_def rule_checks_def revocation_rule_def build_context_def check_require_valid_signature_def)
  then have "dr_decision (evaluate (build_context m b True mv rv True sp c h st) (one_rule ''require_valid_signature'')) = ALLOW" for m b mv rv sp c h st
    by (simp add: evaluate_decision build_context_def)
  then show ?thesis
    using r \<open>vr_signature_valid r\<close> run_scanners_with_digest
    by (auto simp: check_policy_detailed_def demo_loads load_demo_policies envelope_of_envelope_json Let_def is_allowed_def split: sum.splits) (metis sum.distinct(1))
qed

theorem admitted_is_signed_witness:
  "\<exists>env chk. load_envelope demo_signature = Inr env
     \<and> verify_envelope_signature demo_hash (default_verifiers demo_crypto) False env = Inr chk"
proof -
  have "an_admitted (fst (demo_admit None ''require_valid_signature'' demo_artifact None))"
    using demo_check by (auto simp: admit_def finish_admitted Let_def admission_reasons_empty trusted_key_fingerprints_def demo_guard_def
        recordable_def split: sum.splits)
  from admitted_is_signed [OF this] show ?thesis by (auto simp: demo_guard_def)
qed

theorem revoked_version_not_admitted_witness:
  "\<exists>s. local_revoke demo_hash (local_run demo_hash []) sample_revocation = Inr s
     \<and> \<not> an_admitted (fst (demo_admit (Some \<lparr>so_registry = s, so_provenance = None\<rparr>) revocation_rule demo_artifact None))"
proof -
  obtain s where s: "local_revoke demo_hash (local_run demo_hash []) sample_revocation = Inr s" using demo_revoked by blast
  have p: "sp_model_id (se_payload demo_envelope) = Some (rv_model_id sample_revocation)"
      "sp_version (se_payload demo_envelope) = Some (rv_version sample_revocation)"
    by (simp_all add: demo_envelope_def local_envelope_def Let_def signed_payload_def demo_manifest_def sample_revocation_def)
  show ?thesis
    using revoked_version_not_admitted [OF s, of "[]" "demo_guard (Some \<lparr>so_registry = s, so_provenance = None\<rparr>) None" None
      demo_signature demo_envelope sample_libs "one_rule_file revocation_rule" "one_rule revocation_rule"] s p
    by (simp add: demo_guard_def demo_loads load_demo_policies) (simp add: one_rule_def)
qed

theorem pickle_not_admitted_witness:
  "\<not> an_admitted (fst (demo_admit None ''max_high_findings'' (Some sample_artifact) None))"
proof (rule pickle_not_admitted)
  show "([''w'', ''m.PKL''], ''x'') \<in> set (contents [] sample_artifact)" by (simp add: sample_artifact_def)
  show "map_of (pd_rules (one_rule ''max_high_findings'')) ''max_high_findings''
      = Some \<lparr>rc_enabled = True, rc_on_fail = Deny, rc_max_count = 0\<rparr>" by (simp add: one_rule_def)
  show "py_lower (path_suffix (component_name [''m.bin''] [''w'', ''m.PKL''])) \<in> set pickle_extensions" by code_simp
  show "load_policy_file sample_libs (one_rule_file ''max_high_findings'') = Inr (one_rule ''max_high_findings'')"
    by (rule load_demo_policies)
qed (simp_all add: sample_artifact_def is_allowed_def)

theorem admission_recorded_witness:
  "\<exists>t. snd (demo_admit None ''max_high_findings'' None (Some (None, None))) = Some (Some t)
     \<and> audit_verify demo_hash (Some t) = Inr ()"
proof -
  obtain d log' where a: "demo_admit None ''max_high_findings'' None (Some (None, None)) = (d, log')" by fastforce
  have "holds_records demo_hash None (map audit_to_record [])" by (simp add: holds_records_def)
  from admission_recorded [OF this a] show ?thesis by (auto simp: a)
qed

end
