(* ===== verification/Storage.thy ===== *)
theory Storage
  imports Keys
begin

text \<open>
  \<open>storage/_io.py\<close> and \<open>storage/local.py\<close>: content-addressed blobs.  \<open>H\<close> is
  \<open>hashlib.sha256(_).hexdigest()\<close>.  A download writes into a directory as \<open>Keys\<close> models it (names
  with mode and bytes), one state per system call; the disk itself does not fail.  The local store
  maps a blob's identifier to what lies at its path, which anybody may have put there.
\<close>

definition validate_sha256 :: "string \<Rightarrow> exn + string" where
  "validate_sha256 value = (if \<not> is_sha256_hex value then Inl ArtifactStoreError else Inr value)"

text \<open>A regular file is opened and read; links, other entries and missing ones are refused.\<close>

definition open_regular_nofollow :: "fs_node option \<Rightarrow> exn + bytes" where
  "open_regular_nofollow nd = (case nd of Some (FFile b) \<Rightarrow> Inr b | _ \<Rightarrow> Inl ArtifactStoreError)"

text \<open>\<open>while chunk := raw.read(n)\<close>.\<close>

function chunks_of :: "nat \<Rightarrow> bytes \<Rightarrow> bytes list" where
  "chunks_of n raw = (if take n raw = [] then [] else take n raw # chunks_of n (drop n raw))"
  by pat_completeness auto
termination
  by (relation "measure (\<lambda>(n, raw). length raw)") auto

declare chunks_of.simps [simp del]

lemma concat_chunks_of: "0 < n \<Longrightarrow> concat (chunks_of n raw) = raw"
proof (induction n raw rule: chunks_of.induct)
  case (1 n raw)
  then show ?case by (subst chunks_of.simps) auto
qed

section \<open>A verified write\<close>

text \<open>
  The loop over the chunks, each a value or the error of reading it: what has been written after
  each chunk, and how the loop ends.
\<close>

fun receive :: "int \<Rightarrow> (exn + bytes) list \<Rightarrow> int \<Rightarrow> bytes \<Rightarrow> bytes list \<times> (exn + bytes)" where
  "receive max_bytes [] written out = ([], Inr out)"
| "receive max_bytes (Inl e # stream) written out = ([], Inl e)"
| "receive max_bytes (Inr chunk # stream) written out =
     (let written' = written + int (length chunk)
      in if written' > max_bytes then ([], Inl ArtifactIntegrityError)
         else (case receive max_bytes stream written' (out @ chunk) of
             (outs, r) \<Rightarrow> ((out @ chunk) # outs, r)))"

text \<open>
  \<open>write_verified\<close>: the result and the states of the directory; \<open>tmp\<close> is the fresh temporary name.
  On success the result is what the file at \<open>dest\<close> holds.
\<close>

definition write_verified ::
    "(bytes \<Rightarrow> string) \<Rightarrow> string \<Rightarrow> int \<Rightarrow> string \<Rightarrow> string \<Rightarrow> (exn + bytes) list \<Rightarrow> key_dir \<Rightarrow> (exn + bytes) \<times> key_dir list" where
  "write_verified H expected_sha256 max_bytes dest tmp stream d =
     (if map_of d dest \<noteq> None then (Inl ArtifactStoreError, [])
      else if map_of d tmp \<noteq> None then (Inl OSError, [AList.delete tmp d])
      else
        (case receive max_bytes stream 0 [] of
           (outs, r) \<Rightarrow>
             let d1 = AList.update tmp (owner_only, []) d;
                 states = d1 # map (\<lambda>out. write_to tmp out d1) outs;
                 d2 = last states
             in case r of
                  Inl e \<Rightarrow> (Inl e, states @ [AList.delete tmp d2])
                | Inr out \<Rightarrow>
                    if H out \<noteq> expected_sha256 then (Inl ArtifactIntegrityError, states @ [AList.delete tmp d2])
                    else (Inr out, states @ [AList.update dest (owner_only, out) (AList.delete tmp d2)])))"

text \<open>Its result, for a destination that is taken or not and a fresh temporary name.\<close>

definition verified_bytes :: "(bytes \<Rightarrow> string) \<Rightarrow> string \<Rightarrow> int \<Rightarrow> bool \<Rightarrow> (exn + bytes) list \<Rightarrow> exn + bytes" where
  "verified_bytes H expected_sha256 max_bytes taken stream =
     (if taken then Inl ArtifactStoreError
      else (case snd (receive max_bytes stream 0 []) of
          Inl e \<Rightarrow> Inl e
        | Inr out \<Rightarrow> if H out \<noteq> expected_sha256 then Inl ArtifactIntegrityError else Inr out))"

lemma write_verified_result:
  "map_of d tmp = None \<Longrightarrow>
     fst (write_verified H sha max_bytes dest tmp stream d) = verified_bytes H sha max_bytes (map_of d dest \<noteq> None) stream"
  by (simp add: write_verified_def verified_bytes_def Let_def split: prod.splits sum.splits)

section \<open>The interface\<close>

text \<open>
  \<open>BlobStore\<close>: its operations on the store's state.  \<open>get_to\<close> is told whether something is at the
  destination already; what it returns is what it leaves there.
\<close>

record 's blob_ops =
  bo_exists :: "'s \<Rightarrow> string \<Rightarrow> (exn + bool) \<times> 's"
  bo_put :: "'s \<Rightarrow> string \<Rightarrow> fs_node option \<Rightarrow> (exn + unit) \<times> 's"
  bo_get_to :: "'s \<Rightarrow> string \<Rightarrow> bool \<Rightarrow> int \<Rightarrow> (exn + bytes) \<times> 's"

text \<open>What the protocol promises of every implementation: what is read was verified.\<close>

locale blob_store =
  fixes H :: "bytes \<Rightarrow> string" and ops :: "'s blob_ops"
  assumes get_verified: "bo_get_to ops s sha taken max_bytes = (Inr b, s') \<Longrightarrow>
      H b = sha \<and> int (length b) \<le> max 0 max_bytes \<and> \<not> taken \<and> is_sha256_hex sha"
begin

lemma same_identifier_same_bytes:
  assumes "bo_get_to ops s sha taken max_bytes = (Inr b, s1)" and "bo_get_to ops s' sha taken' max_bytes' = (Inr b', s2)"
    and "inj_on H {b, b'}"
  shows "b = b'"
proof -
  have "H b = H b'" using get_verified [OF assms(1)] get_verified [OF assms(2)] by argo
  then show ?thesis using assms(3) by (simp add: inj_on_eq_iff)
qed

end

section \<open>The local store\<close>

type_synonym local_store = "fs_node dict"

definition local_exists :: "local_store \<Rightarrow> string \<Rightarrow> (exn + bool) \<times> local_store" where
  "local_exists s sha =
     (case validate_sha256 sha of
        Inl e \<Rightarrow> (Inl e, s)
      | Inr _ \<Rightarrow> (Inr (path_is_file (map_of s sha) \<and> \<not> path_is_symlink (map_of s sha)), s))"

definition local_put :: "(bytes \<Rightarrow> string) \<Rightarrow> local_store \<Rightarrow> string \<Rightarrow> fs_node option \<Rightarrow> (exn + unit) \<times> local_store" where
  "local_put H s sha source =
     (case validate_sha256 sha of
        Inl e \<Rightarrow> (Inl e, s)
      | Inr _ \<Rightarrow>
          (case open_regular_nofollow source of
             Inl e \<Rightarrow> (Inl e, s)
           | Inr raw \<Rightarrow>
               (let out = concat (chunks_of chunk_size raw)
                in if H out \<noteq> sha then (Inl ArtifactIntegrityError, s)
                   else if is_dir_node (map_of s sha) then (Inl OSError, s)
                   else (Inr (), AList.update sha (FFile out) s))))"

definition local_get_to :: "(bytes \<Rightarrow> string) \<Rightarrow> local_store \<Rightarrow> string \<Rightarrow> bool \<Rightarrow> int \<Rightarrow> (exn + bytes) \<times> local_store" where
  "local_get_to H s sha taken max_bytes =
     (case validate_sha256 sha of
        Inl e \<Rightarrow> (Inl e, s)
      | Inr _ \<Rightarrow>
          (case (case open_regular_nofollow (map_of s sha) of
                   Inl e \<Rightarrow> Inl e
                 | Inr raw \<Rightarrow> verified_bytes H sha max_bytes taken (map Inr (chunks_of chunk_size raw))) of
             Inl e \<Rightarrow>
               (if catches ArtifactStoreErrorC e \<and> \<not> path_exists (map_of s sha) \<and> \<not> path_is_symlink (map_of s sha)
                then Inl BlobNotFoundError else Inl e, s)
           | Inr b \<Rightarrow> (Inr b, s)))"

definition local_blobs :: "(bytes \<Rightarrow> string) \<Rightarrow> local_store blob_ops" where
  "local_blobs H = \<lparr>bo_exists = local_exists, bo_put = local_put H, bo_get_to = local_get_to H\<rparr>"

section \<open>What a verified write leaves\<close>

lemma receive_ok:
  "receive max_bytes stream written out = (outs, Inr b) \<Longrightarrow>
     \<exists>cs. stream = map Inr cs \<and> b = out @ concat cs \<and> (cs \<noteq> [] \<longrightarrow> written + int (length (concat cs)) \<le> max_bytes)"
proof (induction max_bytes stream written out arbitrary: outs rule: receive.induct)
  case (3 max_bytes chunk stream written out)
  then obtain outs' cs where cs: "stream = map Inr cs" "b = (out @ chunk) @ concat cs"
      "cs \<noteq> [] \<longrightarrow> written + int (length chunk) + int (length (concat cs)) \<le> max_bytes"
    by (auto simp: Let_def split: if_splits prod.splits)
  moreover have "written + int (length chunk) \<le> max_bytes" using 3 by (auto simp: Let_def split: if_splits)
  ultimately show ?case by (intro exI [of _ "chunk # cs"]) (cases "cs = []"; simp)
qed auto

lemma receive_all:
  "written + int (length (concat cs)) \<le> max_bytes \<Longrightarrow> snd (receive max_bytes (map Inr cs) written out) = Inr (out @ concat cs)"
  by (induction cs arbitrary: written out) (simp_all add: Let_def case_prod_unfold ac_simps)

lemma verified_Inr:
  assumes "verified_bytes H sha max_bytes taken stream = Inr b"
  shows "H b = sha \<and> int (length b) \<le> max 0 max_bytes \<and> \<not> taken"
proof -
  obtain outs where "receive max_bytes stream 0 [] = (outs, Inr b)" and "H b = sha" and "\<not> taken"
    using assms by (cases "receive max_bytes stream 0 []") (auto simp: verified_bytes_def split: if_splits sum.splits)
  then show ?thesis using receive_ok by fastforce
qed

interpretation local_blobs: blob_store H "local_blobs H" for H
  by unfold_locales
    (auto simp: local_blobs_def local_get_to_def validate_sha256_def dest: verified_Inr split: sum.splits if_splits)

text \<open>
  A download never shows unverified bytes: in every state of the directory the destination is absent or
  holds, readable by its owner only, the bytes that hash to the expected digest and keep the limit; other
  files are not touched, and at the end the temporary file is gone and the destination is there exactly
  on success.
\<close>

theorem write_verified_safe:
  assumes "map_of d dest = None" and "map_of d tmp = None" and "tmp \<noteq> dest"
    and "write_verified H sha max_bytes dest tmp stream d = (r, states)"
  shows "(\<forall>s \<in> set states. (map_of s dest = None \<or> (\<exists>b. r = Inr b \<and> map_of s dest = Some (owner_only, b)
              \<and> H b = sha \<and> int (length b) \<le> max 0 max_bytes))
            \<and> (\<forall>m b. map_of s tmp = Some (m, b) \<longrightarrow> m = owner_only)
            \<and> (\<forall>name. name \<noteq> tmp \<and> name \<noteq> dest \<longrightarrow> map_of s name = map_of d name))
    \<and> map_of (last states) tmp = None
    \<and> map_of (last states) dest = (case r of Inl _ \<Rightarrow> None | Inr b \<Rightarrow> Some (owner_only, b))"
proof -
  obtain outs r0 where o: "receive max_bytes stream 0 [] = (outs, r0)" by fastforce
  define d1 where "d1 = AList.update tmp (owner_only, []) d"
  define body where "body = d1 # map (\<lambda>out. write_to tmp out d1) outs"
  have one: "map_of x dest = None \<and> (\<exists>b. map_of x tmp = Some (owner_only, b))
      \<and> (\<forall>name. name \<noteq> tmp \<and> name \<noteq> dest \<longrightarrow> map_of x name = map_of d name)" if "x \<in> set body" for x
    using that assms(1,3) by (auto simp: body_def d1_def write_to_def update_conv' split: option.splits)
  have l: "last body \<in> set body" unfolding body_def by (rule last_in_set) simp
  note last_one = one [OF l]
  have all: "\<forall>x \<in> set body. map_of x dest = None \<and> (\<forall>m b. map_of x tmp = Some (m, b) \<longrightarrow> m = owner_only)
      \<and> (\<forall>name. name \<noteq> tmp \<and> name \<noteq> dest \<longrightarrow> map_of x name = map_of d name)"
    using one by fastforce
  have v: "H out = sha \<and> int (length out) \<le> max 0 max_bytes" if "r = Inr out" for out
    using that verified_Inr [of H sha max_bytes False stream out] write_verified_result [OF assms(2), of H sha max_bytes dest stream]
      assms(1,4) by simp
  have s: "states = body @ [AList.delete tmp (last body)] \<and> (\<exists>e. r = Inl e)
      \<or> (\<exists>out. r = Inr out \<and> states = body @ [AList.update dest (owner_only, out) (AList.delete tmp (last body))])"
    using assms(1,2,4) o unfolding write_verified_def body_def d1_def by (auto simp: Let_def split: sum.splits if_splits)
  then show ?thesis
  proof
    assume "states = body @ [AList.delete tmp (last body)] \<and> (\<exists>e. r = Inl e)"
    then show ?thesis using all last_one assms(3) by (auto simp: delete_conv')
  next
    assume "\<exists>out. r = Inr out \<and> states = body @ [AList.update dest (owner_only, out) (AList.delete tmp (last body))]"
    then obtain out where out: "r = Inr out" "states = body @ [AList.update dest (owner_only, out) (AList.delete tmp (last body))]"
      by blast
    then show ?thesis using all last_one assms(3) v [OF out(1)] by (auto simp: delete_conv' update_conv')
  qed
qed

theorem write_verified_safe_witness:
  "map_of (last (snd (write_verified (\<lambda>b. b) ''ab'' 5 ''d'' ''t'' [Inr ''a'', Inr ''b''] []))) ''d'' = Some (owner_only, ''ab'')"
  using write_verified_safe [of "[]" "''d''" "''t''" "\<lambda>b. b" "''ab''" 5 "[Inr ''a'', Inr ''b'']" "Inr ''ab''"]
  by (simp add: write_verified_def Let_def)

end
