(* ===== verification/Blob_Transfer.thy ===== *)
theory Blob_Transfer
  imports Storage
begin

text \<open>
  \<open>storage/transfer.py\<close>: whole artifacts through a blob store.  A file is a blob; a directory is the
  blobs of its files and its canonical manifest under the artifact's digest.  A result \<open>Inr nd\<close> of a
  download is the tree renamed into place; on an error nothing is at the destination.
\<close>

definition default_max_total_bytes :: int where "default_max_total_bytes = 256 * 1024 ^ 3"
definition default_max_files :: int where "default_max_files = 100000"
definition max_manifest_bytes :: int where "max_manifest_bytes = 64 * 1024 ^ 2"
definition max_segment :: nat where "max_segment = 255"
definition max_path :: nat where "max_path = 4096"

section \<open>Reading a manifest\<close>

definition check_relative_path :: "string \<Rightarrow> exn + unit" where
  "check_relative_path path =
     (if path = [] \<or> length path > max_path then Inl ArtifactIntegrityError
      else if prefix ''/'' path \<or> CHR 0x5C \<in> set path then Inl ArtifactIntegrityError
      else if list_ex is_control path then Inl ArtifactIntegrityError
      else if list_ex (\<lambda>segment. segment \<in> {'''', ''.'', ''..''} \<or> length segment > max_segment) (split_on (CHR ''/'') path)
      then Inl ArtifactIntegrityError
      else Inr ())"

definition parse_entry :: "json \<Rightarrow> exn + file_digest" where
  "parse_entry item =
     (case item of
        JObj d \<Rightarrow>
          (if set (map fst d) \<noteq> {''path'', ''sha256'', ''size''} then Inl ArtifactIntegrityError
           else (case (map_of d ''path'', map_of d ''sha256'', map_of d ''size'') of
               (Some (JStr path), Some (JStr sha), Some (JInt sz)) \<Rightarrow>
                 if sz < 0 then Inl ArtifactIntegrityError
                 else (case check_relative_path path of
                     Inl e \<Rightarrow> Inl e
                   | Inr _ \<Rightarrow>
                       (case validate_sha256 sha of
                          Inl e \<Rightarrow> if catches ArtifactStoreErrorC e then Inl ArtifactIntegrityError else Inl e
                        | Inr _ \<Rightarrow> Inr \<lparr>fd_path = path, fd_sha256 = sha, fd_size = sz\<rparr>))
             | _ \<Rightarrow> Inl ArtifactIntegrityError))
      | _ \<Rightarrow> Inl ArtifactIntegrityError)"

text \<open>The loop over the entries, with the paths seen and the total size so far.\<close>

fun parse_entries :: "int \<Rightarrow> json list \<Rightarrow> string set \<Rightarrow> int \<Rightarrow> exn + file_digest list" where
  "parse_entries max_total [] seen sofar = Inr []"
| "parse_entries max_total (item # items) seen sofar =
     (case parse_entry item of
        Inl e \<Rightarrow> Inl e
      | Inr f \<Rightarrow>
          if fd_path f \<in> seen then Inl ArtifactIntegrityError
          else if sofar + fd_size f > max_total then Inl ArtifactIntegrityError
          else (case parse_entries max_total items (insert (fd_path f) seen) (sofar + fd_size f) of
              Inl e \<Rightarrow> Inl e
            | Inr fs \<Rightarrow> Inr (f # fs)))"

text \<open>A path that is a file and a directory at once.\<close>

definition path_conflict :: "file_digest list \<Rightarrow> bool" where
  "path_conflict files =
     list_ex (\<lambda>f. list_ex (\<lambda>g. prefix (fd_path f @ ''/'') (fd_path g)) files) files"

text \<open>
  \<open>_parse_manifest\<close>.  \<open>json.loads\<close> of bytes also takes UTF-16 and UTF-32, which the canonical form
  then excludes with the same error; nesting too deep for the parser is out of the model.
\<close>

definition parse_manifest :: "bytes \<Rightarrow> int \<Rightarrow> int \<Rightarrow> exn + file_digest list" where
  "parse_manifest raw max_files max_total =
     (case Option.bind (utf8_decode raw) loads of
        Some (JObj doc) \<Rightarrow>
          (if set (map fst doc) \<noteq> {''algorithm'', ''files''} \<or> map_of doc ''algorithm'' \<noteq> Some (JStr ''sha256'')
           then Inl ArtifactIntegrityError
           else (case map_of doc ''files'' of
               Some (JList entries) \<Rightarrow>
                 (if entries = [] then Inl ArtifactIntegrityError
                  else if int (length entries) > max_files then Inl ArtifactIntegrityError
                  else (case parse_entries max_total entries {} 0 of
                      Inl e \<Rightarrow> Inl e
                    | Inr files \<Rightarrow> if path_conflict files then Inl ArtifactIntegrityError else Inr files))
             | _ \<Rightarrow> Inl ArtifactIntegrityError))
      | _ \<Rightarrow> Inl ArtifactIntegrityError)"

definition fetch_manifest ::
    "(bytes \<Rightarrow> string) \<Rightarrow> 's blob_ops \<Rightarrow> 's \<Rightarrow> string \<Rightarrow> int \<Rightarrow> int \<Rightarrow> (exn + file_digest list) \<times> 's" where
  "fetch_manifest H ops s expected_digest max_files max_total =
     (case bo_get_to ops s expected_digest False max_manifest_bytes of
        (Inl e, s1) \<Rightarrow> (Inl e, s1)
      | (Inr raw, s1) \<Rightarrow>
          (case parse_manifest raw max_files max_total of
             Inl e \<Rightarrow> (Inl e, s1)
           | Inr files \<Rightarrow>
               (case artifact_digest_from_files H ''directory'' files of
                  Inl e \<Rightarrow> (Inl e, s1)
                | Inr rederived \<Rightarrow>
                    if ad_digest rederived \<noteq> expected_digest \<or> canonical_manifest_bytes files \<noteq> raw
                    then (Inl ArtifactIntegrityError, s1) else (Inr files, s1))))"

section \<open>Building the tree\<close>

text \<open>The entries of the staging directory: what is at a path, whether a parent of it is no directory, and adding a file with its parents.\<close>

fun entry_at :: "string list \<Rightarrow> (string \<times> fs_node) list \<Rightarrow> fs_node option" where
  "entry_at [] es = None"
| "entry_at [n] es = map_of es n"
| "entry_at (n # m # p) es = (case map_of es n of Some (FDir l sub) \<Rightarrow> entry_at (m # p) sub | _ \<Rightarrow> None)"

fun blocked :: "string list \<Rightarrow> (string \<times> fs_node) list \<Rightarrow> bool" where
  "blocked (n # m # p) es =
     (case map_of es n of None \<Rightarrow> False | Some (FDir l sub) \<Rightarrow> blocked (m # p) sub | Some _ \<Rightarrow> True)"
| "blocked _ es = False"

fun place :: "string list \<Rightarrow> bytes \<Rightarrow> (string \<times> fs_node) list \<Rightarrow> (string \<times> fs_node) list" where
  "place [] b es = es"
| "place [n] b es = AList.update n (FFile b) es"
| "place (n # m # p) b es =
     (case map_of es n of
        None \<Rightarrow> AList.update n (FDir True (place (m # p) b [])) es
      | Some (FDir l sub) \<Rightarrow> AList.update n (FDir l (place (m # p) b sub)) es
      | Some _ \<Rightarrow> es)"

fun fetch_files ::
    "'s blob_ops \<Rightarrow> file_digest list \<Rightarrow> 's \<Rightarrow> (string \<times> fs_node) list \<Rightarrow> (exn + (string \<times> fs_node) list) \<times> 's" where
  "fetch_files ops [] s staging = (Inr staging, s)"
| "fetch_files ops (f # files) s staging =
     (let target = split_on (CHR ''/'') (fd_path f)
      in if blocked target staging then (Inl OSError, s)
         else (case bo_get_to ops s (fd_sha256 f) (entry_at target staging \<noteq> None) (fd_size f) of
             (Inl e, s1) \<Rightarrow> (Inl e, s1)
           | (Inr b, s1) \<Rightarrow>
               if int (length b) \<noteq> fd_size f then (Inl ArtifactIntegrityError, s1)
               else fetch_files ops files s1 (place target b staging)))"

definition materialize_error :: "exn \<Rightarrow> exn" where
  "materialize_error e = (if catches OSErrorC e \<and> \<not> catches ArtifactStoreErrorC e then ArtifactStoreError else e)"

definition download_artifact ::
    "(bytes \<Rightarrow> string) \<Rightarrow> 's blob_ops \<Rightarrow> 's \<Rightarrow> string \<Rightarrow> string \<Rightarrow> string list \<Rightarrow> fs_node option \<Rightarrow> int \<Rightarrow> int \<Rightarrow> bool
       \<Rightarrow> (exn + fs_node) \<times> 's" where
  "download_artifact H ops s artifact_digest artifact_type dest at_dest max_total max_files verify_after =
     (let (algorithm, _, expected_digest) = py_partition (CHR '':'') artifact_digest
      in if algorithm \<noteq> ''sha256'' then (Inl ArtifactStoreError, s)
         else case validate_sha256 expected_digest of Inl e \<Rightarrow> (Inl e, s) | Inr _ \<Rightarrow>
         if artifact_type \<notin> {''file'', ''directory''} then (Inl ArtifactStoreError, s)
         else if path_exists at_dest \<or> path_is_symlink at_dest then (Inl ArtifactStoreError, s)
         else if artifact_type = ''file'' then
           (case bo_get_to ops s expected_digest False max_total of (r, s1) \<Rightarrow> (map_sum id FFile r, s1))
         else
           (case fetch_manifest H ops s expected_digest max_files max_total of
              (Inl e, s1) \<Rightarrow> (Inl e, s1)
            | (Inr files, s1) \<Rightarrow>
                (case fetch_files ops files s1 [] of
                   (Inl e, s2) \<Rightarrow> (Inl (materialize_error e), s2)
                 | (Inr staging, s2) \<Rightarrow>
                     (let rebuilt = FDir True staging
                      in if \<not> verify_after then (Inr rebuilt, s2)
                         else (case hash_artifact H dest (Some rebuilt) of
                             Inl e \<Rightarrow> (Inl e, s2)
                           | Inr d \<Rightarrow> if ad_digest d \<noteq> expected_digest then (Inl ArtifactIntegrityError, s2) else (Inr rebuilt, s2))))))"

section \<open>Uploading\<close>

definition put_if_absent :: "'s blob_ops \<Rightarrow> 's \<Rightarrow> string \<Rightarrow> fs_node option \<Rightarrow> (exn + unit) \<times> 's" where
  "put_if_absent ops s sha source =
     (case bo_exists ops s sha of
        (Inl e, s1) \<Rightarrow> (Inl e, s1)
      | (Inr there, s1) \<Rightarrow> if \<not> there then bo_put ops s1 sha source else (Inr (), s1))"

text \<open>What a path below a directory names; links on the way are followed.\<close>

fun node_at :: "string list \<Rightarrow> fs_node option \<Rightarrow> fs_node option" where
  "node_at [] nd = nd"
| "node_at (n # p) nd =
     (case Option.bind nd followed of Some (FDir l es) \<Rightarrow> node_at p (map_of es n) | _ \<Rightarrow> None)"

fun upload_files :: "'s blob_ops \<Rightarrow> fs_node option \<Rightarrow> file_digest list \<Rightarrow> 's \<Rightarrow> (exn + unit) \<times> 's" where
  "upload_files ops later [] s = (Inr (), s)"
| "upload_files ops later (f # files) s =
     (case put_if_absent ops s (fd_sha256 f) (node_at (split_on (CHR ''/'') (fd_path f)) later) of
        (Inl e, s1) \<Rightarrow> (Inl e, s1)
      | (Inr _, s1) \<Rightarrow> upload_files ops later files s1)"

text \<open>\<open>nd\<close> is the artifact when it is hashed, \<open>later\<close> when its files are sent.\<close>

definition upload_artifact ::
    "(bytes \<Rightarrow> string) \<Rightarrow> 's blob_ops \<Rightarrow> 's \<Rightarrow> string list \<Rightarrow> fs_node option \<Rightarrow> fs_node option \<Rightarrow> (exn + artifact_digest) \<times> 's" where
  "upload_artifact H ops s path nd later =
     (case hash_artifact H path nd of
        Inl e \<Rightarrow> (Inl e, s)
      | Inr digest \<Rightarrow>
          if ad_type digest = ''file'' then
            (case put_if_absent ops s (fd_sha256 (hd (ad_files digest))) later of
               (Inl e, s1) \<Rightarrow> (Inl e, s1) | (Inr _, s1) \<Rightarrow> (Inr digest, s1))
          else
            (case upload_files ops later (ad_files digest) s of
               (Inl e, s1) \<Rightarrow> (Inl e, s1)
             | (Inr _, s1) \<Rightarrow>
                 (case put_if_absent ops s1 (ad_digest digest) (Some (FFile (canonical_manifest_bytes (ad_files digest)))) of
                    (Inl e, s2) \<Rightarrow> (Inl e, s2) | (Inr _, s2) \<Rightarrow> (Inr digest, s2))))"

section \<open>What a parsed manifest guarantees\<close>

definition safe_path :: "string list \<Rightarrow> bool" where
  "safe_path p \<longleftrightarrow> p \<noteq> [] \<and> (\<forall>n \<in> set p. valid_name n \<and> n \<noteq> ''.'' \<and> n \<noteq> ''..'')"

lemma check_relative_path_safe: "check_relative_path path = Inr u \<Longrightarrow> safe_path (split_on (CHR ''/'') path)"
  using set_split_on [of _ "CHR ''/''" path]
  by (auto simp: check_relative_path_def safe_path_def valid_name_def list_ex_iff split: if_splits)

lemma parse_entry_Inr:
  assumes "parse_entry item = Inr f"
  shows "safe_path (split_on (CHR ''/'') (fd_path f))" and "is_sha256_hex (fd_sha256 f)" and "0 \<le> fd_size f"
proof -
  obtain d path sha sz where "item = JObj d" and f: "f = \<lparr>fd_path = path, fd_sha256 = sha, fd_size = sz\<rparr>"
      "check_relative_path path = Inr ()" "is_sha256_hex sha" "\<not> sz < 0"
    using assms by (cases item) (force simp: parse_entry_def validate_sha256_def split: json.split_asm option.split_asm if_split_asm sum.split_asm)+
  then show "safe_path (split_on (CHR ''/'') (fd_path f))" "is_sha256_hex (fd_sha256 f)" "0 \<le> fd_size f"
    using check_relative_path_safe by auto
qed

lemma parse_entries_Inr:
  assumes "parse_entries max_total items seen sofar = Inr files"
  shows "length files = length items" and "\<forall>f \<in> set files. safe_path (split_on (CHR ''/'') (fd_path f)) \<and> 0 \<le> fd_size f"
    and "distinct (map fd_path files)" and "fd_path ` set files \<inter> seen = {}"
    and "files \<noteq> [] \<longrightarrow> sofar + sum_list (map fd_size files) \<le> max_total"
proof -
  have "length files = length items \<and> (\<forall>f \<in> set files. safe_path (split_on (CHR ''/'') (fd_path f)) \<and> 0 \<le> fd_size f)
      \<and> distinct (map fd_path files) \<and> fd_path ` set files \<inter> seen = {}
      \<and> (files \<noteq> [] \<longrightarrow> sofar + sum_list (map fd_size files) \<le> max_total)"
    using assms
  proof (induction max_total items seen sofar arbitrary: files rule: parse_entries.induct)
    case (2 max_total item items seen sofar)
    then obtain f fs where f: "parse_entry item = Inr f" "fd_path f \<notin> seen" "sofar + fd_size f \<le> max_total"
        "parse_entries max_total items (insert (fd_path f) seen) (sofar + fd_size f) = Inr fs" "files = f # fs"
      by (auto split: sum.splits if_splits)
    with 2 have "length fs = length items \<and> (\<forall>f \<in> set fs. safe_path (split_on (CHR ''/'') (fd_path f)) \<and> 0 \<le> fd_size f)
      \<and> distinct (map fd_path fs) \<and> fd_path ` set fs \<inter> insert (fd_path f) seen = {}
      \<and> (fs \<noteq> [] \<longrightarrow> sofar + fd_size f + sum_list (map fd_size fs) \<le> max_total)" by auto
    then show ?case using f(2,3,5) parse_entry_Inr [OF f(1)] by (cases "fs = []") auto
  qed simp
  then show "length files = length items" "\<forall>f \<in> set files. safe_path (split_on (CHR ''/'') (fd_path f)) \<and> 0 \<le> fd_size f"
    "distinct (map fd_path files)" "fd_path ` set files \<inter> seen = {}"
    "files \<noteq> [] \<longrightarrow> sofar + sum_list (map fd_size files) \<le> max_total" by simp_all
qed

lemma parse_manifest_Inr:
  assumes "parse_manifest raw max_files max_total = Inr files"
  shows "files \<noteq> []" and "int (length files) \<le> max_files" and "sum_list (map fd_size files) \<le> max_total"
    and "distinct (map fd_path files)" and "\<forall>f \<in> set files. safe_path (split_on (CHR ''/'') (fd_path f)) \<and> 0 \<le> fd_size f"
proof -
  obtain entries where e: "parse_entries max_total entries {} 0 = Inr files" "entries \<noteq> []" "int (length entries) \<le> max_files"
    using assms by (auto simp: parse_manifest_def split: option.splits json.splits if_splits sum.splits)
  note p = parse_entries_Inr [OF e(1)]
  show "files \<noteq> []" using p(1) e(2) by auto
  then show "sum_list (map fd_size files) \<le> max_total" using p(5) by simp
  show "int (length files) \<le> max_files" using p(1) e(3) by simp
  show "distinct (map fd_path files)" "\<forall>f \<in> set files. safe_path (split_on (CHR ''/'') (fd_path f)) \<and> 0 \<le> fd_size f"
    using p(2,3) by blast+
qed

section \<open>What is built\<close>

text \<open>Trees of files in listable directories.\<close>

fun built :: "fs_node \<Rightarrow> bool" where
  "built (FFile b) = True"
| "built (FDir l es) = (l \<and> (\<forall>(n, nd) \<in> set es. built nd))"
| "built _ = False"

lemma built_clean: "built nd \<Longrightarrow> clean nd"
  by (induction nd rule: clean.induct) auto

lemma update_split:
  "map_of es n = Some x \<Longrightarrow> \<exists>xs ys. es = xs @ (n, x) # ys \<and> AList.update n v es = xs @ (n, v) # ys"
proof (induction es)
  case (Cons e es)
  show ?case
  proof (cases "fst e = n")
    case True
    then show ?thesis using Cons.prems by (intro exI [of _ "[]"] exI [of _ es]) (cases e; simp)
  next
    case False
    then obtain xs ys where "es = xs @ (n, x) # ys" "AList.update n v es = xs @ (n, v) # ys"
      using Cons by (cases e) auto
    then show ?thesis using False by (intro exI [of _ "e # xs"] exI [of _ ys]) (cases e; simp)
  qed
qed simp

lemma update_fresh: "map_of es n = None \<Longrightarrow> AList.update n v es = es @ [(n, v)]"
  by (induction es) (auto split: if_splits)

definition tree_ok :: "(string \<times> fs_node) list \<Rightarrow> bool" where
  "tree_ok es \<longleftrightarrow> built (FDir True es) \<and> wf_tree (FDir True es)"

lemma place_contents:
  assumes "tree_ok es" and "p \<noteq> []" and "\<forall>n \<in> set p. valid_name n" and "\<not> blocked p es" and "entry_at p es = None"
  shows "tree_ok (place p b es)
    \<and> mset (contents q (FDir True (place p b es))) = add_mset (q @ p, b) (mset (contents q (FDir True es)))"
  using assms
proof (induction p b es arbitrary: q rule: place.induct)
  case (2 n b es)
  then show ?case by (auto simp: update_fresh tree_ok_def map_of_eq_None_iff)
next
  case (3 n m p b es)
  have v: "valid_name n" "\<forall>k \<in> set (m # p). valid_name k" using "3.prems" by simp_all
  show ?case
  proof (cases "map_of es n")
    case None
    have "tree_ok (place (m # p) b []) \<and> mset (contents (q @ [n]) (FDir True (place (m # p) b []))) = {#(q @ n # m # p, b)#}"
      using "3.IH"(1) [OF None, of "q @ [n]"] v
      by (cases p) (simp_all add: tree_ok_def)
    moreover have "place (n # m # p) b es = es @ [(n, FDir True (place (m # p) b []))]" using None by (simp add: update_fresh)
    moreover have "n \<notin> fst ` set es" using None by (simp add: map_of_eq_None_iff)
    ultimately show ?thesis using "3.prems"(1) v(1) by (auto simp: tree_ok_def)
  next
    case (Some x)
    obtain l sub where x: "x = FDir l sub" "\<not> blocked (m # p) sub" "entry_at (m # p) sub = None"
      using Some "3.prems"(4,5) by (auto split: fs_node.splits)
    obtain xs ys where u: "es = xs @ (n, FDir l sub) # ys"
        "AList.update n (FDir l (place (m # p) b sub)) es = xs @ (n, FDir l (place (m # p) b sub)) # ys"
      using update_split [OF Some [unfolded x(1)]] by blast
    have l: l "tree_ok sub" using "3.prems"(1) u(1) by (auto simp: tree_ok_def)
    have "tree_ok (place (m # p) b sub)
        \<and> mset (contents (q @ [n]) (FDir True (place (m # p) b sub))) = add_mset (q @ n # m # p, b) (mset (contents (q @ [n]) (FDir True sub)))"
      using "3.IH"(2) [OF Some x(1) l(2), of "q @ [n]"] v x by simp
    moreover have "place (n # m # p) b es = xs @ (n, FDir l (place (m # p) b sub)) # ys" using Some x(1) u(2) by simp
    ultimately show ?thesis using "3.prems"(1) l(1) unfolding u(1) by (auto simp: tree_ok_def)
  qed
qed simp

lemma posix_split [simp]: "as_posix (split_on (CHR ''/'') path) = path"
  by (simp add: as_posix_def)

lemma partition_digest:
  assumes "py_partition (CHR '':'') s = (alg, m, e)" and "is_sha256_hex e"
  shows "s = alg @ '':'' @ e"
proof (cases "dropWhile (\<lambda>c. c \<noteq> CHR '':'') s")
  case Nil
  then show ?thesis using assms by (simp add: py_partition_def is_sha256_hex_def)
next
  case (Cons c t)
  then have "c = CHR '':''" using hd_dropWhile [of "\<lambda>c. c \<noteq> CHR '':''" s] by simp
  then show ?thesis
    using assms Cons takeWhile_dropWhile_id [of "\<lambda>c. c \<noteq> CHR '':''" s] by (auto simp: py_partition_def Let_def)
qed

lemma sum_list_map_mset: "mset xs = mset ys \<Longrightarrow> sum_list (map f xs) = (sum_list (map f ys) :: int)"
  by (metis mset_map sum_mset_sum_list)

section \<open>Downloading from any store\<close>

context blob_store begin

lemma fetch_files_contents:
  assumes "fetch_files ops files s es = (Inr es', s')" and "tree_ok es"
    and "\<forall>f \<in> set files. safe_path (split_on (CHR ''/'') (fd_path f))"
  shows "\<exists>cs. map (file_record H) cs = files \<and> tree_ok es'
    \<and> mset (contents [] (FDir True es')) = mset (contents [] (FDir True es)) + mset cs"
  using assms
proof (induction files arbitrary: s es)
  case (Cons f files)
  let ?p = "split_on (CHR ''/'') (fd_path f)"
  obtain b s1 where b: "\<not> blocked ?p es" "bo_get_to ops s (fd_sha256 f) (entry_at ?p es \<noteq> None) (fd_size f) = (Inr b, s1)"
      "int (length b) = fd_size f" "fetch_files ops files s1 (place ?p b es) = (Inr es', s')"
    using Cons.prems(1) by (auto simp: Let_def split: if_splits prod.splits sum.splits)
  have g: "H b = fd_sha256 f" "entry_at ?p es = None" using get_verified [OF b(2)] by auto
  have p: "tree_ok (place ?p b es)"
      "mset (contents [] (FDir True (place ?p b es))) = add_mset (?p, b) (mset (contents [] (FDir True es)))"
    using place_contents [OF Cons.prems(2) _ _ b(1) g(2), of b "[]"] Cons.prems(3) by (auto simp: safe_path_def)
  obtain cs where cs: "map (file_record H) cs = files" "tree_ok es'"
      "mset (contents [] (FDir True es')) = mset (contents [] (FDir True (place ?p b es))) + mset cs"
    using Cons.IH [OF b(4) p(1)] Cons.prems(3) by auto
  have "file_record H (?p, b) = f" using g(1) b(3) by (simp add: file_record_def)
  then show ?case using cs p(2) by (intro exI [of _ "(?p, b) # cs"]) simp
qed (simp add: tree_ok_def)

lemma fetch_manifest_Inr:
  assumes "fetch_manifest H ops s sha max_files max_total = (Inr files, s')"
  shows "H (canonical_manifest_bytes files) = sha" and "\<exists>raw. parse_manifest raw max_files max_total = Inr files"
  using assms
  by (auto simp: fetch_manifest_def artifact_digest_from_files_def split: prod.splits sum.splits if_splits)

lemma download_directory:
  assumes "fetch_manifest H ops s sha max_files max_total = (Inr files, s1)" and "fetch_files ops files s1 [] = (Inr es, s2)"
  shows "\<exists>d. hash_artifact H dest (Some (FDir True es)) = Inr d \<and> ad_digest d = sha \<and> ad_type d = ''directory''
      \<and> ad_files d = sort_key fd_path files"
    and "int (length (contents [] (FDir True es))) \<le> max_files"
    and "(\<Sum>(p, b) \<leftarrow> contents [] (FDir True es). int (length b)) \<le> max_total"
proof -
  obtain raw where raw: "parse_manifest raw max_files max_total = Inr files" using fetch_manifest_Inr(2) [OF assms(1)] by blast
  note m = parse_manifest_Inr [OF raw]
  obtain cs where cs: "map (file_record H) cs = files" "tree_ok es" "mset (contents [] (FDir True es)) = mset cs"
    using fetch_files_contents [OF assms(2)] m(5) by (auto simp: tree_ok_def)
  let ?c = "contents [] (FDir True es)"
  have wf: "wf_tree (FDir True es)" "clean (FDir True es)" using cs(2) built_clean unfolding tree_ok_def by blast+
  have "mset (map (file_record H) ?c) = mset files" using cs(1,3) by (metis mset_map)
  then have srt: "sort_key fd_path (map (file_record H) ?c) = sort_key fd_path files"
    using sort_key_mset_eq [OF _ distinct_fd_path [OF wf(1)]] by metis
  have ne: "?c \<noteq> []" using m(1) cs(1,3) by (metis list.simps(8) mset_zero_iff)
  have "hash_artifact H dest (Some (FDir True es)) = Inr (digest_of_contents H ?c)"
    using hash_directory_clean [OF wf, of H dest] ne
    by (simp add: hash_artifact_def path_exists_def path_is_symlink_def path_is_dir_def Let_def)
  moreover have "canonical_manifest_bytes (map (file_record H) ?c) = canonical_manifest_bytes files"
    using srt by (simp add: canonical_manifest_bytes_def manifest_json_def)
  ultimately show "\<exists>d. hash_artifact H dest (Some (FDir True es)) = Inr d \<and> ad_digest d = sha \<and> ad_type d = ''directory''
      \<and> ad_files d = sort_key fd_path files"
    using fetch_manifest_Inr(1) [OF assms(1)] srt by (simp add: digest_of_contents_def)
  have "length ?c = length files" using cs(1,3) by (metis length_map size_mset)
  then show "int (length ?c) \<le> max_files" using m(2) by simp
  have "(\<Sum>(p, b) \<leftarrow> ?c. int (length b)) = (\<Sum>(p, b) \<leftarrow> cs. int (length b))"
    by (rule sum_list_map_mset [OF cs(3)])
  moreover have "sum_list (map fd_size (map (file_record H) ds)) = (\<Sum>(p, b) \<leftarrow> ds. int (length b))" for ds
    by (induction ds) (auto simp: file_record_def)
  ultimately have "(\<Sum>(p, b) \<leftarrow> ?c. int (length b)) = sum_list (map fd_size files)" using cs(1) by metis
  then show "(\<Sum>(p, b) \<leftarrow> ?c. int (length b)) \<le> max_total" using m(3) by argo
qed

lemma download_Inr:
  assumes "download_artifact H ops s artifact_digest artifact_type dest at_dest max_total max_files verify_after = (Inr nd, s')"
  shows "\<exists>d. hash_artifact H dest (Some nd) = Inr d \<and> ''sha256:'' @ ad_digest d = artifact_digest \<and> ad_type d = artifact_type"
    and "(\<Sum>(p, b) \<leftarrow> contents [] nd. int (length b)) \<le> max 0 max_total"
    and "artifact_type = ''directory'' \<Longrightarrow> int (length (contents [] nd)) \<le> max_files"
proof -
  obtain alg m e where p: "py_partition (CHR '':'') artifact_digest = (alg, m, e)" by (cases "py_partition (CHR '':'') artifact_digest")
  have c: "alg = ''sha256''" "is_sha256_hex e" "artifact_type \<in> {''file'', ''directory''}"
    using assms p by (auto simp: download_artifact_def validate_sha256_def split: if_splits)
  have ad: "artifact_digest = ''sha256:'' @ e" using partition_digest [OF p] c(1,2) by simp
  show "\<exists>d. hash_artifact H dest (Some nd) = Inr d \<and> ''sha256:'' @ ad_digest d = artifact_digest \<and> ad_type d = artifact_type"
    "(\<Sum>(p, b) \<leftarrow> contents [] nd. int (length b)) \<le> max 0 max_total"
    "artifact_type = ''directory'' \<Longrightarrow> int (length (contents [] nd)) \<le> max_files"
  proof (atomize (full), cases "artifact_type = ''file''")
    case True
    then obtain b where b: "bo_get_to ops s e False max_total = (Inr b, s')" "nd = FFile b"
      using assms p c by (auto simp: download_artifact_def validate_sha256_def map_sum_Inr_iff split: prod.split_asm if_split_asm)
    then show "(\<exists>d. hash_artifact H dest (Some nd) = Inr d \<and> ''sha256:'' @ ad_digest d = artifact_digest \<and> ad_type d = artifact_type)
      \<and> (\<Sum>(p, b) \<leftarrow> contents [] nd. int (length b)) \<le> max 0 max_total
      \<and> (artifact_type = ''directory'' \<longrightarrow> int (length (contents [] nd)) \<le> max_files)"
      using True get_verified [OF b(1)]
      by (simp add: ad hash_artifact_def path_exists_def path_is_symlink_def path_is_dir_def hash_file_def artifact_digest_from_files_def)
  next
    case False
    then obtain files s1 es where f: "fetch_manifest H ops s e max_files max_total = (Inr files, s1)"
        "fetch_files ops files s1 [] = (Inr es, s')" "nd = FDir True es"
      using assms p c by (auto simp: download_artifact_def validate_sha256_def Let_def split: prod.splits sum.splits if_splits)
    show "(\<exists>d. hash_artifact H dest (Some nd) = Inr d \<and> ''sha256:'' @ ad_digest d = artifact_digest \<and> ad_type d = artifact_type)
      \<and> (\<Sum>(p, b) \<leftarrow> contents [] nd. int (length b)) \<le> max 0 max_total
      \<and> (artifact_type = ''directory'' \<longrightarrow> int (length (contents [] nd)) \<le> max_files)"
      using download_directory [OF f(1,2)] False c(3) unfolding f(3) ad by fastforce
  qed
qed

end

end
