(* ===== verification/S3.thy ===== *)
theory S3
  imports Blob_Transfer
begin

text \<open>
  \<open>storage/s3.py\<close>: blobs in an S3-compatible bucket.  The boto3 client is a parameter: a record of the
  calls the source makes, each a function of the client's own state with any answer whatsoever; a
  successful upload says how many bytes it read.  \<open>urlparse\<close> is an argument of the endpoint check.
\<close>

text \<open>What botocore raises: a \<open>ClientError\<close> with the response's code, if any, or another of its errors.\<close>

datatype boto_error = ClientError "string option" | BotoCoreError

record 'c s3_client =
  cl_head_bucket :: "'c \<Rightarrow> string \<Rightarrow> (boto_error + unit) \<times> 'c"
  cl_head_object :: "'c \<Rightarrow> string \<Rightarrow> string \<Rightarrow> (boto_error + int option) \<times> 'c"
  cl_get_object :: "'c \<Rightarrow> string \<Rightarrow> string \<Rightarrow> (boto_error + (boto_error + bytes) list) \<times> 'c"
  cl_upload_fileobj :: "'c \<Rightarrow> bytes \<Rightarrow> string \<Rightarrow> string \<Rightarrow> (boto_error + nat) \<times> 'c"
  cl_delete_object :: "'c \<Rightarrow> string \<Rightarrow> string \<Rightarrow> (boto_error + unit) \<times> 'c"

record 'c s3_store =
  s3_bucket :: string
  s3_prefix :: string
  s3_confirmed :: bool
  s3_client :: 'c

section \<open>Configuration\<close>

definition s3_local_hosts :: "string list" where
  "s3_local_hosts = [''localhost'', ''127.0.0.1'', ''::1'']"

definition not_found_codes :: "string list" where
  "not_found_codes = [''404'', ''NoSuchKey'', ''NotFound'']"

definition check_prefix :: "string \<Rightarrow> exn + string" where
  "check_prefix p =
     (if p = [] then Inr []
      else if prefix ''/'' p \<or> list_ex (\<lambda>s. s \<in> {''.'', ''..''}) (split_on (CHR ''/'') p)
           \<or> list_ex (\<lambda>c. ord c < 32) p \<or> CHR 0x5C \<in> set p
      then Inl StoreConfigurationError
      else Inr (if suffix ''/'' p then p else p @ ''/''))"

record parsed_url =
  pu_scheme :: string
  pu_hostname :: "string option"
  pu_username :: "string option"
  pu_password :: "string option"

definition check_endpoint :: "(string \<Rightarrow> parsed_url) \<Rightarrow> string \<Rightarrow> bool \<Rightarrow> exn + unit" where
  "check_endpoint urlparse endpoint_url allow_insecure_transport =
     (let parsed = urlparse endpoint_url
      in if pu_scheme parsed \<notin> {''http'', ''https''} \<or> \<not> truthy (pu_hostname parsed) then Inl StoreConfigurationError
         else if truthy (pu_username parsed) \<or> truthy (pu_password parsed) then Inl StoreConfigurationError
         else if pu_scheme parsed \<noteq> ''https'' \<and> the (pu_hostname parsed) \<notin> set s3_local_hosts \<and> \<not> allow_insecure_transport
           then Inl StoreConfigurationError
         else Inr ())"

text \<open>The constructor: \<open>client\<close> is an injected client, \<open>connect\<close> builds one.\<close>

definition make_s3_store ::
    "(string \<Rightarrow> parsed_url) \<Rightarrow> (string option \<Rightarrow> 'c) \<Rightarrow> string \<Rightarrow> string \<Rightarrow> 'c option \<Rightarrow> string option \<Rightarrow> bool \<Rightarrow> exn + 'c s3_store" where
  "make_s3_store urlparse connect bucket p client endpoint_url allow_insecure_transport =
     (if bucket = [] then Inl StoreConfigurationError
      else case check_prefix p of Inl e \<Rightarrow> Inl e | Inr pre \<Rightarrow>
        (case client of
           Some c \<Rightarrow> Inr \<lparr>s3_bucket = bucket, s3_prefix = pre, s3_confirmed = False, s3_client = c\<rparr>
         | None \<Rightarrow>
             (case (case endpoint_url of None \<Rightarrow> Inr () | Some u \<Rightarrow> check_endpoint urlparse u allow_insecure_transport) of
                Inl e \<Rightarrow> Inl e
              | Inr _ \<Rightarrow> Inr \<lparr>s3_bucket = bucket, s3_prefix = pre, s3_confirmed = False, s3_client = connect endpoint_url\<rparr>)))"

section \<open>Operations\<close>

text \<open>The class of the translated error; its message has the category and the code only.\<close>

definition s3_translate :: "boto_error \<Rightarrow> exn" where
  "s3_translate e =
     (case e of
        ClientError code \<Rightarrow>
          if (case code of None \<Rightarrow> ''unknown'' | Some c \<Rightarrow> c) \<in> set not_found_codes then BlobNotFoundError else ArtifactStoreError
      | BotoCoreError \<Rightarrow> ArtifactStoreError)"

definition s3_key :: "'c s3_store \<Rightarrow> string \<Rightarrow> exn + string" where
  "s3_key s sha =
     (case validate_sha256 sha of
        Inl e \<Rightarrow> Inl e
      | Inr _ \<Rightarrow> Inr (s3_prefix s @ ''blobs/sha256/'' @ take 2 sha @ ''/'' @ sha))"

definition confirm_bucket :: "'c s3_client \<Rightarrow> 'c s3_store \<Rightarrow> (exn + unit) \<times> 'c s3_store" where
  "confirm_bucket cl s =
     (if s3_confirmed s then (Inr (), s)
      else
        (case cl_head_bucket cl (s3_client s) (s3_bucket s) of
           (r, c) \<Rightarrow>
             let s1 = s\<lparr>s3_client := c\<rparr>
             in case r of
                  Inr _ \<Rightarrow> (Inr (), s1\<lparr>s3_confirmed := True\<rparr>)
                | Inl (ClientError code) \<Rightarrow>
                    if (case code of None \<Rightarrow> '''' | Some k \<Rightarrow> k) \<in> {''404'', ''NoSuchBucket'', ''NotFound''}
                    then (Inl ArtifactStoreError, s1) else (Inr (), s1\<lparr>s3_confirmed := True\<rparr>)
                | Inl BotoCoreError \<Rightarrow> (Inl (s3_translate BotoCoreError), s1)))"

text \<open>A translated error is raised; "not found" only once the bucket is known to be there.\<close>

definition s3_fail :: "'c s3_client \<Rightarrow> 'c s3_store \<Rightarrow> exn \<Rightarrow> (exn + 'a) \<times> 'c s3_store" where
  "s3_fail cl s translated =
     (if translated = BlobNotFoundError then
        (case confirm_bucket cl s of (Inl e, s1) \<Rightarrow> (Inl e, s1) | (Inr _, s1) \<Rightarrow> (Inl translated, s1))
      else (Inl translated, s))"

definition s3_exists :: "'c s3_client \<Rightarrow> 'c s3_store \<Rightarrow> string \<Rightarrow> (exn + bool) \<times> 'c s3_store" where
  "s3_exists cl s sha =
     (case s3_key s sha of
        Inl e \<Rightarrow> (Inl e, s)
      | Inr key \<Rightarrow>
          (case cl_head_object cl (s3_client s) (s3_bucket s) key of
             (Inr _, c) \<Rightarrow> (Inr True, s\<lparr>s3_client := c\<rparr>)
           | (Inl e, c) \<Rightarrow>
               (let s1 = s\<lparr>s3_client := c\<rparr>
                in if s3_translate e = BlobNotFoundError
                   then (case confirm_bucket cl s1 of (Inl e', s2) \<Rightarrow> (Inl e', s2) | (Inr _, s2) \<Rightarrow> (Inr False, s2))
                   else (Inl (s3_translate e), s1))))"

definition s3_put :: "(bytes \<Rightarrow> string) \<Rightarrow> 'c s3_client \<Rightarrow> 'c s3_store \<Rightarrow> string \<Rightarrow> fs_node option \<Rightarrow> (exn + unit) \<times> 'c s3_store" where
  "s3_put H cl s sha source =
     (case s3_key s sha of Inl e \<Rightarrow> (Inl e, s) | Inr key \<Rightarrow>
     (case open_regular_nofollow source of Inl e \<Rightarrow> (Inl e, s) | Inr raw \<Rightarrow>
     (case cl_upload_fileobj cl (s3_client s) raw (s3_bucket s) key of
        (Inl e, c) \<Rightarrow> (Inl (s3_translate e), s\<lparr>s3_client := c\<rparr>)
      | (Inr n, c) \<Rightarrow>
          if H (take n raw) \<noteq> sha
          then (case cl_delete_object cl c (s3_bucket s) key of (_, c') \<Rightarrow> (Inl ArtifactIntegrityError, s\<lparr>s3_client := c'\<rparr>))
          else (Inr (), s\<lparr>s3_client := c\<rparr>))))"

definition s3_get_to ::
    "(bytes \<Rightarrow> string) \<Rightarrow> 'c s3_client \<Rightarrow> 'c s3_store \<Rightarrow> string \<Rightarrow> bool \<Rightarrow> int \<Rightarrow> (exn + bytes) \<times> 'c s3_store" where
  "s3_get_to H cl s sha taken max_bytes =
     (case s3_key s sha of
        Inl e \<Rightarrow> (Inl e, s)
      | Inr key \<Rightarrow>
          (case cl_head_object cl (s3_client s) (s3_bucket s) key of
             (Inl e, c) \<Rightarrow> s3_fail cl (s\<lparr>s3_client := c\<rparr>) (s3_translate e)
           | (Inr content_length, c) \<Rightarrow>
               if (case content_length of None \<Rightarrow> 0 | Some n \<Rightarrow> n) > max_bytes then (Inl ArtifactIntegrityError, s\<lparr>s3_client := c\<rparr>)
               else
                 (case cl_get_object cl c (s3_bucket s) key of
                    (Inl e, c') \<Rightarrow> s3_fail cl (s\<lparr>s3_client := c'\<rparr>) (s3_translate e)
                  | (Inr body, c') \<Rightarrow>
                      (case verified_bytes H sha max_bytes taken (map (map_sum s3_translate id) body) of
                         Inl e \<Rightarrow> s3_fail cl (s\<lparr>s3_client := c'\<rparr>) e
                       | Inr b \<Rightarrow> (Inr b, s\<lparr>s3_client := c'\<rparr>)))))"

definition s3_blobs :: "(bytes \<Rightarrow> string) \<Rightarrow> 'c s3_client \<Rightarrow> 'c s3_store blob_ops" where
  "s3_blobs H cl = \<lparr>bo_exists = s3_exists cl, bo_put = s3_put H cl, bo_get_to = s3_get_to H cl\<rparr>"

section \<open>The store is not trusted\<close>

lemma s3_fail_not_Inr [simp]: "s3_fail cl s translated \<noteq> (Inr b, s')"
  by (auto simp: s3_fail_def split: prod.splits sum.splits if_splits)

interpretation s3: blob_store H "s3_blobs H cl" for H and cl :: "'c s3_client"
  by unfold_locales
    (auto simp: s3_blobs_def s3_get_to_def s3_key_def validate_sha256_def dest: verified_Inr
      split: sum.splits prod.splits if_splits)

text \<open>
  Whatever the bucket answers, what a download leaves is the artifact asked for: hashing it gives the
  requested digest and type, even without the final check of \<open>verify_after\<close>.
\<close>

theorem untrusted_download_exact:
  assumes "download_artifact H (s3_blobs H cl) s artifact_digest artifact_type dest at_dest max_total max_files verify_after = (Inr nd, s')"
  shows "\<exists>d. hash_artifact H dest (Some nd) = Inr d \<and> ''sha256:'' @ ad_digest d = artifact_digest \<and> ad_type d = artifact_type"
  by (rule s3.download_Inr [OF assms])

text \<open>
  C26. A download keeps its limits whatever the bucket sends: the bytes of all files together, and the number
  of files of a directory.
\<close>

theorem untrusted_download_bounded:
  assumes "download_artifact H (s3_blobs H cl) s artifact_digest artifact_type dest at_dest max_total max_files verify_after = (Inr nd, s')"
  shows "(\<Sum>(p, b) \<leftarrow> contents [] nd. int (length b)) \<le> max 0 max_total
    \<and> (artifact_type = ''directory'' \<longrightarrow> int (length (contents [] nd)) \<le> max_files)"
  using s3.download_Inr(2,3) [OF assms] by blast


section \<open>Examples\<close>

text \<open>A bucket that answers every request with the same object, and one that has nothing.\<close>

definition toy_sha :: string where
  "toy_sha = replicate 64 (CHR ''a'')"

definition constant_client :: "unit s3_client" where
  "constant_client = \<lparr>cl_head_bucket = \<lambda>_ _. (Inr (), ()), cl_head_object = \<lambda>_ _ _. (Inr (Some 2), ()),
     cl_get_object = \<lambda>_ _ _. (Inr [Inr ''a'', Inr ''b''], ()), cl_upload_fileobj = \<lambda>_ b _ _. (Inr (length b), ()),
     cl_delete_object = \<lambda>_ _ _. (Inr (), ())\<rparr>"

definition empty_client :: "unit s3_client" where
  "empty_client = constant_client\<lparr>cl_head_object := \<lambda>_ _ _. (Inl (ClientError (Some ''404'')), ())\<rparr>"

definition toy_bucket :: "unit s3_store" where
  "toy_bucket = \<lparr>s3_bucket = ''b'', s3_prefix = [], s3_confirmed = False, s3_client = ()\<rparr>"

lemma toy_download:
  "download_artifact (\<lambda>_. toy_sha) (s3_blobs (\<lambda>_. toy_sha) constant_client) toy_bucket (''sha256:'' @ toy_sha) ''file'' [''d''] None 5 1 True
     = (Inr (FFile ''ab''), toy_bucket)"
proof -
  have p: "py_partition (CHR '':'') (''sha256:'' @ toy_sha) = (''sha256'', '':'', toy_sha)"
    by (simp add: py_partition_def Let_def)
  have "is_sha256_hex toy_sha" by (simp add: toy_sha_def is_sha256_hex_def list_all_iff is_lower_hex_def is_digit_def)
  then show ?thesis
    by (simp add: download_artifact_def p [unfolded append.simps] validate_sha256_def path_exists_def path_is_symlink_def s3_blobs_def s3_get_to_def
        s3_key_def constant_client_def toy_bucket_def verified_bytes_def)
qed

theorem untrusted_download_exact_witness:
  "\<exists>d. hash_artifact (\<lambda>_. toy_sha) [''d''] (Some (FFile ''ab'')) = Inr d \<and> ''sha256:'' @ ad_digest d = ''sha256:'' @ toy_sha
     \<and> ad_type d = ''file''"
  by (rule untrusted_download_exact [OF toy_download])

theorem untrusted_download_bounded_witness:
  "(\<Sum>(p, b) \<leftarrow> contents [] (FFile ''ab''). int (length b)) \<le> max 0 5"
  using untrusted_download_bounded [OF toy_download] by blast


end
