(* ===== verification/Round_Trip.thy ===== *)
theory Round_Trip
  imports Blob_Transfer
begin

text \<open>
  Uploading an artifact to the local store and downloading it again: with a store whose blobs are what
  their names say, both succeed and give the files back.  The two halves meet in the canonical manifest:
  what the hasher lists is what the parser accepts, and the paths it lists can be built one by one.
\<close>

section \<open>The store after an upload\<close>

text \<open>Every blob is a regular file, its bytes are among \<open>B\<close> and hash to its name.\<close>

definition honest_store :: "(bytes \<Rightarrow> string) \<Rightarrow> bytes set \<Rightarrow> local_store \<Rightarrow> bool" where
  "honest_store H B s \<longleftrightarrow> (\<forall>k nd. map_of s k = Some nd \<longrightarrow> (\<exists>b \<in> B. nd = FFile b \<and> H b = k))"

definition grows :: "local_store \<Rightarrow> local_store \<Rightarrow> bool" where
  "grows s s' \<longleftrightarrow> (\<forall>k. map_of s k \<noteq> None \<longrightarrow> map_of s' k \<noteq> None)"

lemma put_if_absent_local:
  assumes "honest_store H B s" and "b \<in> B" and "is_sha256_hex (H b)"
  obtains s' where "put_if_absent (local_blobs H) s (H b) (Some (FFile b)) = (Inr (), s')"
    and "honest_store H B s'" and "map_of s' (H b) \<noteq> None" and "grows s s'"
proof (cases "map_of s (H b)")
  case None
  then have p: "put_if_absent (local_blobs H) s (H b) (Some (FFile b)) = (Inr (), AList.update (H b) (FFile b) s)"
    using assms(3)
    by (simp add: put_if_absent_def local_blobs_def local_exists_def validate_sha256_def path_is_file_def local_put_def
        open_regular_nofollow_def concat_chunks_of chunk_size_def)
  show thesis
    by (rule that [OF p]) (use assms(1,2) in \<open>auto simp: honest_store_def grows_def update_conv' split: if_splits\<close>)
next
  case (Some nd)
  then obtain c where "nd = FFile c" using assms(1) by (auto simp: honest_store_def)
  then have "put_if_absent (local_blobs H) s (H b) (Some (FFile b)) = (Inr (), s)"
    using Some assms(3)
    by (simp add: put_if_absent_def local_blobs_def local_exists_def validate_sha256_def path_is_file_def path_is_symlink_def)
  then show thesis using that Some assms(1) by (simp add: grows_def)
qed

lemma grows_trans: "grows s s' \<Longrightarrow> grows s' s'' \<Longrightarrow> grows s s''"
  by (simp add: grows_def)

lemma upload_files_local:
  assumes "honest_store H B s" and "\<And>b. is_sha256_hex (H b)"
    and "\<forall>(p, b) \<in> set cs. b \<in> B \<and> p \<noteq> [] \<and> (\<forall>n \<in> set p. valid_name n) \<and> node_at p later = Some (FFile b)"
  shows "\<exists>s'. upload_files (local_blobs H) later (map (file_record H) cs) s = (Inr (), s') \<and> honest_store H B s'
    \<and> grows s s' \<and> (\<forall>(p, b) \<in> set cs. map_of s' (H b) \<noteq> None)"
  using assms(1,3)
proof (induction cs arbitrary: s)
  case Nil
  then show ?case by (auto simp: grows_def)
next
  case (Cons c cs)
  obtain p b where c: "c = (p, b)" by (cases c)
  have p: "split_on (CHR ''/'') (as_posix p) = p"
    using Cons.prems(2) c split_on_join [of p "CHR ''/''"] by (auto simp: as_posix_def valid_name_def)
  obtain s1 where s1: "put_if_absent (local_blobs H) s (H b) (Some (FFile b)) = (Inr (), s1)" "honest_store H B s1"
      "map_of s1 (H b) \<noteq> None" "grows s s1"
    using put_if_absent_local [OF Cons.prems(1) _ assms(2)] Cons.prems(2) c by auto
  obtain s' where s': "upload_files (local_blobs H) later (map (file_record H) cs) s1 = (Inr (), s')" "honest_store H B s'"
      "grows s1 s'" "\<forall>(p, b) \<in> set cs. map_of s' (H b) \<noteq> None"
    using Cons.IH [OF s1(2)] Cons.prems(2) by auto
  have "upload_files (local_blobs H) later (map (file_record H) (c # cs)) s = (Inr (), s')"
    using s1(1) s'(1) Cons.prems(2) c p by (simp add: file_record_def)
  then show ?case using s' s1(3,4) grows_trans [OF s1(4) s'(3)] c unfolding grows_def by auto
qed

lemma local_get_present:
  assumes "honest_store H B s" and "inj_on H B" and "b \<in> B" and "map_of s (H b) \<noteq> None" and "is_sha256_hex (H b)"
    and "int (length b) \<le> max_bytes"
  shows "bo_get_to (local_blobs H) s (H b) False max_bytes = (Inr b, s)"
proof -
  obtain b' where b': "b' \<in> B" "map_of s (H b) = Some (FFile b')" "H b' = H b" using assms(1,4) by (auto simp: honest_store_def)
  then have "b' = b" using assms(2,3) by (auto dest: inj_onD)
  moreover have "snd (receive max_bytes (map Inr (chunks_of chunk_size b)) 0 []) = Inr b"
    using receive_all [of 0 "chunks_of chunk_size b" max_bytes "[]"] assms(6) by (simp add: concat_chunks_of chunk_size_def)
  ultimately show ?thesis
    using b'(2) assms(5) by (simp add: local_blobs_def local_get_to_def validate_sha256_def open_regular_nofollow_def verified_bytes_def)
qed

section \<open>The manifest is accepted\<close>

lemma parse_manifest_entry:
  assumes "check_relative_path (fd_path f) = Inr ()" and "is_sha256_hex (fd_sha256 f)" and "0 \<le> fd_size f"
  shows "parse_entry (manifest_entry f) = Inr f"
  using assms by (simp add: parse_entry_def manifest_entry_def validate_sha256_def insert_commute)

lemma parse_manifest_entries:
  assumes "\<forall>f \<in> set fs. check_relative_path (fd_path f) = Inr () \<and> is_sha256_hex (fd_sha256 f) \<and> 0 \<le> fd_size f"
    and "distinct (map fd_path fs)" and "fd_path ` set fs \<inter> seen = {}" and "sofar + sum_list (map fd_size fs) \<le> max_total"
  shows "parse_entries max_total (map manifest_entry fs) seen sofar = Inr fs"
  using assms
proof (induction fs arbitrary: seen sofar)
  case (Cons f fs)
  have "0 \<le> sum_list (map fd_size fs)" using Cons.prems(1) by (intro sum_list_nonneg) auto
  then have "sofar + fd_size f \<le> max_total" using Cons.prems(4) by simp
  moreover have "parse_entries max_total (map manifest_entry fs) (insert (fd_path f) seen) (sofar + fd_size f) = Inr fs"
    using Cons.prems by (intro Cons.IH) auto
  ultimately show ?case using Cons.prems parse_manifest_entry [of f] by auto
qed simp

lemma parse_canonical_manifest:
  assumes "\<forall>f \<in> set fs. check_relative_path (fd_path f) = Inr () \<and> is_sha256_hex (fd_sha256 f) \<and> 0 \<le> fd_size f"
    and "distinct (map fd_path fs)" and "fs \<noteq> []" and "int (length fs) \<le> max_files"
    and "sum_list (map fd_size fs) \<le> max_total" and "\<not> path_conflict fs"
  shows "parse_manifest (canonical_manifest_bytes fs) max_files max_total = Inr (sort_key fd_path fs)"
proof -
  let ?s = "sort_key fd_path fs"
  have "sum_list (map fd_size ?s) = sum_list (map fd_size fs)" by (rule sum_list_map_mset) simp
  moreover have "distinct (map fd_path ?s)" using assms(2) by (simp add: distinct_map)
  ultimately have e: "parse_entries max_total (map manifest_entry ?s) {} 0 = Inr ?s"
    using assms(1,5) by (intro parse_manifest_entries) auto
  have "list_all (\<lambda>c. ord c < 128) (dumps (manifest_json fs))"
    using printable_dumps [of "manifest_json fs"] by (auto simp: printable_def list_all_iff)
  then have l: "Option.bind (utf8_decode (canonical_manifest_bytes fs)) loads = Some (manifest_json fs)"
    by (simp add: canonical_manifest_bytes_def utf8_decode_ascii loads_dumps)
  have ne: "?s \<noteq> []" using assms(3) by (metis length_0_conv length_sort)
  have "\<not> path_conflict ?s" using assms(6) by (simp add: path_conflict_def list_ex_iff)
  then show ?thesis
    using l e ne assms(4) by (simp add: parse_manifest_def manifest_json_def digest_algorithm_def)
qed

section \<open>The paths can be built\<close>

text \<open>Trees whose directories are listable and not empty, as a run of \<open>place\<close> makes them.\<close>

fun solid :: "fs_node \<Rightarrow> bool" where
  "solid (FFile b) = True"
| "solid (FDir l es) = (l \<and> es \<noteq> [] \<and> (\<forall>(n, nd) \<in> set es. solid nd))"
| "solid _ = False"

definition forest :: "(string \<times> fs_node) list \<Rightarrow> bool" where
  "forest es \<longleftrightarrow> (\<forall>(n, nd) \<in> set es. solid nd)"

lemma forestD: "forest es \<Longrightarrow> map_of es n = Some nd \<Longrightarrow> solid nd"
  by (auto simp: forest_def dest: map_of_SomeD)

lemma solid_contents: "solid nd \<Longrightarrow> \<exists>r b. (pre @ r, b) \<in> set (contents pre nd)"
proof (induction nd arbitrary: pre rule: solid.induct)
  case (2 l es)
  then obtain n nd where e: "(n, nd) \<in> set es" "solid nd" "l" by (cases es) auto
  obtain r b where "((pre @ [n]) @ r, b) \<in> set (contents (pre @ [n]) nd)" using "2.IH" [OF e(1) refl e(2)] by blast
  then show ?case using e by (intro exI [of _ "n # r"] exI [of _ b]) auto
qed (auto intro: exI [of _ "[]"])

lemma set_update_subset: "set (AList.update n v es) \<subseteq> insert (n, v) (set es)"
  by (induction es) auto

lemma update_not_Nil [simp]: "AList.update n v es \<noteq> []"
  by (cases es) auto

lemma place_forest: "forest es \<Longrightarrow> p \<noteq> [] \<Longrightarrow> \<not> blocked p es \<Longrightarrow> forest (place p b es) \<and> place p b es \<noteq> []"
proof (induction p b es rule: place.induct)
  case (2 n b es)
  then show ?case using set_update_subset [of n "FFile b" es] by (auto simp: forest_def)
next
  case (3 n m p b es)
  show ?case
  proof (cases "map_of es n")
    case None
    have "forest (place (m # p) b []) \<and> place (m # p) b [] \<noteq> []"
      using "3.IH"(1) [OF None] by (cases p) (simp_all add: forest_def)
    then show ?thesis
      using None "3.prems"(1) set_update_subset [of n "FDir True (place (m # p) b [])" es] by (fastforce simp: forest_def)
  next
    case (Some x)
    obtain l sub where x: "x = FDir l sub" "\<not> blocked (m # p) sub" using Some "3.prems"(3) by (auto split: fs_node.splits)
    have "solid (FDir l sub)" using forestD [OF "3.prems"(1) Some] x(1) by simp
    then have l: l "forest sub" by (simp_all add: forest_def)
    have "forest (place (m # p) b sub) \<and> place (m # p) b sub \<noteq> []" using "3.IH"(2) [OF Some x(1) l(2)] x(2) by simp
    then have "forest (AList.update n (FDir l (place (m # p) b sub)) es)"
      using "3.prems"(1) l(1) set_update_subset [of n "FDir l (place (m # p) b sub)" es] by (fastforce simp: forest_def)
    then show ?thesis using Some x(1) by simp
  qed
qed simp

text \<open>A path is blocked only by a file at a proper prefix, and taken only by files at or below it.\<close>

lemma blocked_by_file:
  assumes "forest es" and "blocked p es"
  shows "\<exists>q r b. p = q @ r \<and> q \<noteq> [] \<and> r \<noteq> [] \<and> (pre @ q, b) \<in> set (contents pre (FDir True es))"
  using assms
proof (induction p es arbitrary: pre rule: blocked.induct)
  case (1 n m p es)
  then obtain x where x: "map_of es n = Some x" by (auto split: option.splits)
  have sol: "solid x" using forestD [OF "1.prems"(1) x] .
  have e: "(n, x) \<in> set es" using map_of_SomeD [OF x] .
  show ?case
  proof (cases x)
    case (FFile b)
    have "(pre @ [n], b) \<in> set (contents pre (FDir True es))" using e FFile by force
    then show ?thesis by (intro exI [of _ "[n]"] exI [of _ "m # p"] exI [of _ b]) simp
  next
    case (FDir l sub)
    then have sub: "l" "forest sub" "blocked (m # p) sub" using sol "1.prems"(2) x by (simp_all add: forest_def)
    obtain q r b where q: "m # p = q @ r" "q \<noteq> []" "r \<noteq> []" "((pre @ [n]) @ q, b) \<in> set (contents (pre @ [n]) (FDir True sub))"
      using "1.IH" [OF x FDir sub(2,3), of "pre @ [n]"] by blast
    then have "(pre @ n # q, b) \<in> set (contents pre (FDir True es))" using e FDir sub(1) by force
    then show ?thesis using q by (intro exI [of _ "n # q"] exI [of _ r] exI [of _ b]) simp
  qed (use sol in auto)
qed auto

lemma taken_by_file:
  assumes "forest es" and "entry_at p es = Some nd"
  shows "\<exists>r b. (pre @ p @ r, b) \<in> set (contents pre (FDir True es))"
  using assms
proof (induction p es arbitrary: pre rule: entry_at.induct)
  case (2 n es)
  have e: "(n, nd) \<in> set es" "solid nd" using map_of_SomeD [of es n nd] forestD [of es n nd] 2 by auto
  obtain r b where "((pre @ [n]) @ r, b) \<in> set (contents (pre @ [n]) nd)" using solid_contents [OF e(2)] by blast
  then have "(pre @ [n] @ r, b) \<in> set (contents pre (FDir True es))" using e(1) by force
  then show ?case by blast
next
  case (3 n m p es)
  then obtain l sub where x: "map_of es n = Some (FDir l sub)" "entry_at (m # p) sub = Some nd"
    by (auto split: option.splits fs_node.splits)
  have sub: "l" "forest sub" using forestD [OF "3.prems"(1) x(1)] by (simp_all add: forest_def)
  obtain r b where "((pre @ [n]) @ (m # p) @ r, b) \<in> set (contents (pre @ [n]) (FDir True sub))"
    using "3.IH" [OF x(1) refl sub(2) x(2), of "pre @ [n]"] by blast
  then have "(pre @ (n # m # p) @ r, b) \<in> set (contents pre (FDir True es))" using map_of_SomeD [OF x(1)] sub(1) by force
  then show ?case by blast
qed simp

text \<open>Paths none of which lies at or below another one.\<close>

definition apart :: "string list \<Rightarrow> string list \<Rightarrow> bool" where
  "apart p q \<longleftrightarrow> \<not> prefix p q \<and> \<not> prefix q p"

lemma free_path:
  assumes "forest es" and "\<forall>(q, b) \<in> set (contents [] (FDir True es)). apart p q"
  shows "\<not> blocked p es" and "entry_at p es = None"
proof -
  show "\<not> blocked p es"
  proof
    assume "blocked p es"
    then obtain q r b where "p = q @ r" "(q, b) \<in> set (contents [] (FDir True es))"
      using blocked_by_file [OF assms(1), of p "[]"] by (metis append_Nil)
    then show False using assms(2) unfolding apart_def by fastforce
  qed
  show "entry_at p es = None"
  proof (rule ccontr)
    assume "entry_at p es \<noteq> None"
    then obtain r b where "(p @ r, b) \<in> set (contents [] (FDir True es))"
      using taken_by_file [OF assms(1), of p _ "[]"] by (metis append_Nil not_None_eq)
    then show False using assms(2) unfolding apart_def by fastforce
  qed
qed

lemma fetch_files_local:
  assumes "honest_store H B s" and "inj_on H B" and "\<And>b. is_sha256_hex (H b)"
    and "\<forall>(p, b) \<in> set cs. b \<in> B \<and> map_of s (H b) \<noteq> None \<and> p \<noteq> [] \<and> (\<forall>n \<in> set p. valid_name n)"
    and "sorted_wrt apart (map fst cs)" and "\<forall>(p, b) \<in> set cs. \<forall>(q, c) \<in> set (contents [] (FDir True es)). apart p q"
    and "tree_ok es" and "forest es"
  shows "\<exists>es'. fetch_files (local_blobs H) (map (file_record H) cs) s es = (Inr es', s)
    \<and> mset (contents [] (FDir True es')) = mset (contents [] (FDir True es)) + mset cs"
  using assms(4-8)
proof (induction cs arbitrary: es)
  case (Cons c cs)
  obtain p b where c: "c = (p, b)" by (cases c)
  have p: "p \<noteq> []" "\<forall>n \<in> set p. valid_name n" "b \<in> B" "map_of s (H b) \<noteq> None" using Cons.prems(1) c by auto
  have split: "split_on (CHR ''/'') (as_posix p) = p"
    using p split_on_join [of p "CHR ''/''"] by (auto simp: as_posix_def valid_name_def)
  have free: "\<not> blocked p es" "entry_at p es = None" using free_path [OF Cons.prems(5), of p] Cons.prems(3) c by auto
  let ?es = "place p b es"
  have pl: "tree_ok ?es" "mset (contents [] (FDir True ?es)) = add_mset (p, b) (mset (contents [] (FDir True es)))"
    using place_contents [OF Cons.prems(4) p(1,2) free, of b "[]"] by auto
  have "set (contents [] (FDir True ?es)) = insert (p, b) (set (contents [] (FDir True es)))"
    using arg_cong [OF pl(2), of set_mset] by simp
  moreover have "\<forall>(q, d) \<in> set cs. apart q p" using Cons.prems(2) c by (auto simp: apart_def)
  ultimately have a: "\<forall>(q, d) \<in> set cs. \<forall>(r, e) \<in> set (contents [] (FDir True ?es)). apart q r"
    using Cons.prems(3) by fastforce
  have fo: "forest ?es" using place_forest [OF Cons.prems(5) p(1) free(1)] by simp
  obtain es' where "fetch_files (local_blobs H) (map (file_record H) cs) s ?es = (Inr es', s)"
      "mset (contents [] (FDir True es')) = mset (contents [] (FDir True ?es)) + mset cs"
    using Cons.IH [OF _ _ a pl(1) fo] Cons.prems(1,2) by auto
  moreover have "fd_path (file_record H c) = as_posix p" "fd_sha256 (file_record H c) = H b"
      "fd_size (file_record H c) = int (length b)"
    by (simp_all add: file_record_def c)
  ultimately show ?case
    using local_get_present [OF assms(1,2) p(3,4) assms(3), of "int (length b)"] free split pl(2) c by (simp add: Let_def)
qed simp

section \<open>Upload, then download\<close>

lemma contents_node_at:
  assumes "(q @ p, b) \<in> set (contents q nd)" and "wf_tree nd"
  shows "node_at p (Some nd) = Some (FFile b)"
  using assms
proof (induction q nd arbitrary: p rule: contents.induct)
  case (2 q es)
  then obtain n nd where e: "(n, nd) \<in> set es" "(q @ p, b) \<in> set (contents (q @ [n]) nd)" by auto
  obtain r where r: "p = n # r" using contents_prefix [OF e(2)] by auto
  have "node_at r (Some nd) = Some (FFile b)" using "2.IH" [OF e(1) refl, of r] e(2) r "2.prems"(2) e(1) by auto
  moreover have "map_of es n = Some nd" using e(1) "2.prems"(2) by simp
  ultimately show ?case by (simp add: r)
qed auto

lemma files_apart:
  assumes "(p, b) \<in> set (contents q nd)" and "(p', c) \<in> set (contents q nd)" and "prefix p p'" and "wf_tree nd"
  shows "p = p'"
  using assms
proof (induction q nd rule: contents.induct)
  case (2 q es)
  obtain n nd where e: "(n, nd) \<in> set es" "(p, b) \<in> set (contents (q @ [n]) nd)" using "2.prems"(1) by auto
  obtain m md where f: "(m, md) \<in> set es" "(p', c) \<in> set (contents (q @ [m]) md)" using "2.prems"(2) by auto
  obtain r r' where "p = (q @ [n]) @ r" "p' = (q @ [m]) @ r'" using contents_prefix [OF e(2)] contents_prefix [OF f(2)] by auto
  then have "n = m" using "2.prems"(3) by (auto simp: prefix_def)
  then have "nd = md" using e(1) f(1) "2.prems"(4) by (metis eq_key_imp_eq_value wf_tree.simps(1))
  then show ?case using "2.IH" [OF e(1) refl] e(2) f(2) \<open>n = m\<close> "2.prems"(3,4) e(1) by auto
qed auto

lemma as_posix_prefix:
  assumes "prefix (as_posix p @ ''/'') (as_posix p')" and "p \<noteq> []" "p' \<noteq> []"
    and "\<forall>n \<in> set p. valid_name n" "\<forall>n \<in> set p'. valid_name n"
  shows "prefix p p' \<and> p \<noteq> p'"
proof -
  obtain t where t: "as_posix p' = as_posix p @ CHR ''/'' # t" using assms(1) by (auto simp: prefix_def)
  have s: "split_on (CHR ''/'') (as_posix w @ CHR ''/'' # t) = w @ split_on (CHR ''/'') t"
    if "w \<noteq> []" "\<forall>n \<in> set w. valid_name n" for w
    using that
  proof (induction w rule: induct_list012)
    case (3 x y w)
    then show ?case
      using split_on_append_sep [of "CHR ''/''" x "as_posix (y # w) @ CHR ''/'' # t"] by (simp add: as_posix_def valid_name_def)
  qed (simp_all add: as_posix_def valid_name_def split_on_append_sep)
  have "split_on (CHR ''/'') (as_posix p') = p'"
    using assms(3,5) split_on_join [of p' "CHR ''/''"] by (simp add: as_posix_def valid_name_def)
  then have "p' = p @ split_on (CHR ''/'') t" using s [OF assms(2,4)] t by simp
  then show ?thesis by (auto simp: prefix_def)
qed

lemma sort_key_map: "sort_key g (map f xs) = map f (sort_key (g \<circ> f) xs)"
proof -
  have "insort_key g (f x) (map f ys) = map f (insort_key (g \<circ> f) x ys)" for x ys by (induction ys) auto
  then show ?thesis by (induction xs) auto
qed

text \<open>A directory's records: they pass the checks of the manifest and can be fetched one after another.\<close>

lemma directory_records:
  assumes "wf_tree (FDir l es)" and "contents [] (FDir l es) = cs"
  shows "\<forall>(p, b) \<in> set cs. p \<noteq> [] \<and> (\<forall>n \<in> set p. valid_name n)"
    and "mset ds = mset cs \<Longrightarrow> sorted_wrt apart (map fst ds)"
    and "\<not> path_conflict (map (file_record H) cs)"
proof -
  show v: "\<forall>(p, b) \<in> set cs. p \<noteq> [] \<and> (\<forall>n \<in> set p. valid_name n)"
    using contents_valid [OF assms(1), of "[]"] contents_prefix_dir [of _ "[]" l es] unfolding assms(2) by fastforce
  have eq: "p = p'" if "(p, b) \<in> set cs" "(p', c) \<in> set cs" "prefix p p'" for p b p' c
    using files_apart [of p b "[]" "FDir l es" p' c] that assms by simp
  show "sorted_wrt apart (map fst ds)" if m: "mset ds = mset cs"
  proof -
    have "distinct (map fst ds)" using contents_distinct [OF assms(1), of "[]"] m unfolding assms(2)
      by (metis mset_map mset_eq_imp_distinct_iff)
    moreover have "set ds = set cs" using m by (rule mset_eq_setD)
    moreover have "sorted_wrt apart (map fst xs)" if "distinct (map fst xs)" "set xs \<subseteq> set cs" for xs
      using that
    proof (induction xs)
      case (Cons x xs)
      have "apart (fst x) (fst y)" if y: "y \<in> set xs" for y
      proof -
        have n: "fst x \<noteq> fst y" using Cons.prems(1) y by force
        have "(fst x, snd x) \<in> set cs" "(fst y, snd y) \<in> set cs" using Cons.prems(2) y by auto
        then show ?thesis using eq n unfolding apart_def by metis
      qed
      then show ?case using Cons by simp
    qed simp
    ultimately show ?thesis by blast
  qed
  show "\<not> path_conflict (map (file_record H) cs)"
  proof
    assume "path_conflict (map (file_record H) cs)"
    then obtain p b p' c where c: "(p, b) \<in> set cs" "(p', c) \<in> set cs" "prefix (as_posix p @ ''/'') (as_posix p')"
      by (force simp: path_conflict_def list_ex_iff file_record_def)
    then have "prefix p p' \<and> p \<noteq> p'" using as_posix_prefix [OF c(3)] v by fast
    then show False using eq [OF c(1,2)] by blast
  qed
qed

text \<open>The digest of a directory and its files, in the order of the manifest.\<close>

lemma directory_digest:
  assumes "hash_artifact H path (Some (FDir l es)) = Inr d" and "wf_tree (FDir l es)"
  obtains ds where "d = digest_of_contents H (contents [] (FDir l es))" and "contents [] (FDir l es) \<noteq> []"
    and "mset ds = mset (contents [] (FDir l es))" and "ad_files d = map (file_record H) ds"
    and "sort_key fd_path (ad_files d) = ad_files d" and "ad_digest d = H (canonical_manifest_bytes (ad_files d))"
    and "ad_type d = ''directory''" and "ad_algorithm d = ''sha256''"
proof
  let ?cs = "contents [] (FDir l es)" and ?ds = "sort_key (fd_path \<circ> file_record H) (contents [] (FDir l es))"
  show d: "d = digest_of_contents H ?cs" "?cs \<noteq> []"
    using assms(1) hash_directory_Inr_iff [OF assms(2), of H path d]
    by (simp_all add: hash_artifact_def path_exists_def path_is_symlink_def path_is_dir_def)
  show "mset ?ds = mset ?cs" by simp
  show "ad_files d = map (file_record H) ?ds" by (simp only: d(1) digest_of_contents_def sort_key_map artifact_digest.simps)
  show "sort_key fd_path (ad_files d) = ad_files d" by (simp add: d(1) digest_of_contents_def sort_key_id_if_sorted)
  have "canonical_manifest_bytes (map (file_record H) ?cs) = canonical_manifest_bytes (ad_files d)"
    by (simp add: d(1) digest_of_contents_def canonical_manifest_bytes_def manifest_json_def sort_key_id_if_sorted)
  then show "ad_digest d = H (canonical_manifest_bytes (ad_files d))" "ad_type d = ''directory''" "ad_algorithm d = ''sha256''"
    by (simp_all add: d(1) digest_of_contents_def)
qed

lemma parse_uploaded_manifest:
  assumes "\<And>b. is_sha256_hex (H b)" and "wf_tree (FDir l es)" and "mset ds = mset (contents [] (FDir l es))"
    and "contents [] (FDir l es) \<noteq> []" and "fs = map (file_record H) ds" and "sort_key fd_path fs = fs"
    and "\<forall>(p, b) \<in> set (contents [] (FDir l es)). check_relative_path (as_posix p) = Inr ()"
    and "int (length (contents [] (FDir l es))) \<le> max_files"
    and "(\<Sum>(p, b) \<leftarrow> contents [] (FDir l es). int (length b)) \<le> max_total"
  shows "parse_manifest (canonical_manifest_bytes fs) max_files max_total = Inr fs"
proof -
  let ?cs = "contents [] (FDir l es)"
  have st: "set ds = set ?cs" using assms(3) by (metis set_mset_mset)
  have "sum_list (map fd_size fs) = (\<Sum>(p, b) \<leftarrow> ?cs. int (length b))"
    unfolding assms(5) using sum_list_map_mset [OF assms(3), of "\<lambda>(p, b). int (length b)"]
    by (simp add: comp_def file_record_def case_prod_unfold)
  moreover have "length fs = length ?cs" using assms(3,5) by (metis length_map size_mset)
  moreover have "fs \<noteq> []" using assms(3-5) by (metis map_is_Nil_conv mset_zero_iff)
  moreover have "distinct (map fd_path fs)"
    using distinct_fd_path [OF assms(2), of H] assms(3,5) by (metis mset_eq_imp_distinct_iff mset_map)
  moreover have "\<not> path_conflict fs"
    using directory_records(3) [OF assms(2) refl] st unfolding assms(5) path_conflict_def by (simp add: list_ex_iff)
  moreover have "\<forall>f \<in> set fs. check_relative_path (fd_path f) = Inr () \<and> is_sha256_hex (fd_sha256 f) \<and> 0 \<le> fd_size f"
    using assms(1,7) st unfolding assms(5) by (force simp: file_record_def)
  ultimately show ?thesis using parse_canonical_manifest [of fs max_files max_total] assms(6,8,9) by simp
qed

text \<open>Uploading a directory to the local store leaves every file and the manifest in it.\<close>

lemma upload_directory_local:
  assumes "\<And>b. is_sha256_hex (H b)" and "honest_store H B s"
    and "hash_artifact H path (Some (FDir l es)) = Inr d" and "wf_tree (FDir l es)" and "mset ds = mset (contents [] (FDir l es))"
    and "ad_files d = map (file_record H) ds" and "ad_digest d = H (canonical_manifest_bytes (ad_files d))" and "ad_type d = ''directory''"
    and "snd ` set (contents [] (FDir l es)) \<subseteq> B" and "canonical_manifest_bytes (ad_files d) \<in> B"
  obtains s2 where "upload_artifact H (local_blobs H) s path (Some (FDir l es)) (Some (FDir l es)) = (Inr d, s2)"
    and "honest_store H B s2" and "map_of s2 (ad_digest d) \<noteq> None"
    and "\<forall>(p, b) \<in> set ds. b \<in> B \<and> map_of s2 (H b) \<noteq> None \<and> p \<noteq> [] \<and> (\<forall>n \<in> set p. valid_name n)"
proof -
  let ?cs = "contents [] (FDir l es)" and ?m = "canonical_manifest_bytes (ad_files d)"
  have st: "set ds = set ?cs" using assms(5) by (metis set_mset_mset)
  have v: "\<forall>(p, b) \<in> set ds. b \<in> B \<and> p \<noteq> [] \<and> (\<forall>n \<in> set p. valid_name n) \<and> node_at p (Some (FDir l es)) = Some (FFile b)"
  proof (intro ballI, clarify)
    fix p b assume "(p, b) \<in> set ds"
    then have c: "(p, b) \<in> set ?cs" using st by simp
    then have "b \<in> B" using assms(9) by (metis image_subset_iff snd_conv)
    moreover have "node_at p (Some (FDir l es)) = Some (FFile b)" using contents_node_at [of "[]" p b] c assms(4) by simp
    ultimately show "b \<in> B \<and> p \<noteq> [] \<and> (\<forall>n \<in> set p. valid_name n) \<and> node_at p (Some (FDir l es)) = Some (FFile b)"
      using directory_records(1) [OF assms(4) refl] c by fast
  qed
  obtain s1 where s1: "upload_files (local_blobs H) (Some (FDir l es)) (ad_files d) s = (Inr (), s1)" "honest_store H B s1"
      "\<forall>(p, b) \<in> set ds. map_of s1 (H b) \<noteq> None"
    using upload_files_local [OF assms(2,1) v] unfolding assms(6) by blast
  obtain s2 where s2: "put_if_absent (local_blobs H) s1 (H ?m) (Some (FFile ?m)) = (Inr (), s2)" "honest_store H B s2"
      "map_of s2 (H ?m) \<noteq> None" "grows s1 s2"
    using put_if_absent_local [OF s1(2) assms(10) assms(1)] by blast
  show thesis
  proof (rule that)
    show "upload_artifact H (local_blobs H) s path (Some (FDir l es)) (Some (FDir l es)) = (Inr d, s2)"
      using s1(1) s2(1) assms(3,7,8) by (simp add: upload_artifact_def)
    show "\<forall>(p, b) \<in> set ds. b \<in> B \<and> map_of s2 (H b) \<noteq> None \<and> p \<noteq> [] \<and> (\<forall>n \<in> set p. valid_name n)"
      using v s1(3) s2(4) unfolding grows_def by fast
  qed (use s2(2,3) assms(7) in simp_all)
qed

text \<open>
  C27. Uploading a directory to the local store and downloading it by its digest succeeds and gives the same
  files back, whether or not the result is hashed again: if the store's blobs are what their names say,
  the paths are ones a download accepts, the limits are kept and no two of the hashed inputs collide.
\<close>

theorem uploaded_directory_downloads:
  assumes "\<And>b. is_sha256_hex (H b)" and "inj_on H B" and "honest_store H B s"
    and "hash_artifact H path (Some (FDir l es)) = Inr d" and "wf_tree (FDir l es)"
    and "snd ` set (contents [] (FDir l es)) \<subseteq> B" and "canonical_manifest_bytes (ad_files d) \<in> B"
    and "\<forall>(p, b) \<in> set (contents [] (FDir l es)). check_relative_path (as_posix p) = Inr ()"
    and "int (length (contents [] (FDir l es))) \<le> max_files"
    and "(\<Sum>(p, b) \<leftarrow> contents [] (FDir l es). int (length b)) \<le> max_total"
    and "int (length (canonical_manifest_bytes (ad_files d))) \<le> max_manifest_bytes"
  shows "\<exists>s1 nd. upload_artifact H (local_blobs H) s path (Some (FDir l es)) (Some (FDir l es)) = (Inr d, s1)
    \<and> download_artifact H (local_blobs H) s1 (digest_ref d) (ad_type d) dest None max_total max_files verify_after = (Inr nd, s1)
    \<and> mset (contents [] nd) = mset (contents [] (FDir l es))"
proof -
  let ?ops = "local_blobs H" and ?m = "canonical_manifest_bytes (ad_files d)"
  obtain ds where ds: "mset ds = mset (contents [] (FDir l es))" "contents [] (FDir l es) \<noteq> []" "ad_files d = map (file_record H) ds"
      "sort_key fd_path (ad_files d) = ad_files d"
      and dig: "ad_digest d = H ?m" "ad_type d = ''directory''" "ad_algorithm d = ''sha256''"
    by (rule directory_digest [OF assms(4,5)])
  obtain s2 where up: "upload_artifact H ?ops s path (Some (FDir l es)) (Some (FDir l es)) = (Inr d, s2)"
      and s2: "honest_store H B s2" "map_of s2 (ad_digest d) \<noteq> None"
        "\<forall>(p, b) \<in> set ds. b \<in> B \<and> map_of s2 (H b) \<noteq> None \<and> p \<noteq> [] \<and> (\<forall>n \<in> set p. valid_name n)"
    by (rule upload_directory_local [OF assms(1,3-5) ds(1,3) dig(1,2) assms(6,7)])
  have "bo_get_to ?ops s2 (H ?m) False max_manifest_bytes = (Inr ?m, s2)"
    by (rule local_get_present [OF s2(1) assms(2,7) s2(2) [unfolded dig(1)] assms(1,11)])
  then have fm: "fetch_manifest H ?ops s2 (H ?m) max_files max_total = (Inr (ad_files d), s2)"
    using parse_uploaded_manifest [OF assms(1,5) ds assms(8-10)] ds(4)
    by (simp add: fetch_manifest_def artifact_digest_from_files_def)
  obtain es' where es': "fetch_files ?ops (ad_files d) s2 [] = (Inr es', s2)" "mset (contents [] (FDir True es')) = mset ds"
    using fetch_files_local [OF s2(1) assms(2,1) s2(3) directory_records(2) [OF assms(5) refl ds(1)], of "[]"]
    unfolding ds(3) by (auto simp: tree_ok_def forest_def)
  obtain d' where d': "hash_artifact H dest (Some (FDir True es')) = Inr d'" "ad_digest d' = H ?m"
    using local_blobs.download_directory(1) [OF fm es'(1)] by blast
  have p: "py_partition (CHR '':'') (digest_ref d) = (''sha256'', '':'', H ?m)"
    by (simp add: digest_ref_def dig py_partition_def Let_def)
  have "download_artifact H ?ops s2 (digest_ref d) (ad_type d) dest None max_total max_files verify_after
      = (Inr (FDir True es'), s2)"
    using fm es'(1) d' assms(1) dig(2)
    by (simp add: download_artifact_def p validate_sha256_def path_exists_def path_is_symlink_def Let_def)
  then show ?thesis using up es'(2) ds(1) by auto
qed

definition two_hash :: "bytes \<Rightarrow> string" where
  "two_hash b = replicate 64 (if b = ''x'' then CHR ''a'' else CHR ''b'')"

definition one_file :: "(string \<times> fs_node) list" where
  "one_file = [(''w'', FFile ''x'')]"

definition one_manifest :: bytes where
  "one_manifest = canonical_manifest_bytes [file_record two_hash ([''w''], ''x'')]"

lemma one_manifest_size: "length one_manifest \<le> 1000" "one_manifest \<noteq> ''x''"
proof -
  have "length one_manifest \<le> 1000 \<and> one_manifest \<noteq> ''x''" by code_simp
  then show "length one_manifest \<le> 1000" "one_manifest \<noteq> ''x''" by simp_all
qed

lemma two_hash_one_file:
  "is_sha256_hex (two_hash b)"
  "inj_on two_hash {''x'', one_manifest}"
  "hash_artifact two_hash [''a''] (Some (FDir True one_file)) = Inr (digest_of_contents two_hash [([''w''], ''x'')])"
  "contents [] (FDir True one_file) = [([''w''], ''x'')]" "wf_tree (FDir True one_file)"
  "canonical_manifest_bytes (ad_files (digest_of_contents two_hash [([''w''], ''x'')])) = one_manifest"
proof -
  show wf: "wf_tree (FDir True one_file)" by (simp add: one_file_def valid_name_def)
  show "is_sha256_hex (two_hash b)"
    by (simp add: two_hash_def is_sha256_hex_def list_all_iff is_lower_hex_def is_digit_def)
  show "inj_on two_hash {''x'', one_manifest}" using one_manifest_size(2) by (simp add: two_hash_def)
  show c: "contents [] (FDir True one_file) = [([''w''], ''x'')]" by (simp add: one_file_def)
  have "clean (FDir True one_file)" by (simp add: one_file_def)
  then show "hash_artifact two_hash [''a''] (Some (FDir True one_file)) = Inr (digest_of_contents two_hash [([''w''], ''x'')])"
    using hash_directory_Inr_iff [OF wf, of two_hash "[''a'']"]
    by (simp add: hash_artifact_def path_exists_def path_is_symlink_def path_is_dir_def one_file_def)
  show "canonical_manifest_bytes (ad_files (digest_of_contents two_hash [([''w''], ''x'')])) = one_manifest"
    by (simp add: digest_of_contents_def one_manifest_def)
qed

theorem uploaded_directory_downloads_witness:
  "\<exists>s1 nd. upload_artifact two_hash (local_blobs two_hash) [] [''a''] (Some (FDir True one_file)) (Some (FDir True one_file))
       = (Inr (digest_of_contents two_hash [([''w''], ''x'')]), s1)
    \<and> download_artifact two_hash (local_blobs two_hash) s1 (digest_ref (digest_of_contents two_hash [([''w''], ''x'')])) ''directory''
       [''d''] None 1 1 True = (Inr nd, s1)
    \<and> contents [] nd = [([''w''], ''x'')]"
proof -
  have p: "check_relative_path (as_posix [''w'']) = Inr ()" by code_simp
  have t: "ad_type (digest_of_contents two_hash [([''w''], ''x'')]) = ''directory''" by (simp add: digest_of_contents_def)
  have s: "honest_store two_hash {''x'', one_manifest} []" by (simp add: honest_store_def)
  show ?thesis
    using uploaded_directory_downloads [OF two_hash_one_file(1,2) s two_hash_one_file(3,5), of 1 1 "[''d'']" True]
      p t one_manifest_size two_hash_one_file(6) by (simp add: max_manifest_bytes_def one_file_def)
qed

end
