(* ===== verification/Postgres.thy ===== *)
theory Postgres
  imports Registry
begin

text \<open>
  \<open>registry/postgres.py\<close> and \<open>registry/migrations.py\<close>: the registry in a PostgreSQL database.  The
  state holds the three tables, the two sequences their ids are drawn from, what the server
  answers to a connection, and whether this client has checked the schema.  One transaction is one
  step here; the interleaving of transactions is the subject of \<open>Postgres_Concurrent\<close>.

  The tables' constraints are those of the migration's SQL.  Two of them are left out, the
  pattern and the uniqueness of the hashes: hexadecimal SHA-256 has the pattern, and a
  hash can only repeat by a collision.  \<open>Jsonb\<close> and pydantic's reading of a stored document are
  parameters.
\<close>

section \<open>Connection strings\<close>

definition local_hosts :: "string list" where
  "local_hosts = [''localhost'', ''127.0.0.1'', ''::1'']"

definition verifying_sslmodes :: "string list" where
  "verifying_sslmodes = [''verify-ca'', ''verify-full'']"

definition is_remote :: "string \<Rightarrow> bool" where
  "is_remote h \<longleftrightarrow> h \<notin> set local_hosts \<and> \<not> prefix ''/'' h"

text \<open>\<open>conninfo_to_dict\<close> of psycopg is the parameter \<open>parse\<close>; \<open>None\<close> is its \<open>ProgrammingError\<close>.\<close>

definition check_dsn :: "(string \<Rightarrow> string dict option) \<Rightarrow> string \<Rightarrow> bool \<Rightarrow> exn + unit" where
  "check_dsn parse dsn allow_insecure_transport =
     (case parse dsn of
        None \<Rightarrow> Inl RegistryConfigurationError
      | Some parts \<Rightarrow>
          if \<not> truthy (map_of parts ''host'') then Inl RegistryConfigurationError
          else
            (let hosts = map py_strip (split_on (CHR '','') (the (map_of parts ''host'')));
                 remote = filter is_remote hosts
             in if remote \<noteq> [] \<and> \<not> allow_insecure_transport
                   \<and> map_of parts ''sslmode'' \<notin> set (map Some verifying_sslmodes)
                then Inl RegistryConfigurationError
                else Inr ()))"

section \<open>Errors of the backend\<close>

text \<open>A \<open>psycopg.Error\<close>: its class, its SQLSTATE, whether it is an \<open>OperationalError\<close>, its text.\<close>

record pg_error =
  pe_type :: string
  pe_sqlstate :: "string option"
  pe_operational :: bool
  pe_text :: string

definition contains :: "string \<Rightarrow> string \<Rightarrow> bool" where
  "contains p s \<longleftrightarrow> list_ex (prefix p) (suffixes s)"

definition category :: "pg_error \<Rightarrow> string" where
  "category e =
     (let state = (case pe_sqlstate e of None \<Rightarrow> [] | Some s \<Rightarrow> s)
      in if prefix ''28'' state then ''authentication failed''
         else if state = ''42501'' then ''permission denied''
         else if state = ''57014'' then ''statement timeout''
         else if state = ''MG01'' \<or> state = ''MG001'' then ''append-only violation''
         else if state = [] \<and> pe_operational e then
           (let text = py_lower (pe_text e)
            in if contains ''authentication failed'' text \<or> contains ''no pg_hba.conf entry'' text
               then ''authentication failed'' else ''could not connect or connection lost'')
         else ''database error'')"

text \<open>The message of the \<open>RegistryBackendError\<close> a \<open>psycopg.Error\<close> becomes.\<close>

definition backend_message :: "string \<Rightarrow> pg_error \<Rightarrow> string" where
  "backend_message action e =
     ''PostgreSQL registry '' @ action @ '' failed: '' @ category e @ '' ('' @ pe_type e @ '', sqlstate=''
       @ (case pe_sqlstate e of None \<Rightarrow> ''none'' | Some s \<Rightarrow> if s = [] then ''none'' else s) @ '').''"

text \<open>
  The message depends on the server's text only through the choice of one of two labels, so
  neither a connection string nor a value the server quotes gets into it.
\<close>

lemma backend_message_hides_text:
  "backend_message action (e\<lparr>pe_text := t\<rparr>) \<in> {backend_message action (e\<lparr>pe_text := []\<rparr>),
     backend_message action (e\<lparr>pe_text := ''authentication failed''\<rparr>)}"
  by (simp add: backend_message_def category_def contains_def py_lower_def py_lower_char_def Let_def)

section \<open>Migrations\<close>

record migration =
  mi_version :: int
  mi_name :: string
  mi_sql :: string

definition migration_checksum :: "(bytes \<Rightarrow> string) \<Rightarrow> migration \<Rightarrow> string" where
  "migration_checksum H m = H (utf8 (mi_sql m))"

definition latest_version :: "migration list \<Rightarrow> int" where
  "latest_version ms = mi_version (last ms)"

section \<open>Tables\<close>

record pg_row =
  row_id :: nat
  row_model_id :: string
  row_version :: string
  row_digest :: string
  row_record :: json
  row_registered_by :: string

record pg_event =
  ev_id :: nat
  ev_model_id :: string
  ev_version :: string
  ev_action :: string
  ev_actor :: string
  ev_reason :: string
  ev_revoked_at :: string
  ev_prev_hash :: string
  ev_event_hash :: string

text \<open>
  \<open>pg_schema\<close> is the table of applied migrations, version and checksum, if it exists;
  \<open>pg_fault\<close> the error of every statement while the database is not usable.
\<close>

record pg_registry =
  pg_rows :: "pg_row list"
  pg_row_seq :: nat
  pg_events :: "pg_event list"
  pg_event_seq :: nat
  pg_schema :: "(int \<times> string) list option"
  pg_fault :: "pg_error option"
  pg_schema_verified :: bool

text \<open>
  The release and its libraries: SHA-256 in hexadecimal, the shipped migrations, the document a
  \<open>jsonb\<close> column gives back for one stored in it (\<open>None\<close> if the server refuses it), and pydantic's conversions.
\<close>

record pg_env =
  pe_hash :: "bytes \<Rightarrow> string"
  pe_migrations :: "migration list"
  pe_jsonb :: "json \<Rightarrow> json option"
  pe_libs :: libs

text \<open>A \<open>text\<close> value: PostgreSQL has no character with code zero.\<close>

definition pg_text :: "string \<Rightarrow> bool" where
  "pg_text s \<longleftrightarrow> CHR 0x00 \<notin> set s"

text \<open>
  The append-only triggers: an \<open>UPDATE\<close> or \<open>DELETE\<close> raises for the first row it would touch, a \<open>TRUNCATE\<close>
  raises at once, on all three tables.  \<open>touched\<close> is the number of rows the statement selects.
\<close>

datatype tg_op = UPDATE | DELETE | TRUNCATE

fun tg_op_name :: "tg_op \<Rightarrow> string" where
  "tg_op_name UPDATE = ''UPDATE''"
| "tg_op_name DELETE = ''DELETE''"
| "tg_op_name TRUNCATE = ''TRUNCATE''"

definition append_only_tables :: "string list" where
  "append_only_tables = [''registry_records'', ''revocation_events'', ''modelguard_schema_migrations'']"

definition forbid_mutation :: "tg_op \<Rightarrow> string \<Rightarrow> pg_error" where
  "forbid_mutation op table =
     \<lparr>pe_type = ''RaiseException'', pe_sqlstate = Some ''MG001'', pe_operational = False,
      pe_text = ''modelguard: '' @ tg_op_name op @ '' on '' @ table @ '' is not permitted (append-only)''\<rparr>"

definition mutation_trigger :: "tg_op \<Rightarrow> string \<Rightarrow> nat \<Rightarrow> pg_error option" where
  "mutation_trigger op table touched =
     (if table \<in> set append_only_tables \<and> (op = TRUNCATE \<or> 0 < touched) then Some (forbid_mutation op table) else None)"

lemma forbidden_category: "category (forbid_mutation op table) = ''append-only violation''"
  by (simp add: category_def forbid_mutation_def Let_def)

section \<open>Schema\<close>

definition check_checksums :: "pg_env \<Rightarrow> (int \<times> string) list \<Rightarrow> exn + unit" where
  "check_checksums E applied =
     (let shipped = map (\<lambda>m. (mi_version m, migration_checksum (pe_hash E) m)) (pe_migrations E)
      in if list_ex (\<lambda>(v, c). case map_of (rev shipped) v of None \<Rightarrow> False | Some c' \<Rightarrow> c' \<noteq> c) applied
         then Inl RegistryBackendError else Inr ())"

definition verify_schema :: "pg_env \<Rightarrow> pg_registry \<Rightarrow> exn + unit" where
  "verify_schema E s =
     (case pg_schema s of
        None \<Rightarrow> Inl RegistryBackendError
      | Some applied \<Rightarrow>
          if applied = [] \<or> Max (set (map fst applied)) < latest_version (pe_migrations E)
          then Inl RegistryBackendError
          else if Max (set (map fst applied)) > latest_version (pe_migrations E)
          then Inl RegistryBackendError
          else check_checksums E applied)"

text \<open>
  \<open>_connect\<close>: the connection with the body run in it.  What the body leaves is committed when it
  returns and rolled back by the body itself when it raises.
\<close>

definition connected :: "pg_env \<Rightarrow> bool \<Rightarrow> (pg_registry \<Rightarrow> (exn + 'a) \<times> pg_registry) \<Rightarrow> pg_registry
    \<Rightarrow> (exn + 'a) \<times> pg_registry" where
  "connected E check_schema body s =
     (case pg_fault s of
        Some e \<Rightarrow> (Inl RegistryBackendError, s)
      | None \<Rightarrow>
          if check_schema \<and> \<not> pg_schema_verified s then
            (case verify_schema E s of
               Inl e \<Rightarrow> (Inl e, s)
             | Inr _ \<Rightarrow> body (s\<lparr>pg_schema_verified := True\<rparr>))
          else body s)"

text \<open>The loop over the shipped migrations; inserting a version twice violates the primary key.\<close>

fun apply_migrations :: "(bytes \<Rightarrow> string) \<Rightarrow> int list \<Rightarrow> (int \<times> string) list \<Rightarrow> migration list
    \<Rightarrow> exn + (int \<times> string) list \<times> int list" where
  "apply_migrations H done_before table [] = Inr (table, [])"
| "apply_migrations H done_before table (m # ms) =
     (if mi_version m \<in> set done_before then apply_migrations H done_before table ms
      else if mi_version m \<in> fst ` set table then Inl RegistryBackendError
      else (case apply_migrations H done_before (table @ [(mi_version m, migration_checksum H m)]) ms of
              Inl e \<Rightarrow> Inl e
            | Inr (table', applied_now) \<Rightarrow> Inr (table', mi_version m # applied_now)))"

definition migrate :: "pg_env \<Rightarrow> pg_registry \<Rightarrow> (exn + int list) \<times> pg_registry" where
  "migrate E = connected E False (\<lambda>s.
     (let applied = (case pg_schema s of None \<Rightarrow> [] | Some t \<Rightarrow> t)
      in if applied \<noteq> [] \<and> Max (set (map fst applied)) > latest_version (pe_migrations E)
         then (Inl RegistryBackendError, s)
         else (case check_checksums E applied of
           Inl e \<Rightarrow> (Inl e, s)
         | Inr _ \<Rightarrow>
             (case apply_migrations (pe_hash E) (map fst applied) applied (pe_migrations E) of
                Inl e \<Rightarrow> (Inl e, s)
              | Inr (table, applied_now) \<Rightarrow> (Inr applied_now, s\<lparr>pg_schema := Some table\<rparr>)))))"

section \<open>Registration\<close>

definition pg_insert_row :: "pg_env \<Rightarrow> registry_record \<Rightarrow> pg_registry \<Rightarrow> (exn + unit) \<times> pg_registry" where
  "pg_insert_row E r s =
     (case record_dump r of None \<Rightarrow> (Inl ValidationError, s) | Some doc \<Rightarrow>
     (case pe_jsonb E doc of
        None \<Rightarrow> (Inl RegistryBackendError, s)
      | Some j \<Rightarrow>
          if \<not> list_all pg_text [rr_model_id r, rr_version r, rr_artifact_digest r, rr_registered_by r]
          then (Inl RegistryBackendError, s)
          else
            (let row = \<lparr>row_id = pg_row_seq s, row_model_id = rr_model_id r, row_version = rr_version r,
                        row_digest = rr_artifact_digest r, row_record = j, row_registered_by = rr_registered_by r\<rparr>;
                 s' = s\<lparr>pg_row_seq := Suc (pg_row_seq s)\<rparr>
             in if length (rr_model_id r) \<notin> {1..200} \<or> length (rr_version r) \<notin> {1..200}
                   \<or> \<not> valid_record_digest (rr_artifact_digest r)
                then (Inl RegistryBackendError, s')
                else if list_ex (\<lambda>w. row_model_id w = rr_model_id r \<and> row_version w = rr_version r) (pg_rows s)
                then (Inl (DuplicateRegistrationError (rr_model_id r) (rr_version r)), s')
                else (Inr (), s'\<lparr>pg_rows := pg_rows s @ [row]\<rparr>))))"

definition pg_register :: "pg_env \<Rightarrow> registry_record \<Rightarrow> pg_registry \<Rightarrow> (exn + unit) \<times> pg_registry" where
  "pg_register E r s =
     (case validate_identifier (rr_model_id r) of Inl e \<Rightarrow> (Inl e, s) | Inr _ \<Rightarrow>
     (case validate_identifier (rr_version r) of Inl e \<Rightarrow> (Inl e, s) | Inr _ \<Rightarrow>
      connected E True (pg_insert_row E r) s))"

definition row_to_record :: "pg_env \<Rightarrow> pg_row \<Rightarrow> exn + registry_record" where
  "row_to_record E w =
     (case record_of_json (pe_libs E) (row_record w) of
        None \<Rightarrow> Inl RegistryBackendError
      | Some r \<Rightarrow>
          if (rr_model_id r, rr_version r, rr_artifact_digest r) \<noteq> (row_model_id w, row_version w, row_digest w)
          then Inl RegistryBackendError else Inr r)"

definition optional_record :: "pg_env \<Rightarrow> pg_row option \<Rightarrow> exn + registry_record option" where
  "optional_record E row =
     (case row of None \<Rightarrow> Inr None | Some w \<Rightarrow> (case row_to_record E w of Inl e \<Rightarrow> Inl e | Inr r \<Rightarrow> Inr (Some r)))"

definition pg_get :: "pg_env \<Rightarrow> string \<Rightarrow> string \<Rightarrow> pg_registry
    \<Rightarrow> (exn + registry_record option) \<times> pg_registry" where
  "pg_get E model_id version s =
     (case validate_identifier model_id of Inl e \<Rightarrow> (Inl e, s) | Inr _ \<Rightarrow>
     (case validate_identifier version of Inl e \<Rightarrow> (Inl e, s) | Inr _ \<Rightarrow>
      connected E True (\<lambda>s.
        if \<not> (pg_text model_id \<and> pg_text version) then (Inl RegistryBackendError, s)
        else (optional_record E (find (\<lambda>w. row_model_id w = model_id \<and> row_version w = version) (pg_rows s)), s)) s))"

definition first_with_digest :: "pg_row list \<Rightarrow> string \<Rightarrow> pg_row option" where
  "first_with_digest rows d = find (\<lambda>w. row_digest w = d) (sort_key row_id rows)"

definition pg_get_by_digest :: "pg_env \<Rightarrow> string \<Rightarrow> pg_registry
    \<Rightarrow> (exn + registry_record option) \<times> pg_registry" where
  "pg_get_by_digest E artifact_digest = connected E True (\<lambda>s.
     if \<not> pg_text artifact_digest then (Inl RegistryBackendError, s)
     else (optional_record E (first_with_digest (pg_rows s) artifact_digest), s))"

definition pg_list_versions :: "pg_env \<Rightarrow> string \<Rightarrow> pg_registry \<Rightarrow> (exn + string list) \<times> pg_registry" where
  "pg_list_versions E model_id s =
     (case validate_identifier model_id of Inl e \<Rightarrow> (Inl e, s) | Inr _ \<Rightarrow>
      connected E True (\<lambda>s.
        if \<not> pg_text model_id then (Inl RegistryBackendError, s)
        else (Inr (sort (map row_version (filter (\<lambda>w. row_model_id w = model_id) (pg_rows s)))), s)) s)"

section \<open>Revocation\<close>

text \<open>\<open>body\<close>, the dictionary an event hash covers.\<close>

definition event_body :: "string \<Rightarrow> string \<Rightarrow> string \<Rightarrow> string \<Rightarrow> string \<Rightarrow> string \<Rightarrow> json" where
  "event_body action model_id version actor reason revoked_at =
     JObj [(''action'', JStr action), (''model_id'', JStr model_id), (''version'', JStr version),
           (''actor'', JStr actor), (''reason'', JStr reason), (''revoked_at'', JStr revoked_at)]"

definition event_hash :: "(bytes \<Rightarrow> string) \<Rightarrow> string \<Rightarrow> json \<Rightarrow> string" where
  "event_hash H prev_hash record = H (prev_hash @ utf8 (dumps record))"

definition body_of :: "pg_event \<Rightarrow> json" where
  "body_of e = event_body (ev_action e) (ev_model_id e) (ev_version e) (ev_actor e) (ev_reason e) (ev_revoked_at e)"

definition in_id_order :: "pg_event list \<Rightarrow> pg_event list" where
  "in_id_order es = sort_key ev_id es"

text \<open>\<open>SELECT event_hash ... ORDER BY id DESC LIMIT 1\<close>, and the genesis hash of an empty table.\<close>

definition last_hash :: "pg_event list \<Rightarrow> string" where
  "last_hash es = (if es = [] then genesis_hash else ev_event_hash (last (in_id_order es)))"

definition new_event :: "(bytes \<Rightarrow> string) \<Rightarrow> nat \<Rightarrow> string \<Rightarrow> string \<Rightarrow> string \<Rightarrow> string \<Rightarrow> string \<Rightarrow> string \<Rightarrow> string
    \<Rightarrow> pg_event" where
  "new_event H i prev action model_id version actor reason revoked_at =
     \<lparr>ev_id = i, ev_model_id = model_id, ev_version = version, ev_action = action, ev_actor = actor,
      ev_reason = reason, ev_revoked_at = revoked_at, ev_prev_hash = prev,
      ev_event_hash = event_hash H prev (event_body action model_id version actor reason revoked_at)\<rparr>"

definition insert_event_after ::
    "pg_env \<Rightarrow> string \<Rightarrow> string \<Rightarrow> string \<Rightarrow> string \<Rightarrow> string \<Rightarrow> string \<Rightarrow> string \<Rightarrow> pg_registry
       \<Rightarrow> (exn + unit) \<times> pg_registry" where
  "insert_event_after E prev action model_id version actor reason revoked_at s =
     (if \<not> list_all pg_text [model_id, version, actor, reason, revoked_at] then (Inl RegistryBackendError, s)
      else
        (let s' = s\<lparr>pg_event_seq := Suc (pg_event_seq s)\<rparr>
         in if length model_id \<notin> {1..200} \<or> length version \<notin> {1..200} \<or> action \<notin> {''revoke'', ''unrevoke''}
            then (Inl RegistryBackendError, s')
            else (Inr (), s'\<lparr>pg_events := pg_events s
                   @ [new_event (pe_hash E) (pg_event_seq s) prev action model_id version actor reason revoked_at]\<rparr>)))"

definition pg_insert_event :: "pg_env \<Rightarrow> string \<Rightarrow> string \<Rightarrow> string \<Rightarrow> string \<Rightarrow> string \<Rightarrow> string \<Rightarrow> pg_registry
    \<Rightarrow> (exn + unit) \<times> pg_registry" where
  "pg_insert_event E action model_id version actor reason revoked_at s =
     (let prev = last_hash (pg_events s)
      in insert_event_after E prev action model_id version actor reason revoked_at s)"

definition pg_append_event :: "pg_env \<Rightarrow> string \<Rightarrow> string \<Rightarrow> string \<Rightarrow> string \<Rightarrow> string \<Rightarrow> string \<Rightarrow> pg_registry
    \<Rightarrow> (exn + unit) \<times> pg_registry" where
  "pg_append_event E action model_id version actor reason revoked_at s =
     (case validate_identifier model_id of Inl e \<Rightarrow> (Inl e, s) | Inr _ \<Rightarrow>
     (case validate_identifier version of Inl e \<Rightarrow> (Inl e, s) | Inr _ \<Rightarrow>
      connected E True (pg_insert_event E action model_id version actor reason revoked_at) s))"

definition pg_revoke :: "pg_env \<Rightarrow> revocation_record \<Rightarrow> pg_registry \<Rightarrow> (exn + unit) \<times> pg_registry" where
  "pg_revoke E r = pg_append_event E ''revoke'' (rv_model_id r) (rv_version r) (rv_revoked_by r) (rv_reason r) (rv_revoked_at r)"

text \<open>\<open>now\<close> is \<open>datetime.now(UTC).isoformat()\<close>.\<close>

definition pg_unrevoke :: "pg_env \<Rightarrow> string \<Rightarrow> string \<Rightarrow> string \<Rightarrow> string \<Rightarrow> string \<Rightarrow> pg_registry
    \<Rightarrow> (exn + unit) \<times> pg_registry" where
  "pg_unrevoke E now model_id version actor reason = pg_append_event E ''unrevoke'' model_id version actor reason now"

definition revocation_of_event :: "pg_event option \<Rightarrow> string \<Rightarrow> string \<Rightarrow> revocation_record option" where
  "revocation_of_event row model_id version =
     (case row of
        None \<Rightarrow> None
      | Some e \<Rightarrow>
          if ev_action e \<noteq> ''revoke'' then None
          else Some \<lparr>rv_model_id = model_id, rv_version = version, rv_revoked_by = ev_actor e,
                     rv_reason = ev_reason e, rv_revoked_at = ev_revoked_at e\<rparr>)"

definition pg_is_revoked :: "pg_env \<Rightarrow> string \<Rightarrow> string \<Rightarrow> pg_registry
    \<Rightarrow> (exn + revocation_record option) \<times> pg_registry" where
  "pg_is_revoked E model_id version s =
     (case validate_identifier model_id of Inl e \<Rightarrow> (Inl e, s) | Inr _ \<Rightarrow>
     (case validate_identifier version of Inl e \<Rightarrow> (Inl e, s) | Inr _ \<Rightarrow>
      connected E True (\<lambda>s.
        if \<not> (pg_text model_id \<and> pg_text version) then (Inl RegistryBackendError, s)
        else (Inr (revocation_of_event
               (find (\<lambda>e. ev_model_id e = model_id \<and> ev_version e = version) (rev (in_id_order (pg_events s))))
               model_id version), s)) s))"

fun verify_events :: "(bytes \<Rightarrow> string) \<Rightarrow> string \<Rightarrow> nat \<Rightarrow> pg_event list \<Rightarrow> exn + unit" where
  "verify_events H prev index [] = Inr ()"
| "verify_events H prev index (e # es) =
     (if ev_prev_hash e \<noteq> prev then Inl (ChainIntegrityError (JInt (int index)))
      else if event_hash H prev (body_of e) \<noteq> ev_event_hash e then Inl (ChainIntegrityError (JInt (int index)))
      else verify_events H (ev_event_hash e) (Suc index) es)"

definition verify_revocation_chain :: "pg_env \<Rightarrow> pg_registry \<Rightarrow> (exn + unit) \<times> pg_registry" where
  "verify_revocation_chain E =
     connected E True (\<lambda>s. (verify_events (pe_hash E) genesis_hash 0 (in_id_order (pg_events s)), s))"

text \<open>A client of the database: the connection string is checked, nothing is connected yet.\<close>

definition make_postgres_registry ::
    "(string \<Rightarrow> string dict option) \<Rightarrow> string \<Rightarrow> bool \<Rightarrow> pg_registry \<Rightarrow> exn + pg_registry" where
  "make_postgres_registry parse dsn allow_insecure_transport s =
     (case check_dsn parse dsn allow_insecure_transport of
        Inl e \<Rightarrow> Inl e
      | Inr _ \<Rightarrow> Inr (s\<lparr>pg_schema_verified := False\<rparr>))"

section \<open>Migrating\<close>

text \<open>A release numbers its migrations upwards.\<close>

definition valid_release :: "migration list \<Rightarrow> bool" where
  "valid_release ms \<longleftrightarrow> ms \<noteq> [] \<and> sorted_wrt (<) (map mi_version ms)"

definition ready :: "pg_env \<Rightarrow> pg_registry \<Rightarrow> bool" where
  "ready E s \<longleftrightarrow> pg_fault s = None \<and> (pg_schema_verified s \<or> verify_schema E s = Inr ())"

lemma connected_ready:
  "ready E s \<Longrightarrow> connected E True body s = body (s\<lparr>pg_schema_verified := True\<rparr>)"
  by (cases "pg_schema_verified s") (auto simp: ready_def connected_def pg_registry.equality intro!: arg_cong [where f = body])

definition applied_table :: "(bytes \<Rightarrow> string) \<Rightarrow> migration list \<Rightarrow> (int \<times> string) list" where
  "applied_table H ms = map (\<lambda>m. (mi_version m, migration_checksum H m)) ms"

lemma apply_migrations_new:
  assumes "distinct (map mi_version ms)" and "set before \<subseteq> fst ` set table"
    and "set (map mi_version ms) \<inter> fst ` set table \<subseteq> set before"
  shows "apply_migrations H before table ms =
    (let new = filter (\<lambda>m. mi_version m \<notin> set before) ms in Inr (table @ applied_table H new, map mi_version new))"
  using assms
proof (induction ms arbitrary: table)
  case (Cons m ms)
  have "apply_migrations H before (table @ [(mi_version m, migration_checksum H m)]) ms =
    (let new = filter (\<lambda>m. mi_version m \<notin> set before) ms
     in Inr ((table @ [(mi_version m, migration_checksum H m)]) @ applied_table H new, map mi_version new))"
    if "mi_version m \<notin> set before"
    using Cons.prems that by (intro Cons.IH) auto
  then show ?case using Cons by (auto simp: applied_table_def Let_def)
qed (simp add: applied_table_def Let_def)

lemma latest_is_Max:
  assumes "valid_release ms"
  shows "Max (mi_version ` set ms) = latest_version ms"
proof -
  obtain ms' m where ms: "ms = ms' @ [m]" using assms by (metis valid_release_def rev_exhaust)
  then have "\<forall>x \<in> set ms'. mi_version x \<le> mi_version m"
    using assms by (auto simp: valid_release_def sorted_wrt_append intro: less_imp_le)
  then show ?thesis unfolding ms latest_version_def by (intro Max_eqI) auto
qed

lemma release_distinct: "valid_release ms \<Longrightarrow> distinct (map mi_version ms)"
  by (simp add: valid_release_def strict_sorted_iff)

lemma check_checksums_iff:
  assumes "valid_release (pe_migrations E)"
  shows "check_checksums E table = Inr () \<longleftrightarrow>
    (\<forall>(v, c) \<in> set table. \<forall>m \<in> set (pe_migrations E). mi_version m = v \<longrightarrow> migration_checksum (pe_hash E) m = c)"
proof -
  let ?shipped = "map (\<lambda>m. (mi_version m, migration_checksum (pe_hash E) m)) (pe_migrations E)"
  have "distinct (map fst (rev ?shipped))"
    using release_distinct [OF assms] by (simp add: comp_def rev_map [symmetric])
  then have lookup: "map_of (rev ?shipped) v = Some c \<longleftrightarrow> (v, c) \<in> set ?shipped" for v c
    by (simp only: map_of_eq_Some_iff set_rev)
  have bad: "(case map_of (rev ?shipped) v of None \<Rightarrow> False | Some c' \<Rightarrow> c' \<noteq> c) \<longleftrightarrow>
      (\<exists>m \<in> set (pe_migrations E). mi_version m = v \<and> migration_checksum (pe_hash E) m \<noteq> c)" for v c
  proof (cases "map_of (rev ?shipped) v")
    case None
    then have "\<forall>c'. (v, c') \<notin> set ?shipped" unfolding lookup [symmetric] by simp
    then show ?thesis using None by auto
  next
    case (Some c')
    then have "(v, x) \<in> set ?shipped \<longleftrightarrow> x = c'" for x
      unfolding lookup [symmetric] Some by auto
    then have "(\<exists>m \<in> set (pe_migrations E). v = mi_version m \<and> x = migration_checksum (pe_hash E) m) \<longleftrightarrow> x = c'" for x
      by (simp add: image_iff)
    then have "(\<exists>m \<in> set (pe_migrations E). mi_version m = v \<and> migration_checksum (pe_hash E) m \<noteq> c) \<longleftrightarrow> c' \<noteq> c"
      by metis
    then show ?thesis using Some by simp
  qed
  show ?thesis unfolding check_checksums_def Let_def list_ex_iff bad by auto
qed

definition no_downgrade :: "pg_env \<Rightarrow> (int \<times> string) list \<Rightarrow> bool" where
  "no_downgrade E table \<longleftrightarrow> (\<forall>v \<in> fst ` set table. v \<le> latest_version (pe_migrations E))
     \<and> check_checksums E table = Inr ()"

lemma migrated_table:
  assumes "valid_release (pe_migrations E)" and "no_downgrade E table"
    and "new = filter (\<lambda>m. mi_version m \<notin> fst ` set table) (pe_migrations E)"
    and "table' = table @ applied_table (pe_hash E) new"
  shows "table' \<noteq> []" and "Max (set (map fst table')) = latest_version (pe_migrations E)"
    and "check_checksums E table' = Inr ()"
    and "fst ` set table' = fst ` set table \<union> mi_version ` set (pe_migrations E)"
proof -
  have ne: "pe_migrations E \<noteq> []" using assms(1) by (simp add: valid_release_def)
  show dom: "fst ` set table' = fst ` set table \<union> mi_version ` set (pe_migrations E)"
    unfolding assms(3,4) by (simp add: applied_table_def image_Un image_image) auto
  then show "table' \<noteq> []" using ne by auto
  have "latest_version (pe_migrations E) \<in> mi_version ` set (pe_migrations E)"
    using ne by (auto simp: latest_version_def)
  moreover have "\<forall>v \<in> mi_version ` set (pe_migrations E). v \<le> latest_version (pe_migrations E)"
    using latest_is_Max [OF assms(1)] by (metis List.finite_set Max_ge finite_imageI)
  ultimately show "Max (set (map fst table')) = latest_version (pe_migrations E)"
    unfolding set_map dom using assms(2) by (intro Max_eqI) (auto simp: no_downgrade_def)
  have same: "m = m'" if "m \<in> set (pe_migrations E)" "m' \<in> set (pe_migrations E)" "mi_version m = mi_version m'" for m m'
    using release_distinct [OF assms(1)] that by (simp add: distinct_map inj_on_def)
  show "check_checksums E table' = Inr ()"
    using assms(2) unfolding no_downgrade_def check_checksums_iff [OF assms(1)] assms(3,4)
    by (auto simp: applied_table_def dest: same)
qed

lemma migrate_eq:
  assumes "valid_release (pe_migrations E)" and "pg_fault s = None"
    and "table = (case pg_schema s of None \<Rightarrow> [] | Some t \<Rightarrow> t)" and "no_downgrade E table"
    and "new = filter (\<lambda>m. mi_version m \<notin> fst ` set table) (pe_migrations E)"
  shows "migrate E s = (Inr (map mi_version new), s\<lparr>pg_schema := Some (table @ applied_table (pe_hash E) new)\<rparr>)"
proof -
  have old: "\<not> (table \<noteq> [] \<and> Max (set (map fst table)) > latest_version (pe_migrations E))"
    using assms(4) by (cases "table = []") (simp_all add: no_downgrade_def not_less Max_le_iff)
  have loop: "apply_migrations (pe_hash E) (map fst table) table (pe_migrations E) =
      Inr (table @ applied_table (pe_hash E) new, map mi_version new)"
    using apply_migrations_new [OF release_distinct [OF assms(1)], of "map fst table" table] assms(5)
    by (simp add: Let_def)
  show ?thesis
    using assms(2,4) old loop
    unfolding migrate_def connected_def Let_def assms(3) [symmetric] by (simp add: no_downgrade_def)
qed

section \<open>The tables as a registry\<close>

text \<open>A row with the record it stores; an event with the event it records.\<close>

definition row_of :: "pg_env \<Rightarrow> pg_row \<Rightarrow> registry_record \<Rightarrow> bool" where
  "row_of E w r \<longleftrightarrow> (row_model_id w, row_version w) = record_key r \<and> row_digest w = rr_artifact_digest r
     \<and> (\<exists>doc. record_dump r = Some doc \<and> pe_jsonb E doc = Some (row_record w))"

fun event_of :: "pg_event \<Rightarrow> rev_event \<Rightarrow> bool" where
  "event_of e (Revoked r) \<longleftrightarrow> ev_action e = ''revoke''
     \<and> r = \<lparr>rv_model_id = ev_model_id e, rv_version = ev_version e, rv_revoked_by = ev_actor e,
            rv_reason = ev_reason e, rv_revoked_at = ev_revoked_at e\<rparr>"
| "event_of e (Unrevoked m v a q) \<longleftrightarrow> ev_action e = ''unrevoke'' \<and> m = ev_model_id e \<and> v = ev_version e
     \<and> a = ev_actor e \<and> q = ev_reason e"

definition numbered :: "('a \<Rightarrow> nat) \<Rightarrow> nat \<Rightarrow> 'a list \<Rightarrow> bool" where
  "numbered f n xs \<longleftrightarrow> sorted (map f xs) \<and> list_all (\<lambda>x. f x < n) xs"

lemma numbered_Nil [simp]:
  "numbered f n []"
  by (simp add: numbered_def)

lemma numbered_Suc: "numbered f n xs \<Longrightarrow> numbered f (Suc n) xs"
  by (auto simp: numbered_def list_all_iff)

lemma numbered_snoc: "numbered f n xs \<Longrightarrow> f x = n \<Longrightarrow> numbered f (Suc n) (xs @ [x])"
  by (auto simp: numbered_def sorted_append list_all_iff)

lemma numbered_sort: "numbered f n xs \<Longrightarrow> sort_key f xs = xs"
  by (simp add: numbered_def sorted_sort_id sort_key_id_if_sorted)

text \<open>A \<open>jsonb\<close> value is the document that was stored, up to the order of members; what the tables hold.\<close>

definition faithful_store :: "pg_env \<Rightarrow> bool" where
  "faithful_store E \<longleftrightarrow> (\<forall>doc j. pe_jsonb E doc = Some j \<longrightarrow> canon j = canon doc)"

definition pg_rep :: "pg_env \<Rightarrow> pg_registry \<Rightarrow> registry_record list \<Rightarrow> rev_event list \<Rightarrow> bool" where
  "pg_rep E s regs evs \<longleftrightarrow> faithful_store E \<and> ready E s \<and> wf_regs regs
     \<and> list_all2 (row_of E) (pg_rows s) regs \<and> numbered row_id (pg_row_seq s) (pg_rows s)
     \<and> list_all2 event_of (pg_events s) evs \<and> numbered ev_id (pg_event_seq s) (pg_events s)
     \<and> verify_events (pe_hash E) genesis_hash 0 (pg_events s) = Inr ()"

fun pg_accepts :: "pg_env \<Rightarrow> reg_op \<Rightarrow> bool" where
  "pg_accepts E (Register r) \<longleftrightarrow> valid_record r \<and> pg_text (rr_registered_by r) \<and> pe_jsonb E (with_nulls (record_fields r)) \<noteq> None"
| "pg_accepts E (Revoke r) \<longleftrightarrow> pg_text (rv_revoked_by r) \<and> pg_text (rv_reason r) \<and> pg_text (rv_revoked_at r)"
| "pg_accepts E (Unrevoke now m v a q) \<longleftrightarrow> pg_text a \<and> pg_text q \<and> pg_text now"

lemma pg_accepts_valid: "pg_accepts E op \<Longrightarrow> local_accepts op"
  by (cases op) simp_all

text \<open>An operation seen as the protocol sees it: the error, or the new state.\<close>

definition outcome :: "(exn + 'a) \<times> 's \<Rightarrow> exn + 's" where
  "outcome p = (case p of (Inl e, s) \<Rightarrow> Inl e | (Inr x, s) \<Rightarrow> Inr s)"

lemma outcome_simps [simp]: "outcome (Inl e, s) = Inl e" "outcome (Inr x, s) = Inr s"
  by (simp_all add: outcome_def)

lemma pg_rep_client [simp]:
  "pg_rep E s regs evs \<Longrightarrow> pg_rep E (s\<lparr>pg_schema_verified := True\<rparr>) regs evs"
  by (simp add: pg_rep_def ready_def)

lemma pg_rep_sequences:
  "pg_rep E s regs evs \<Longrightarrow> pg_rep E (s\<lparr>pg_row_seq := Suc (pg_row_seq s)\<rparr>) regs evs"
  "pg_rep E s regs evs \<Longrightarrow> pg_rep E (s\<lparr>pg_event_seq := Suc (pg_event_seq s)\<rparr>) regs evs"
  by (auto simp: pg_rep_def ready_def verify_schema_def numbered_Suc split: option.splits)

lemma valid_identifier_text:
  assumes "valid_identifier m"
  shows "pg_text m" and "Suc 0 \<le> length m" and "length m \<le> 200"
  using assms
  by (auto simp: valid_identifier_def identifier_problem_def max_identifier_length_def pg_text_def list_ex_iff
      is_control_def Suc_le_eq split: if_splits)

lemma record_digest_text: "valid_record_digest d \<Longrightarrow> pg_text d"
proof -
  assume v: "valid_record_digest d"
  have "d = take 7 d @ drop 7 d" by simp
  moreover have "take 7 d = ''sha256:''" using v by (auto simp: valid_record_digest_def prefix_def)
  moreover have "CHR 0x00 \<notin> set (drop 7 d)"
    using v by (auto simp: valid_record_digest_def is_sha256_hex_def list_all_iff is_lower_hex_def is_digit_def)
  ultimately have "set d = set ''sha256:'' \<union> set (drop 7 d)" by (metis set_append)
  then show ?thesis using \<open>CHR 0x00 \<notin> set (drop 7 d)\<close> by (simp add: pg_text_def)
qed

lemma verify_events_append:
  "verify_events H p i (es @ [e]) = Inr () \<longleftrightarrow>
     verify_events H p i es = Inr ()
     \<and> ev_prev_hash e = (if es = [] then p else ev_event_hash (last es))
     \<and> event_hash H (ev_prev_hash e) (body_of e) = ev_event_hash e"
  by (induction es arbitrary: p i) auto

lemma last_hash_numbered:
  "numbered ev_id n es \<Longrightarrow> last_hash es = (if es = [] then genesis_hash else ev_event_hash (last es))"
  by (simp add: last_hash_def in_id_order_def numbered_sort)

lemma new_event_chained:
  assumes "numbered ev_id n es" and "verify_events H genesis_hash 0 es = Inr ()"
  shows "verify_events H genesis_hash 0 (es @ [new_event H n (last_hash es) action m v actor reason at]) = Inr ()"
  using assms by (simp add: verify_events_append last_hash_numbered new_event_def body_of_def)

lemma pg_rows_key:
  assumes "list_all2 (row_of E) rows regs"
  shows "list_ex (\<lambda>w. row_model_id w = m \<and> row_version w = v) rows \<longleftrightarrow> (m, v) \<in> record_key ` set regs"
  using assms by (induction rows regs rule: list_all2_induct) (auto simp: row_of_def)

lemma pg_rows_find:
  assumes "list_all2 (row_of E) rows regs" and "faithful_store E" and "\<And>w r. row_of E w r \<Longrightarrow> P w \<longleftrightarrow> Q r"
  shows "optional_record E (find P rows) = Inr (find Q regs)"
  using assms(1)
proof (induction rows regs rule: list_all2_induct)
  case (Cons w rows r regs)
  have "row_to_record E w = Inr r"
    using Cons(1) assms(2) record_reads by (fastforce simp: row_of_def row_to_record_def faithful_store_def)
  then show ?case using Cons assms(3) [OF Cons(1)] by (simp add: optional_record_def)
qed (simp add: optional_record_def)

lemma pg_rows_versions:
  assumes "list_all2 (row_of E) rows regs"
  shows "map row_version (filter (\<lambda>w. row_model_id w = m) rows) = map rr_version (filter (\<lambda>r. rr_model_id r = m) regs)"
  using assms by (induction rows regs rule: list_all2_induct) (auto simp: row_of_def)

lemma event_of_key: "event_of e ev \<Longrightarrow> (ev_model_id e, ev_version e) = event_key ev"
  by (cases ev) auto

lemma pg_events_find:
  assumes "list_all2 event_of es evs"
  shows "revocation_of_event (find (\<lambda>e. ev_model_id e = m \<and> ev_version e = v) es) m v
    = revocation_of (find (\<lambda>ev. event_key ev = (m, v)) evs)"
  using assms
proof (induction es evs rule: list_all2_induct)
  case (Cons e es ev evs)
  then show ?case
    using event_of_key [OF Cons(1)] by (cases ev) (auto simp: revocation_of_event_def)
qed (simp add: revocation_of_event_def)

lemmas pg_simps = validate_identifier_eq checked_two checked_one valid_identifier_text connected_ready

lemma pg_rep_ready: "pg_rep E s regs evs \<Longrightarrow> ready E s"
  by (simp add: pg_rep_def)

lemma pg_get_eq:
  assumes "pg_rep E s regs evs"
  shows "fst (pg_get E m v s) = spec_get regs m v"
  using assms pg_rows_find [of E "pg_rows s" regs "\<lambda>w. row_model_id w = m \<and> row_version w = v" "\<lambda>r. record_key r = (m, v)"]
  by (auto simp: pg_get_def spec_get_def pg_simps pg_rep_def row_of_def)

lemma pg_get_by_digest_eq:
  assumes "pg_rep E s regs evs"
  shows "fst (pg_get_by_digest E d s) = (if pg_text d then Inr (spec_get_by_digest regs d) else Inl RegistryBackendError)"
  using assms pg_rows_find [of E "pg_rows s" regs "\<lambda>w. row_digest w = d" "\<lambda>r. rr_artifact_digest r = d"]
  by (auto simp: pg_get_by_digest_def spec_get_by_digest_def pg_simps pg_rep_def row_of_def first_with_digest_def numbered_sort)

lemma pg_list_versions_eq:
  assumes "pg_rep E s regs evs"
  shows "fst (pg_list_versions E m s) = spec_list_versions regs m"
  using assms pg_rows_versions [of E "pg_rows s" regs m]
  by (auto simp: pg_list_versions_def spec_list_versions_def pg_simps pg_rep_def)

lemma pg_is_revoked_eq:
  assumes "pg_rep E s regs evs"
  shows "fst (pg_is_revoked E m v s) = spec_is_revoked evs m v"
  using assms pg_events_find [of "rev (pg_events s)" "rev evs" m v]
  by (auto simp: pg_is_revoked_def spec_is_revoked_def pg_simps pg_rep_def in_id_order_def numbered_sort)

lemma pg_chain_verifies:
  assumes "pg_rep E s regs evs"
  shows "fst (verify_revocation_chain E s) = Inr ()"
  using assms by (auto simp: verify_revocation_chain_def pg_simps pg_rep_def in_id_order_def numbered_sort)

text \<open>Every operation keeps the representation: of the extended registry, or of the same one when it fails.\<close>

lemma pg_register_refines:
  assumes "pg_rep E s regs evs"
  shows "pg_accepts E (Register r) \<Longrightarrow>
      (case spec_register regs r of
         Inl e \<Rightarrow> fst (pg_register E r s) = Inl e \<and> pg_rep E (snd (pg_register E r s)) regs evs
       | Inr regs' \<Rightarrow> fst (pg_register E r s) = Inr () \<and> pg_rep E (snd (pg_register E r s)) regs' evs)"
    and "\<not> pg_accepts E (Register r) \<Longrightarrow>
      (\<exists>e. fst (pg_register E r s) = Inl e) \<and> pg_rep E (snd (pg_register E r s)) regs evs"
proof -
  let ?s = "s\<lparr>pg_schema_verified := True\<rparr>"
  have new: "pg_rep E (?s\<lparr>pg_row_seq := Suc (pg_row_seq s), pg_rows := pg_rows s @ [w]\<rparr>) (regs @ [r]) evs"
    if "row_of E w r" "row_id w = pg_row_seq s" "wf_regs (regs @ [r])" for w
    using assms that
    by (auto simp: pg_rep_def ready_def verify_schema_def list_all2_appendI intro: numbered_snoc split: option.splits)
  have same: "pg_rep E (?s\<lparr>pg_row_seq := Suc (pg_row_seq s)\<rparr>) regs evs"
    using pg_rep_sequences(1) [OF pg_rep_client [OF assms]] by simp
  have key: "list_ex (\<lambda>w. row_model_id w = m \<and> row_version w = v) (pg_rows s) \<longleftrightarrow> (m, v) \<in> record_key ` set regs" for m v
    by (rule pg_rows_key [of E]) (use assms in \<open>simp add: pg_rep_def\<close>)
  have wf: "wf_regs regs" using assms by (simp add: pg_rep_def)
  note eq = pg_register_def pg_insert_row_def pg_simps pg_rep_ready [OF assms] Let_def record_digest_text key
    spec_register_def record_dump_def valid_record_def
  show "case spec_register regs r of
         Inl e \<Rightarrow> fst (pg_register E r s) = Inl e \<and> pg_rep E (snd (pg_register E r s)) regs evs
       | Inr regs' \<Rightarrow> fst (pg_register E r s) = Inr () \<and> pg_rep E (snd (pg_register E r s)) regs' evs"
    if "pg_accepts E (Register r)"
    using that wf assms same
    by (auto simp: eq row_of_def wf_regs_def list_all_append intro!: new)
  show "(\<exists>e. fst (pg_register E r s) = Inl e) \<and> pg_rep E (snd (pg_register E r s)) regs evs"
    if "\<not> pg_accepts E (Register r)"
    using that assms same by (auto simp: eq split: option.splits)
qed

lemma pg_append_refines:
  assumes "pg_rep E s regs evs" and "action \<in> {''revoke'', ''unrevoke''}"
    and "p = pg_append_event E action (fst (event_key ev)) (snd (event_key ev)) actor reason at s"
    and "\<And>e. ev_action e = action \<Longrightarrow> (ev_model_id e, ev_version e) = event_key ev \<Longrightarrow> ev_actor e = actor
      \<Longrightarrow> ev_reason e = reason \<Longrightarrow> ev_revoked_at e = at \<Longrightarrow> event_of e ev"
  shows "pg_text actor \<and> pg_text reason \<and> pg_text at \<Longrightarrow>
      (case spec_append evs ev of
         Inl e \<Rightarrow> fst p = Inl e \<and> pg_rep E (snd p) regs evs
       | Inr evs' \<Rightarrow> fst p = Inr () \<and> pg_rep E (snd p) regs evs')"
    and "\<not> (pg_text actor \<and> pg_text reason \<and> pg_text at) \<Longrightarrow> (\<exists>e. fst p = Inl e) \<and> pg_rep E (snd p) regs evs"
proof -
  let ?s = "s\<lparr>pg_schema_verified := True\<rparr>"
  let ?e = "new_event (pe_hash E) (pg_event_seq s) (last_hash (pg_events s)) action (fst (event_key ev))
    (snd (event_key ev)) actor reason at"
  have "event_of ?e ev" by (rule assms(4)) (simp_all add: new_event_def)
  moreover have "ev_id ?e = pg_event_seq s" by (simp add: new_event_def)
  ultimately have new: "pg_rep E (?s\<lparr>pg_event_seq := Suc (pg_event_seq s), pg_events := pg_events s @ [?e]\<rparr>) regs (evs @ [ev])"
    using assms(1) new_event_chained [of "pg_event_seq s" "pg_events s" "pe_hash E"]
    by (auto simp: pg_rep_def ready_def verify_schema_def list_all2_appendI intro: numbered_snoc split: option.splits)
  note eq = assms(3) pg_append_event_def pg_insert_event_def insert_event_after_def pg_simps pg_rep_ready [OF assms(1)] Let_def spec_append_def
  show "case spec_append evs ev of
         Inl e \<Rightarrow> fst p = Inl e \<and> pg_rep E (snd p) regs evs
       | Inr evs' \<Rightarrow> fst p = Inr () \<and> pg_rep E (snd p) regs evs'"
    if "pg_text actor \<and> pg_text reason \<and> pg_text at"
    using that assms(1,2) new by (auto simp: eq)
  show "(\<exists>e. fst p = Inl e) \<and> pg_rep E (snd p) regs evs" if "\<not> (pg_text actor \<and> pg_text reason \<and> pg_text at)"
    using that assms(1) by (auto simp: eq)
qed

lemma pg_revoke_refines:
  assumes "pg_rep E s regs evs"
  shows "pg_accepts E (Revoke rv) \<Longrightarrow>
      (case spec_append evs (Revoked rv) of
         Inl e \<Rightarrow> fst (pg_revoke E rv s) = Inl e \<and> pg_rep E (snd (pg_revoke E rv s)) regs evs
       | Inr evs' \<Rightarrow> fst (pg_revoke E rv s) = Inr () \<and> pg_rep E (snd (pg_revoke E rv s)) regs evs')"
    and "\<not> pg_accepts E (Revoke rv) \<Longrightarrow>
      (\<exists>e. fst (pg_revoke E rv s) = Inl e) \<and> pg_rep E (snd (pg_revoke E rv s)) regs evs"
proof -
  have p: "pg_revoke E rv s = pg_append_event E ''revoke'' (fst (event_key (Revoked rv))) (snd (event_key (Revoked rv)))
      (rv_revoked_by rv) (rv_reason rv) (rv_revoked_at rv) s"
    by (simp add: pg_revoke_def)
  note facts = pg_append_refines [OF assms _ p, simplified]
  show "case spec_append evs (Revoked rv) of
         Inl e \<Rightarrow> fst (pg_revoke E rv s) = Inl e \<and> pg_rep E (snd (pg_revoke E rv s)) regs evs
       | Inr evs' \<Rightarrow> fst (pg_revoke E rv s) = Inr () \<and> pg_rep E (snd (pg_revoke E rv s)) regs evs'"
    if "pg_accepts E (Revoke rv)"
    by (rule facts(1)) (use that in auto)
  show "(\<exists>e. fst (pg_revoke E rv s) = Inl e) \<and> pg_rep E (snd (pg_revoke E rv s)) regs evs"
    if "\<not> pg_accepts E (Revoke rv)"
    by (rule facts(2)) (use that in auto)
qed

lemma pg_unrevoke_refines:
  assumes "pg_rep E s regs evs"
  shows "pg_accepts E (Unrevoke now m v a q) \<Longrightarrow>
      (case spec_append evs (Unrevoked m v a q) of
         Inl e \<Rightarrow> fst (pg_unrevoke E now m v a q s) = Inl e \<and> pg_rep E (snd (pg_unrevoke E now m v a q s)) regs evs
       | Inr evs' \<Rightarrow> fst (pg_unrevoke E now m v a q s) = Inr () \<and> pg_rep E (snd (pg_unrevoke E now m v a q s)) regs evs')"
    and "\<not> pg_accepts E (Unrevoke now m v a q) \<Longrightarrow>
      (\<exists>e. fst (pg_unrevoke E now m v a q s) = Inl e) \<and> pg_rep E (snd (pg_unrevoke E now m v a q s)) regs evs"
proof -
  let ?ev = "Unrevoked m v a q"
  have p: "pg_unrevoke E now m v a q s
      = pg_append_event E ''unrevoke'' (fst (event_key ?ev)) (snd (event_key ?ev)) a q now s"
    by (simp add: pg_unrevoke_def)
  note facts = pg_append_refines [OF assms _ p, simplified]
  show "case spec_append evs ?ev of
         Inl e \<Rightarrow> fst (pg_unrevoke E now m v a q s) = Inl e \<and> pg_rep E (snd (pg_unrevoke E now m v a q s)) regs evs
       | Inr evs' \<Rightarrow> fst (pg_unrevoke E now m v a q s) = Inr () \<and> pg_rep E (snd (pg_unrevoke E now m v a q s)) regs evs'"
    if "pg_accepts E (Unrevoke now m v a q)"
    by (rule facts(1)) (use that in auto)
  show "(\<exists>e. fst (pg_unrevoke E now m v a q s) = Inl e) \<and> pg_rep E (snd (pg_unrevoke E now m v a q s)) regs evs"
    if "\<not> pg_accepts E (Unrevoke now m v a q)"
    by (rule facts(2)) (use that in auto)
qed

interpretation pg: registry "pg_rep E" "pg_accepts E" pg_text "\<lambda>s r. outcome (pg_register E r s)"
  "\<lambda>s m v. fst (pg_get E m v s)" "\<lambda>s d. fst (pg_get_by_digest E d s)" "\<lambda>s m. fst (pg_list_versions E m s)"
  "\<lambda>s r. outcome (pg_revoke E r s)" "\<lambda>s now m v a q. outcome (pg_unrevoke E now m v a q s)"
  "\<lambda>s m v. fst (pg_is_revoked E m v s)" for E
proof
  fix s regs evs r m v actor reason now d rv
  assume rep: "pg_rep E s regs evs"
  show "wf_regs regs" using rep by (simp add: pg_rep_def)
  show "case spec_register regs r of Inl e \<Rightarrow> outcome (pg_register E r s) = Inl e
     | Inr regs' \<Rightarrow> \<exists>s'. outcome (pg_register E r s) = Inr s' \<and> pg_rep E s' regs' evs" if "pg_accepts E (Register r)"
    using pg_register_refines(1) [OF rep that] by (auto simp: outcome_def split: sum.splits prod.splits)
  show "\<exists>e. outcome (pg_register E r s) = Inl e" if "\<not> pg_accepts E (Register r)"
    using pg_register_refines(2) [OF rep that] by (auto simp: outcome_def split: sum.splits prod.splits)
  show "\<exists>e. outcome (pg_revoke E rv s) = Inl e" if "\<not> pg_accepts E (Revoke rv)"
    using pg_revoke_refines(2) [OF rep that] by (auto simp: outcome_def split: sum.splits prod.splits)
  show "\<exists>e. outcome (pg_unrevoke E now m v actor reason s) = Inl e" if "\<not> pg_accepts E (Unrevoke now m v actor reason)"
    using pg_unrevoke_refines(2) [OF rep that] by (auto simp: outcome_def split: sum.splits prod.splits)
  show "fst (pg_get E m v s) = spec_get regs m v" by (rule pg_get_eq [OF rep])
  show "\<exists>e. fst (pg_get_by_digest E d s) = Inl e" if "\<not> pg_text d"
    using pg_get_by_digest_eq [OF rep, of d] that by simp
  show "fst (pg_get_by_digest E d s) = Inr (spec_get_by_digest regs d)" if "pg_text d"
    using pg_get_by_digest_eq [OF rep, of d] that by simp
  show "fst (pg_list_versions E m s) = spec_list_versions regs m" by (rule pg_list_versions_eq [OF rep])
  show "case spec_append evs (Revoked rv) of Inl e \<Rightarrow> outcome (pg_revoke E rv s) = Inl e
     | Inr evs' \<Rightarrow> \<exists>s'. outcome (pg_revoke E rv s) = Inr s' \<and> pg_rep E s' regs evs'" if "pg_accepts E (Revoke rv)"
    using pg_revoke_refines(1) [OF rep that] by (auto simp: outcome_def split: sum.splits prod.splits)
  show "case spec_append evs (Unrevoked m v actor reason) of Inl e \<Rightarrow> outcome (pg_unrevoke E now m v actor reason s) = Inl e
     | Inr evs' \<Rightarrow> \<exists>s'. outcome (pg_unrevoke E now m v actor reason s) = Inr s' \<and> pg_rep E s' regs evs'"
    if "pg_accepts E (Unrevoke now m v actor reason)"
    using pg_unrevoke_refines(1) [OF rep that] by (auto simp: outcome_def split: sum.splits prod.splits)
  show "fst (pg_is_revoked E m v s) = spec_is_revoked evs m v" by (rule pg_is_revoked_eq [OF rep])
qed

section \<open>A client at work\<close>

fun pg_step :: "pg_env \<Rightarrow> pg_registry \<Rightarrow> reg_op \<Rightarrow> pg_registry" where
  "pg_step E s (Register r) = snd (pg_register E r s)"
| "pg_step E s (Revoke r) = snd (pg_revoke E r s)"
| "pg_step E s (Unrevoke now m v a reason) = snd (pg_unrevoke E now m v a reason s)"

definition pg_run :: "pg_env \<Rightarrow> pg_registry \<Rightarrow> reg_op list \<Rightarrow> pg_registry" where
  "pg_run E s ops = foldl (pg_step E) s ops"

lemma pg_step_refines:
  assumes "pg_rep E s regs evs"
  shows "pg_accepts E op \<Longrightarrow> spec_step (regs, evs) op = (regs', evs') \<Longrightarrow> pg_rep E (pg_step E s op) regs' evs'"
    and "\<not> pg_accepts E op \<Longrightarrow> pg_rep E (pg_step E s op) regs evs"
proof -
  show "pg_rep E (pg_step E s op) regs' evs'" if "pg_accepts E op" "spec_step (regs, evs) op = (regs', evs')"
    using that pg_register_refines(1) [OF assms] pg_revoke_refines(1) [OF assms] pg_unrevoke_refines(1) [OF assms]
    by (cases op) (fastforce split: sum.splits)+
  show "pg_rep E (pg_step E s op) regs evs" if "\<not> pg_accepts E op"
    using that pg_register_refines(2) [OF assms] pg_revoke_refines(2) [OF assms] pg_unrevoke_refines(2) [OF assms]
    by (cases op) auto
qed

lemma pg_run_refines:
  "pg_rep E s regs evs \<Longrightarrow> foldl spec_step (regs, evs) (filter (pg_accepts E) ops) = (regs', evs')
     \<Longrightarrow> pg_rep E (pg_run E s ops) regs' evs'"
  unfolding pg_run_def
proof (induction ops arbitrary: s regs evs)
  case (Cons op ops)
  show ?case
  proof (cases "pg_accepts E op")
    case True
    obtain r e where s: "spec_step (regs, evs) op = (r, e)" by fastforce
    show ?thesis using Cons.IH [OF pg_step_refines(1) [OF Cons.prems(1) True s]] Cons.prems(2) s True by simp
  next
    case False
    then show ?thesis using Cons.IH [OF pg_step_refines(2) [OF Cons.prems(1) False]] Cons.prems(2) by simp
  qed
qed simp

lemma pg_run_rep: "pg_rep E s regs evs \<Longrightarrow> \<exists>regs' evs'. pg_rep E (pg_run E s ops) regs' evs' \<and> prefix regs regs' \<and> prefix evs evs'"
  by (metis prod.collapse pg_run_refines spec_run_keeps)

definition new_database :: "pg_registry" where
  "new_database = \<lparr>pg_rows = [], pg_row_seq = 1, pg_events = [], pg_event_seq = 1, pg_schema = None,
     pg_fault = None, pg_schema_verified = False\<rparr>"

definition migrated :: "pg_env \<Rightarrow> pg_registry" where
  "migrated E = snd (migrate E new_database)"

lemma schema_verified_iff:
  "verify_schema E s = Inr () \<longleftrightarrow> (\<exists>table. pg_schema s = Some table \<and> table \<noteq> []
     \<and> Max (set (map fst table)) = latest_version (pe_migrations E) \<and> check_checksums E table = Inr ())"
  by (auto simp: verify_schema_def split: option.splits)

lemma no_downgrade_empty: "no_downgrade E []"
  by (simp add: no_downgrade_def check_checksums_def Let_def)

lemma migrated_rep:
  assumes "valid_release (pe_migrations E)" and "faithful_store E"
  shows "pg_rep E (migrated E) [] []"
proof -
  let ?table = "applied_table (pe_hash E) (pe_migrations E)"
  have m: "migrated E = new_database\<lparr>pg_schema := Some ?table\<rparr>"
    using migrate_eq [OF assms(1), of new_database "[]"] no_downgrade_empty [of E]
    by (simp add: migrated_def new_database_def)
  have "verify_schema E (migrated E) = Inr ()"
    using migrated_table [OF assms(1) no_downgrade_empty refl refl] by (simp add: schema_verified_iff m)
  then show ?thesis
    using assms(2) by (simp add: pg_rep_def ready_def m) (simp add: new_database_def wf_regs_def)
qed

text \<open>A revocation in the database is reported until an operation lifts it.\<close>

lemma pg_revocation_stays:
  assumes "pg_rep E s regs evs" and "pg_revoke E rv s = (Inr (), s')"
    and "\<forall>op \<in> set ops. \<forall>now a reason. op \<noteq> Unrevoke now (rv_model_id rv) (rv_version rv) a reason"
  shows "\<exists>rv'. fst (pg_is_revoked E (rv_model_id rv) (rv_version rv) (pg_run E s' ops)) = Inr (Some rv')"
proof -
  let ?last = "\<lambda>evs. find (\<lambda>e. event_key e = (rv_model_id rv, rv_version rv)) (rev evs)"
  have "pg_accepts E (Revoke rv)" using pg_revoke_refines(2) [OF assms(1), of rv] assms(2) by auto
  then obtain evs1 where a: "spec_append evs (Revoked rv) = Inr evs1" "pg_rep E s' regs evs1"
    using pg_revoke_refines(1) [OF assms(1), of rv] assms(2) by (auto split: sum.splits)
  have valid: "valid_identifier (rv_model_id rv)" "valid_identifier (rv_version rv)" and l: "?last evs1 = Some (Revoked rv)"
    using a(1) by (auto simp: spec_append_def checked_def split: if_splits)
  let ?ops = "filter (pg_accepts E) ops"
  obtain rv' where r: "?last (snd (foldl spec_step (regs, evs1) ?ops)) = Some (Revoked rv')"
    using spec_revocation_stays [OF l, of ?ops regs] assms(3) by auto
  have "pg_rep E (pg_run E s' ops) (fst (foldl spec_step (regs, evs1) ?ops)) (snd (foldl spec_step (regs, evs1) ?ops))"
    by (rule pg_run_refines [OF a(2)]) simp
  from pg_is_revoked_eq [OF this] show ?thesis using r valid by (simp add: spec_is_revoked_def checked_def)
qed

text \<open>A registry that cannot be used answers nothing.\<close>

lemma unusable_registry:
  assumes "\<not> ready E s"
  shows "\<exists>e. connected E True body s = (Inl e, s)"
  using assms by (auto simp: ready_def connected_def split: option.splits sum.splits)

lemma unusable_is_revoked:
  fixes s :: "pg_registry"
  assumes "\<not> ready E s"
  shows "\<exists>e. fst (pg_is_revoked E m v s) = Inl e"
proof -
  have "\<exists>e. fst (connected E True body s) = Inl e" for body :: "pg_registry \<Rightarrow> (exn + revocation_record option) \<times> pg_registry"
    using unusable_registry [OF assms, of body] by auto
  then show ?thesis by (simp add: pg_is_revoked_def split: sum.splits)
qed

section \<open>Properties\<close>

definition demo_env :: pg_env where
  "demo_env = \<lparr>pe_hash = sha256, pe_migrations = [\<lparr>mi_version = 1, mi_name = ''initial_registry'', mi_sql = ''create''\<rparr>],
     pe_jsonb = Some \<circ> canon, pe_libs = sample_libs\<rparr>"

lemma demo_env_facts: "valid_release (pe_migrations demo_env)" "faithful_store demo_env"
  by (simp_all add: demo_env_def valid_release_def faithful_store_def)

definition demo_digest :: string where
  "demo_digest = ''sha256:'' @ replicate 64 (CHR ''a'')"

lemma demo_digest_valid: "valid_record_digest demo_digest"
  by (simp add: demo_digest_def valid_record_digest_def is_sha256_hex_def is_lower_hex_def is_digit_def list_all_iff)

definition demo_record :: registry_record where
  "demo_record = (sample_registration ''demo'')\<lparr>rr_artifact_digest := demo_digest\<rparr>"

lemma demo_accepted: "list_all (pg_accepts demo_env) [Register demo_record, Revoke sample_revocation]"
  using demo_digest_valid sample_registration_valid [of "''demo''"]
  by (simp add: demo_record_def sample_revocation_def demo_env_def pg_text_def valid_record_def)
    (simp add: sample_registration_def)

text \<open>
  C19. The two registries are interchangeable: after the same operations, all of them
  ones the database accepts, a migrated PostgreSQL registry and a local one give the same answer to
  every query.
\<close>

theorem backends_agree:
  assumes "valid_release (pe_migrations E)" and "faithful_store E"
    and "list_all (pg_accepts E) ops" and "pg_text d"
  shows "fst (pg_get E m v (pg_run E (migrated E) ops)) = local_get L (local_run H ops) m v
    \<and> fst (pg_get_by_digest E d (pg_run E (migrated E) ops)) = local_get_by_digest L (local_run H ops) d
    \<and> fst (pg_list_versions E m (pg_run E (migrated E) ops)) = local_list_versions (local_run H ops) m
    \<and> fst (pg_is_revoked E m v (pg_run E (migrated E) ops)) = local_is_revoked (local_run H ops) m v"
proof -
  obtain regs evs where r: "foldl spec_step ([], []) ops = (regs, evs)" by fastforce
  have f: "filter (pg_accepts E) ops = ops" "filter local_accepts ops = ops"
    using assms(3) pg_accepts_valid by (auto simp: list_all_iff intro!: filter_True)
  then have p: "pg_rep E (pg_run E (migrated E) ops) regs evs"
    using pg_run_refines [OF migrated_rep [OF assms(1,2)], of ops] r by simp
  have l: "local_rep H (local_run H ops) regs evs" using r f(2) by (intro local_run_rep) simp
  show ?thesis
    using assms(4) pg.get_spec [OF p] pg.get_by_digest_spec [OF p] pg.list_versions_spec [OF p] pg.is_revoked_spec [OF p]
      local_reg.get_spec [OF l] local_reg.get_by_digest_spec [OF l TrueI] local_reg.list_versions_spec [OF l]
      local_reg.is_revoked_spec [OF l]
    by simp
qed

theorem backends_agree_witness:
  "fst (pg_is_revoked demo_env ''demo'' ''1'' (pg_run demo_env (migrated demo_env) [Register demo_record, Revoke sample_revocation]))
     = local_is_revoked (local_run sha256 [Register demo_record, Revoke sample_revocation]) ''demo'' ''1''"
  using backends_agree [OF demo_env_facts demo_accepted, of "''x''"] by (simp add: pg_text_def)



text \<open>
  A connection string is accepted only if every host it names is the local machine,
  the server is authenticated (\<open>verify-ca\<close> or \<open>verify-full\<close>), or the caller explicitly
  allowed insecure transport; and such strings are accepted.
\<close>

theorem dsn_accepted_exactly_when:
  "check_dsn parse dsn allow = Inr () \<longleftrightarrow>
     (\<exists>parts h. parse dsn = Some parts \<and> map_of parts ''host'' = Some h \<and> h \<noteq> []
        \<and> (list_all (\<lambda>w. py_strip w \<in> {''localhost'', ''127.0.0.1'', ''::1''} \<or> prefix ''/'' (py_strip w)) (split_on (CHR '','') h)
           \<or> allow \<or> map_of parts ''sslmode'' \<in> {Some ''verify-ca'', Some ''verify-full''}))"
  by (auto simp: check_dsn_def truthy_def Let_def filter_empty_conv is_remote_def local_hosts_def
      verifying_sslmodes_def list_all_iff split: option.splits)

text \<open>\<open>hostaddr\<close>, to which libpq connects when it is given, is not looked at.\<close>

lemma hostaddr_not_checked:
  assumes "parse dsn = Some parts" and "parse dsn' = Some ((''hostaddr'', a) # parts)"
  shows "check_dsn parse dsn' allow = check_dsn parse dsn allow"
  using assms by (simp add: check_dsn_def)

end
