(* ===== verification/Postgres_Concurrent.thy ===== *)
theory Postgres_Concurrent
  imports Postgres
begin

text \<open>
  Clients of one PostgreSQL registry at work at the same time.  A registration is an \<open>INSERT\<close> and a
  commit; a revocation takes the advisory lock, reads the last hash, inserts and commits, the lock
  being held to the end of the transaction.  The steps of different clients interleave freely,
  and any transaction can be cut off.  Other transactions see committed rows only; ids are drawn
  from the sequences when a row is inserted, not when it is committed.
\<close>

section \<open>Transactions\<close>

record event_args =
  ea_action :: string
  ea_model_id :: string
  ea_version :: string
  ea_actor :: string
  ea_reason :: string
  ea_revoked_at :: string

text \<open>How far a client's transaction has come.\<close>

datatype phase =
    Idle
  | Inserted_Row "pg_row"
  | Locked event_args
  | Has_Prev event_args string
  | Inserted_Event pg_event

fun in_revocation :: "phase \<Rightarrow> bool" where
  "in_revocation (Locked a) = True"
| "in_revocation (Has_Prev a p) = True"
| "in_revocation (Inserted_Event e) = True"
| "in_revocation _ = False"

text \<open>The committed state, the holder of the lock on revocations, every client's transaction.\<close>

record cluster =
  cl_db :: "pg_registry"
  cl_lock :: "nat option"
  cl_phase :: "nat \<Rightarrow> phase"

abbreviation row_key :: "pg_row \<Rightarrow> string \<times> string" where
  "row_key w \<equiv> (row_model_id w, row_version w)"

text \<open>An \<open>INSERT\<close> of a key another transaction has inserted waits for that transaction to end.\<close>

definition key_in_flight :: "cluster \<Rightarrow> string \<times> string \<Rightarrow> bool" where
  "key_in_flight k key \<longleftrightarrow> (\<exists>c w. cl_phase k c = Inserted_Row w \<and> row_key w = key)"

definition insert_for :: "pg_env \<Rightarrow> string \<Rightarrow> event_args \<Rightarrow> pg_registry \<Rightarrow> (exn + unit) \<times> pg_registry" where
  "insert_for E prev a = insert_event_after E prev (ea_action a) (ea_model_id a) (ea_version a) (ea_actor a)
     (ea_reason a) (ea_revoked_at a)"

inductive tx_step :: "pg_env \<Rightarrow> cluster \<Rightarrow> cluster \<Rightarrow> bool" for E where
  Insert_Row: "cl_phase k c = Idle \<Longrightarrow> \<not> key_in_flight k (record_key r) \<Longrightarrow>
     pg_insert_row E r (cl_db k) = (Inr (), db) \<Longrightarrow>
     tx_step E k (k\<lparr>cl_db := (cl_db k)\<lparr>pg_row_seq := pg_row_seq db\<rparr>,
                    cl_phase := (cl_phase k)(c := Inserted_Row (last (pg_rows db)))\<rparr>)"
| Insert_Row_Fails: "cl_phase k c = Idle \<Longrightarrow> \<not> key_in_flight k (record_key r) \<Longrightarrow>
     pg_insert_row E r (cl_db k) = (Inl e, db) \<Longrightarrow> tx_step E k (k\<lparr>cl_db := db\<rparr>)"
| Commit_Row: "cl_phase k c = Inserted_Row w \<Longrightarrow>
     tx_step E k (k\<lparr>cl_db := (cl_db k)\<lparr>pg_rows := pg_rows (cl_db k) @ [w]\<rparr>, cl_phase := (cl_phase k)(c := Idle)\<rparr>)"
| Lock: "cl_phase k c = Idle \<Longrightarrow> cl_lock k = None \<Longrightarrow>
     tx_step E k (k\<lparr>cl_lock := Some c, cl_phase := (cl_phase k)(c := Locked a)\<rparr>)"
| Read: "cl_phase k c = Locked a \<Longrightarrow>
     tx_step E k (k\<lparr>cl_phase := (cl_phase k)(c := Has_Prev a (last_hash (pg_events (cl_db k))))\<rparr>)"
| Insert_Event: "cl_phase k c = Has_Prev a prev \<Longrightarrow> insert_for E prev a (cl_db k) = (Inr (), db) \<Longrightarrow>
     tx_step E k (k\<lparr>cl_db := (cl_db k)\<lparr>pg_event_seq := pg_event_seq db\<rparr>,
                    cl_phase := (cl_phase k)(c := Inserted_Event (last (pg_events db)))\<rparr>)"
| Insert_Event_Fails: "cl_phase k c = Has_Prev a prev \<Longrightarrow> insert_for E prev a (cl_db k) = (Inl e, db) \<Longrightarrow>
     tx_step E k (k\<lparr>cl_db := db, cl_lock := None, cl_phase := (cl_phase k)(c := Idle)\<rparr>)"
| Commit_Event: "cl_phase k c = Inserted_Event e \<Longrightarrow>
     tx_step E k (k\<lparr>cl_db := (cl_db k)\<lparr>pg_events := pg_events (cl_db k) @ [e]\<rparr>, cl_lock := None,
                    cl_phase := (cl_phase k)(c := Idle)\<rparr>)"
| Cut_Off_Row: "cl_phase k c = Inserted_Row w \<Longrightarrow> tx_step E k (k\<lparr>cl_phase := (cl_phase k)(c := Idle)\<rparr>)"
| Cut_Off_Event: "in_revocation (cl_phase k c) \<Longrightarrow>
     tx_step E k (k\<lparr>cl_lock := None, cl_phase := (cl_phase k)(c := Idle)\<rparr>)"

definition idle_cluster :: "pg_registry \<Rightarrow> cluster" where
  "idle_cluster db = \<lparr>cl_db = db, cl_lock = None, cl_phase = (\<lambda>_. Idle)\<rparr>"

abbreviation tx_steps :: "pg_env \<Rightarrow> cluster \<Rightarrow> cluster \<Rightarrow> bool" where
  "tx_steps E \<equiv> (tx_step E)\<^sup>*\<^sup>*"

section \<open>What an insertion does\<close>

lemma pg_insert_row_Inr:
  assumes "pg_insert_row E r s = (Inr (), s')"
  obtains w where "s' = s\<lparr>pg_row_seq := Suc (pg_row_seq s), pg_rows := pg_rows s @ [w]\<rparr>"
    and "row_id w = pg_row_seq s" and "row_key w = record_key r" and "row_digest w = rr_artifact_digest r"
    and "row_key w \<notin> row_key ` set (pg_rows s)"
  using assms by (fastforce simp: pg_insert_row_def Let_def list_ex_iff image_iff split: option.splits if_splits)

lemma pg_insert_row_Inl:
  "pg_insert_row E r s = (Inl e, s') \<Longrightarrow> s' = s \<or> s' = s\<lparr>pg_row_seq := Suc (pg_row_seq s)\<rparr>"
  by (auto simp: pg_insert_row_def Let_def split: option.splits if_splits)

lemma insert_for_Inr:
  assumes "insert_for E prev a s = (Inr (), s')"
  obtains e where "s' = s\<lparr>pg_event_seq := Suc (pg_event_seq s), pg_events := pg_events s @ [e]\<rparr>"
    and "e = new_event (pe_hash E) (pg_event_seq s) prev (ea_action a) (ea_model_id a) (ea_version a) (ea_actor a)
      (ea_reason a) (ea_revoked_at a)"
  using assms by (auto simp: insert_for_def insert_event_after_def Let_def split: if_splits)

lemma insert_for_Inl:
  "insert_for E prev a s = (Inl e, s') \<Longrightarrow> s' = s \<or> s' = s\<lparr>pg_event_seq := Suc (pg_event_seq s)\<rparr>"
  by (auto simp: insert_for_def insert_event_after_def Let_def split: if_splits)

section \<open>Revocation events\<close>

text \<open>A list of events that is numbered by the sequence and chained.\<close>

definition good_events :: "pg_env \<Rightarrow> nat \<Rightarrow> pg_event list \<Rightarrow> bool" where
  "good_events E n es \<longleftrightarrow> numbered ev_id n es \<and> verify_events (pe_hash E) genesis_hash 0 es = Inr ()"

lemma good_events_new:
  "good_events E n es \<Longrightarrow> good_events E (Suc n) (es @ [new_event (pe_hash E) n (last_hash es) act m v actor q at])"
  using new_event_chained [of n es "pe_hash E"] by (simp add: good_events_def numbered_snoc new_event_def)

lemma good_events_Suc: "good_events E n es \<Longrightarrow> good_events E (Suc n) es"
  by (simp add: good_events_def numbered_Suc)

text \<open>Only the holder of the lock is in a revocation, and what it has read or inserted continues the chain.\<close>

definition chain_inv :: "pg_env \<Rightarrow> cluster \<Rightarrow> bool" where
  "chain_inv E k \<longleftrightarrow> good_events E (pg_event_seq (cl_db k)) (pg_events (cl_db k))
     \<and> (\<forall>c. in_revocation (cl_phase k c) \<longrightarrow> cl_lock k = Some c)
     \<and> (\<forall>c a p. cl_phase k c = Has_Prev a p \<longrightarrow> p = last_hash (pg_events (cl_db k)))
     \<and> (\<forall>c e. cl_phase k c = Inserted_Event e \<longrightarrow>
          good_events E (pg_event_seq (cl_db k)) (pg_events (cl_db k) @ [e]))"

lemma holder_unique:
  "chain_inv E k \<Longrightarrow> in_revocation (cl_phase k c) \<Longrightarrow> in_revocation (cl_phase k c') \<Longrightarrow> c' = c"
  unfolding chain_inv_def by (metis option.inject)

lemma chain_inv_step:
  assumes "tx_step E k k'" and "chain_inv E k"
  shows "chain_inv E k'"
  using assms(1)
proof cases
  case (Insert_Row c r db)
  then show ?thesis using assms(2) by (auto simp: chain_inv_def split: if_splits elim!: pg_insert_row_Inr)
next
  case (Insert_Row_Fails c r e db)
  then show ?thesis using assms(2) pg_insert_row_Inl [OF Insert_Row_Fails(4)] by (auto simp: chain_inv_def)
next
  case (Insert_Event c a prev db)
  then obtain e where db: "db = (cl_db k)\<lparr>pg_event_seq := Suc (pg_event_seq (cl_db k)), pg_events := pg_events (cl_db k) @ [e]\<rparr>"
    and e: "e = new_event (pe_hash E) (pg_event_seq (cl_db k)) prev (ea_action a) (ea_model_id a) (ea_version a)
      (ea_actor a) (ea_reason a) (ea_revoked_at a)"
    by (auto elim: insert_for_Inr)
  have "prev = last_hash (pg_events (cl_db k))" using assms(2) Insert_Event(2) by (auto simp: chain_inv_def)
  then have "good_events E (Suc (pg_event_seq (cl_db k))) (pg_events (cl_db k) @ [e])"
    using assms(2) unfolding e by (auto simp: chain_inv_def intro: good_events_new)
  then show ?thesis
    using assms(2) Insert_Event holder_unique [OF assms(2), of c] db
    by (auto simp: chain_inv_def good_events_Suc split: if_splits)
next
  case (Insert_Event_Fails c a prev e db)
  then show ?thesis
    using assms(2) insert_for_Inl [OF Insert_Event_Fails(3)] holder_unique [OF assms(2), of c]
    by (auto simp: chain_inv_def good_events_Suc split: if_splits)
qed (use assms(2) holder_unique [OF assms(2)] in \<open>auto simp: chain_inv_def split: if_splits\<close>)

lemma chain_inv_steps:
  "tx_steps E k k' \<Longrightarrow> chain_inv E k \<Longrightarrow> chain_inv E k'"
  by (induction rule: rtranclp_induct) (auto intro: chain_inv_step)

lemma good_events_chain:
  assumes "good_events E n (pg_events s)" and "pg_fault s = None" and "pg_schema_verified s"
  shows "fst (verify_revocation_chain E s) = Inr ()"
  using assms numbered_sort [of ev_id n "pg_events s"]
  by (auto simp: verify_revocation_chain_def connected_def good_events_def in_id_order_def)

lemma tx_steps_connection:
  "tx_steps E k k' \<Longrightarrow> pg_fault (cl_db k') = pg_fault (cl_db k) \<and> pg_schema_verified (cl_db k') = pg_schema_verified (cl_db k)"
proof (induction rule: rtranclp_induct)
  case (step k1 k2)
  from step(2) have "pg_fault (cl_db k2) = pg_fault (cl_db k1) \<and> pg_schema_verified (cl_db k2) = pg_schema_verified (cl_db k1)"
    by cases (auto dest: pg_insert_row_Inl insert_for_Inl)
  then show ?case using step(3) by simp
qed simp

section \<open>Rows\<close>

text \<open>
  Committed rows and the rows in flight have different ids, all drawn already, and different
  keys.
\<close>

definition rows_inv :: "cluster \<Rightarrow> bool" where
  "rows_inv k \<longleftrightarrow> distinct (map row_id (pg_rows (cl_db k))) \<and> distinct (map row_key (pg_rows (cl_db k)))
     \<and> (\<forall>w \<in> set (pg_rows (cl_db k)). row_id w < pg_row_seq (cl_db k))
     \<and> (\<forall>c w. cl_phase k c = Inserted_Row w \<longrightarrow> row_id w < pg_row_seq (cl_db k)
          \<and> row_id w \<notin> row_id ` set (pg_rows (cl_db k)) \<and> row_key w \<notin> row_key ` set (pg_rows (cl_db k)))
     \<and> (\<forall>c c' w w'. cl_phase k c = Inserted_Row w \<longrightarrow> cl_phase k c' = Inserted_Row w' \<longrightarrow> c \<noteq> c' \<longrightarrow>
          row_id w \<noteq> row_id w' \<and> row_key w \<noteq> row_key w')"

lemma rows_inv_step:
  assumes "tx_step E k k'" and "rows_inv k"
  shows "rows_inv k'"
  using assms(1)
proof cases
  case (Insert_Row c r db)
  then obtain w where db: "db = (cl_db k)\<lparr>pg_row_seq := Suc (pg_row_seq (cl_db k)), pg_rows := pg_rows (cl_db k) @ [w]\<rparr>"
    and w: "row_id w = pg_row_seq (cl_db k)" "row_key w = record_key r" "row_key w \<notin> row_key ` set (pg_rows (cl_db k))"
    by (auto elim!: pg_insert_row_Inr)
  have "row_key w' \<noteq> row_key w" if "cl_phase k c' = Inserted_Row w'" for c' w'
    using Insert_Row(3) that w(2) by (auto simp: key_in_flight_def)
  then show ?thesis
    using assms(2) w Insert_Row(1,2) db
    by (fastforce simp: rows_inv_def less_Suc_eq split: if_splits)
next
  case (Insert_Row_Fails c r e db)
  then show ?thesis using assms(2) pg_insert_row_Inl [OF Insert_Row_Fails(4)] by (fastforce simp: rows_inv_def)
next
  case (Insert_Event_Fails c a prev e db)
  then show ?thesis using assms(2) insert_for_Inl [OF Insert_Event_Fails(3)] by (fastforce simp: rows_inv_def split: if_splits)
qed (use assms(2) in \<open>fastforce simp: rows_inv_def split: if_splits\<close>)+

lemma rows_inv_steps: "tx_steps E k k' \<Longrightarrow> rows_inv k \<Longrightarrow> rows_inv k'"
  by (induction rule: rtranclp_induct) (auto intro: rows_inv_step)

text \<open>The row a key or a digest resolves to.\<close>

lemma first_with_digest_iff:
  assumes "distinct (map row_id rows)"
  shows "first_with_digest rows d = Some w \<longleftrightarrow>
    w \<in> set rows \<and> row_digest w = d \<and> (\<forall>w' \<in> set rows. row_digest w' = d \<longrightarrow> row_id w \<le> row_id w')"
proof -
  let ?s = "sort_key row_id rows"
  have s: "sorted (map row_id ?s)" "distinct (map row_id ?s)" "set ?s = set rows" using assms by simp_all
  have "find P xs = Some w \<longleftrightarrow> w \<in> set xs \<and> P w \<and> (\<forall>w' \<in> set xs. P w' \<longrightarrow> row_id w \<le> row_id w')"
    if "sorted (map row_id xs)" "distinct (map row_id xs)" for P xs
    using that
  proof (induction xs)
    case (Cons x xs)
    then show ?case by (cases "P x") (auto simp: image_iff intro: le_antisym)
  qed simp
  from this [OF s(1,2), of "\<lambda>w. row_digest w = d"] show ?thesis unfolding first_with_digest_def s(3) .
qed

text \<open>A key keeps its row: rows are only added.\<close>

lemma rows_grow:
  "tx_steps E k k' \<Longrightarrow> prefix (pg_rows (cl_db k)) (pg_rows (cl_db k'))"
proof (induction rule: rtranclp_induct)
  case (step k1 k2)
  from step(2) have "prefix (pg_rows (cl_db k1)) (pg_rows (cl_db k2))"
    by cases (auto dest: pg_insert_row_Inl insert_for_Inl)
  then show ?case using step(3) prefix_order.trans by blast
qed simp

text \<open>A digest keeps its row if no transaction in flight holds an earlier id for it.\<close>

definition settled :: "cluster \<Rightarrow> string \<Rightarrow> pg_row \<Rightarrow> bool" where
  "settled k d w \<longleftrightarrow> first_with_digest (pg_rows (cl_db k)) d = Some w
     \<and> (\<forall>c w'. cl_phase k c = Inserted_Row w' \<longrightarrow> row_digest w' = d \<longrightarrow> row_id w \<le> row_id w')"

lemma settled_step:
  assumes "tx_step E k k'" and "rows_inv k" and "settled k d w"
  shows "settled k' d w"
proof -
  have inv: "rows_inv k'" by (rule rows_inv_step [OF assms(1,2)])
  then have d: "distinct (map row_id (pg_rows (cl_db k)))" "distinct (map row_id (pg_rows (cl_db k')))"
    using assms(2) by (auto simp: rows_inv_def)
  have w: "w \<in> set (pg_rows (cl_db k))" "row_digest w = d"
      "\<And>w'. w' \<in> set (pg_rows (cl_db k)) \<Longrightarrow> row_digest w' = d \<Longrightarrow> row_id w \<le> row_id w'"
      "\<And>c w'. cl_phase k c = Inserted_Row w' \<Longrightarrow> row_digest w' = d \<Longrightarrow> row_id w \<le> row_id w'"
    using assms(3) unfolding settled_def first_with_digest_iff [OF d(1)] by auto
  have seq: "row_id w < pg_row_seq (cl_db k)" using assms(2) w(1) by (auto simp: rows_inv_def)
  from assms(1) show ?thesis
  proof cases
    case (Insert_Row c r db)
    then obtain v where db: "db = (cl_db k)\<lparr>pg_row_seq := Suc (pg_row_seq (cl_db k)), pg_rows := pg_rows (cl_db k) @ [v]\<rparr>"
      and v: "row_id v = pg_row_seq (cl_db k)" by (auto elim!: pg_insert_row_Inr)
    show ?thesis unfolding settled_def first_with_digest_iff [OF d(2)]
      using w seq Insert_Row(1) db v by (auto split: if_splits)
  next
    case (Insert_Row_Fails c r e db)
    then show ?thesis unfolding settled_def first_with_digest_iff [OF d(2)]
      using w pg_insert_row_Inl [OF Insert_Row_Fails(4)] by auto
  next
    case (Insert_Event_Fails c a prev e db)
    then show ?thesis unfolding settled_def first_with_digest_iff [OF d(2)]
      using w insert_for_Inl [OF Insert_Event_Fails(3)] by (auto split: if_splits)
  qed (unfold settled_def first_with_digest_iff [OF d(2)], use w in \<open>auto split: if_splits\<close>)
qed

lemma settled_steps: "tx_steps E k k' \<Longrightarrow> rows_inv k \<and> settled k d w \<Longrightarrow> rows_inv k' \<and> settled k' d w"
  by (induction rule: rtranclp_induct) (auto intro: rows_inv_step settled_step)

section \<open>An uninterrupted transaction is the operation\<close>

lemma tx_register:
  assumes "cl_phase k c = Idle" and "\<not> key_in_flight k (record_key r)"
    and "pg_insert_row E r (cl_db k) = (Inr (), db)"
  shows "tx_steps E k (k\<lparr>cl_db := db\<rparr>)"
proof -
  obtain w where db: "db = (cl_db k)\<lparr>pg_row_seq := Suc (pg_row_seq (cl_db k)), pg_rows := pg_rows (cl_db k) @ [w]\<rparr>"
    by (rule pg_insert_row_Inr [OF assms(3)])
  let ?k1 = "k\<lparr>cl_db := (cl_db k)\<lparr>pg_row_seq := pg_row_seq db\<rparr>, cl_phase := (cl_phase k)(c := Inserted_Row (last (pg_rows db)))\<rparr>"
  have "tx_step E k ?k1" by (rule Insert_Row [OF assms])
  moreover have "tx_step E ?k1 (?k1\<lparr>cl_db := (cl_db ?k1)\<lparr>pg_rows := pg_rows (cl_db ?k1) @ [last (pg_rows db)]\<rparr>,
      cl_phase := (cl_phase ?k1)(c := Idle)\<rparr>)"
    by (rule Commit_Row) simp
  moreover have "?k1\<lparr>cl_db := (cl_db ?k1)\<lparr>pg_rows := pg_rows (cl_db ?k1) @ [last (pg_rows db)]\<rparr>,
      cl_phase := (cl_phase ?k1)(c := Idle)\<rparr> = k\<lparr>cl_db := db\<rparr>"
    using assms(1) by (simp add: db fun_upd_idem)
  ultimately show ?thesis by (metis r_into_rtranclp rtranclp.rtrancl_into_rtrancl)
qed

lemma tx_append:
  assumes "cl_phase k c = Idle" and "cl_lock k = None"
    and "insert_for E (last_hash (pg_events (cl_db k))) a (cl_db k) = (Inr (), db)"
  shows "tx_steps E k (k\<lparr>cl_db := db\<rparr>)"
proof -
  let ?prev = "last_hash (pg_events (cl_db k))"
  obtain e where db: "db = (cl_db k)\<lparr>pg_event_seq := Suc (pg_event_seq (cl_db k)), pg_events := pg_events (cl_db k) @ [e]\<rparr>"
    by (rule insert_for_Inr [OF assms(3)])
  have unlocked: "k\<lparr>cl_db := x, cl_lock := None\<rparr> = k\<lparr>cl_db := x\<rparr>" for x using assms(2) by (cases k) simp
  let ?k1 = "k\<lparr>cl_lock := Some c, cl_phase := (cl_phase k)(c := Locked a)\<rparr>"
  let ?k2 = "?k1\<lparr>cl_phase := (cl_phase ?k1)(c := Has_Prev a ?prev)\<rparr>"
  let ?k3 = "?k2\<lparr>cl_db := (cl_db ?k2)\<lparr>pg_event_seq := pg_event_seq db\<rparr>,
    cl_phase := (cl_phase ?k2)(c := Inserted_Event (last (pg_events db)))\<rparr>"
  have s1: "tx_step E k ?k1" by (rule Lock [OF assms(1,2)])
  have s2: "tx_step E ?k1 ?k2" using Read [of ?k1 c a E] by simp
  have s3: "tx_step E ?k2 ?k3" by (rule Insert_Event) (use assms(3) in auto)
  have s4: "tx_step E ?k3 (k\<lparr>cl_db := db\<rparr>)"
    using Commit_Event [of ?k3 c e E] assms(1) unlocked by (simp add: db fun_upd_idem)
  show ?thesis
    by (rule converse_rtranclp_into_rtranclp [OF s1 converse_rtranclp_into_rtranclp [OF s2
          converse_rtranclp_into_rtranclp [OF s3 r_into_rtranclp [of "tx_step E", OF s4]]]])
qed

section \<open>Properties\<close>

lemma idle_invariants:
  assumes "pg_rep E s regs evs"
  shows "chain_inv E (idle_cluster s)"
  using assms by (simp add: chain_inv_def idle_cluster_def good_events_def pg_rep_def)

text \<open>
  C20. However the transactions of any number of clients interleave and wherever they are cut
  off, the revocation chain in the database verifies: the advisory lock keeps concurrent writers
  from forking it.
\<close>

theorem chain_verifies_concurrently:
  assumes "pg_rep E s regs evs" and "pg_schema_verified s" and "tx_steps E (idle_cluster s) k"
  shows "fst (verify_revocation_chain E (cl_db k)) = Inr ()"
proof -
  have "chain_inv E k" by (rule chain_inv_steps [OF assms(3) idle_invariants [OF assms(1)]])
  moreover have "pg_fault (cl_db k) = None \<and> pg_schema_verified (cl_db k)"
    using tx_steps_connection [OF assms(3)] assms(1,2) by (simp add: idle_cluster_def pg_rep_def ready_def)
  ultimately show ?thesis using good_events_chain by (auto simp: chain_inv_def)
qed

definition demo_database :: "pg_registry" where
  "demo_database = (migrated demo_env)\<lparr>pg_schema_verified := True\<rparr>"

lemma demo_database_rep: "pg_rep demo_env demo_database [] []"
  unfolding demo_database_def by (rule pg_rep_client [OF migrated_rep [OF demo_env_facts]])

definition demo_args :: event_args where
  "demo_args = \<lparr>ea_action = ''revoke'', ea_model_id = ''demo'', ea_version = ''1'', ea_actor = ''sec'',
     ea_reason = ''bad'', ea_revoked_at = ''t''\<rparr>"

theorem chain_verifies_concurrently_witness:
  "\<exists>k. tx_steps demo_env (idle_cluster demo_database) k \<and> pg_events (cl_db k) \<noteq> []
     \<and> fst (verify_revocation_chain demo_env (cl_db k)) = Inr ()"
proof -
  let ?k = "idle_cluster demo_database"
  let ?db = "snd (insert_for demo_env (last_hash (pg_events demo_database)) demo_args demo_database)"
  have i: "insert_for demo_env (last_hash (pg_events demo_database)) demo_args demo_database = (Inr (), ?db)"
    by (simp add: insert_for_def insert_event_after_def demo_args_def pg_text_def Let_def)
  have s: "tx_steps demo_env ?k (?k\<lparr>cl_db := ?db\<rparr>)"
    by (rule tx_append) (use i in \<open>simp_all add: idle_cluster_def\<close>)
  moreover have "pg_events ?db \<noteq> []" by (rule insert_for_Inr [OF i]) simp
  moreover have "fst (verify_revocation_chain demo_env (cl_db (?k\<lparr>cl_db := ?db\<rparr>))) = Inr ()"
    by (rule chain_verifies_concurrently [OF demo_database_rep _ s]) (simp add: demo_database_def)
  ultimately show ?thesis by auto
qed

text \<open>Two registrations of the same bytes, as \<open>demo\<close> by client 0 and as \<open>copy\<close> by client 1.\<close>

definition named_record :: "string \<Rightarrow> registry_record" where
  "named_record name = demo_record\<lparr>rr_model_id := name\<rparr>"

definition named_row :: "nat \<Rightarrow> string \<Rightarrow> pg_row" where
  "named_row i name = \<lparr>row_id = i, row_model_id = name, row_version = ''1'', row_digest = demo_digest,
     row_record = canon (with_nulls (record_fields (named_record name))), row_registered_by = ''ci''\<rparr>"

definition rows_database :: "nat \<Rightarrow> pg_row list \<Rightarrow> pg_registry" where
  "rows_database n rows = demo_database\<lparr>pg_row_seq := n, pg_rows := rows\<rparr>"

lemma named_record_simps [simp]:
  "rr_model_id (named_record name) = name" "rr_version (named_record name) = ''1''"
  "rr_artifact_digest (named_record name) = demo_digest" "rr_registered_by (named_record name) = ''ci''"
  "record_dump (named_record name) = Some (with_nulls (record_fields (named_record name)))"
  using sample_registration_valid [of "''demo''"] demo_digest_valid
  by (simp_all add: record_dump_def valid_record_def named_record_def demo_record_def) (simp_all add: sample_registration_def)

definition race :: "nat \<Rightarrow> pg_row list \<Rightarrow> phase \<Rightarrow> phase
    \<Rightarrow> cluster" where
  "race n rows p0 p1 = \<lparr>cl_db = rows_database n rows, cl_lock = None, cl_phase = (\<lambda>_. Idle)(0 := p0, 1 := p1)\<rparr>"

lemma race_phase: "cl_phase (race n rows p0 p1) c = (if c = 0 then p0 else if c = 1 then p1 else Idle)"
  by (simp add: race_def)

lemma insert_named:
  assumes "name \<noteq> []" and "length name \<le> 200" and "pg_text name" and "(name, ''1'') \<notin> row_key ` set rows"
  shows "pg_insert_row demo_env (named_record name) (rows_database n rows)
    = (Inr (), rows_database (Suc n) (rows @ [named_row n name]))"
proof -
  have "\<not> list_ex (\<lambda>w. row_model_id w = name \<and> row_version w = ''1'') rows"
    using assms(4) by (force simp: list_ex_iff)
  then show ?thesis
    using assms(1-3) demo_digest_valid record_digest_text [OF demo_digest_valid]
    by (simp add: pg_insert_row_def rows_database_def named_row_def demo_env_def pg_text_def Suc_le_eq)
qed

lemma rows_database_simps [simp]:
  "pg_row_seq (rows_database n rows) = n" "pg_rows (rows_database n rows) = rows"
  "(rows_database n rows)\<lparr>pg_row_seq := m\<rparr> = rows_database m rows"
  "(rows_database n rows)\<lparr>pg_rows := rows'\<rparr> = rows_database n rows'"
  by (simp_all add: rows_database_def)

lemma race_simps [simp]:
  "cl_db (race n rows p0 p1) = rows_database n rows"
  "(race n rows p0 p1)\<lparr>cl_db := rows_database m rows', cl_phase := (cl_phase (race n rows p0 p1))(0 := q)\<rparr> = race m rows' q p1"
  "(race n rows p0 p1)\<lparr>cl_db := rows_database m rows', cl_phase := (cl_phase (race n rows p0 p1))(Suc 0 := q)\<rparr> = race m rows' p0 q"
  by (auto simp: race_def fun_upd_def)

lemma race_insert_0:
  assumes "name \<noteq> []" and "length name \<le> 200" and "pg_text name"
  shows "tx_step demo_env (race n [] Idle Idle) (race (Suc n) [] (Inserted_Row (named_row n name)) Idle)"
  using Insert_Row [of "race n [] Idle Idle" 0 "named_record name" demo_env "rows_database (Suc n) [named_row n name]"]
    insert_named [OF assms, of "[]" n]
  by (simp add: race_phase key_in_flight_def)

lemma race_insert_1:
  assumes "name \<noteq> []" and "length name \<le> 200" and "pg_text name" and "row_model_id w \<noteq> name"
  shows "tx_step demo_env (race n [] (Inserted_Row w) Idle)
    (race (Suc n) [] (Inserted_Row w) (Inserted_Row (named_row n name)))"
  using Insert_Row [of "race n [] (Inserted_Row w) Idle" 1 "named_record name" demo_env
      "rows_database (Suc n) [named_row n name]"]
    insert_named [OF assms(1-3), of "[]" n] assms(4)
  by (auto simp: race_phase key_in_flight_def named_record_def split: if_splits)

lemma race_commit:
  "tx_step demo_env (race n rows (Inserted_Row w) p1) (race n (rows @ [w]) Idle p1)"
  "tx_step demo_env (race n rows p0 (Inserted_Row w)) (race n (rows @ [w]) p0 Idle)"
  using Commit_Row [of "race n rows (Inserted_Row w) p1" 0 w demo_env]
    Commit_Row [of "race n rows p0 (Inserted_Row w)" "Suc 0" w demo_env]
  by (simp_all add: race_phase)

lemma named_row_simps [simp]:
  "row_digest (named_row i name) = demo_digest" "row_id (named_row i name) = i" "row_model_id (named_row i name) = name"
  by (simp_all add: named_row_def)

lemma named_row_record [simp]: "row_to_record demo_env (named_row i name) = Inr (named_record name)"
  using record_reads [OF named_record_simps(5), of "canon (with_nulls (record_fields (named_record name)))" name "pe_libs demo_env"]
  by (simp add: row_to_record_def named_row_def)

lemma rows_database_digest:
  "fst (pg_get_by_digest demo_env demo_digest (rows_database n rows))
     = optional_record demo_env (first_with_digest rows demo_digest)"
  using record_digest_text [OF demo_digest_valid] demo_database_rep
  by (simp add: pg_get_by_digest_def connected_def rows_database_def pg_rep_def ready_def demo_database_def)

lemma demo_rows: "pg_rows demo_database = []"
  using demo_database_rep by (simp add: pg_rep_def)

lemma demo_start: "idle_cluster demo_database = race (pg_row_seq demo_database) [] Idle Idle"
  using demo_rows by (auto simp: idle_cluster_def race_def rows_database_def fun_upd_def)

text \<open>
  C22. \<open>get_by_digest\<close> promises that registering identical bytes under another name never
  repoints an identity.  With registrations that overlap it does: ids are drawn at insertion, so
  a registration that commits late with a smaller id takes a digest over that already
  resolved to another model.
\<close>

theorem late_commit_repoints_digest:
  "\<exists>k k' r r'. tx_steps demo_env (idle_cluster demo_database) k \<and> tx_steps demo_env k k' \<and> rr_model_id r \<noteq> rr_model_id r'
     \<and> fst (pg_get_by_digest demo_env demo_digest (cl_db k)) = Inr (Some r)
     \<and> fst (pg_get_by_digest demo_env demo_digest (cl_db k')) = Inr (Some r')"
proof (intro exI conjI)
  let ?n = "pg_row_seq demo_database"
  let ?w = "named_row ?n ''demo''" and ?w' = "named_row (Suc ?n) ''copy''"
  let ?k = "race (Suc (Suc ?n)) [?w'] (Inserted_Row ?w) Idle"
  let ?k' = "race (Suc (Suc ?n)) [?w', ?w] Idle Idle"
  have "tx_step demo_env (race ?n [] Idle Idle) (race (Suc ?n) [] (Inserted_Row ?w) Idle)"
    by (rule race_insert_0) (simp_all add: pg_text_def)
  moreover have "tx_step demo_env (race (Suc ?n) [] (Inserted_Row ?w) Idle)
      (race (Suc (Suc ?n)) [] (Inserted_Row ?w) (Inserted_Row ?w'))"
    by (rule race_insert_1) (simp_all add: pg_text_def named_row_def)
  moreover have "tx_step demo_env (race (Suc (Suc ?n)) [] (Inserted_Row ?w) (Inserted_Row ?w')) ?k"
    using race_commit(2) [of _ "[]"] by simp
  ultimately show "tx_steps demo_env (idle_cluster demo_database) ?k"
    unfolding demo_start by (meson r_into_rtranclp rtranclp.rtrancl_into_rtrancl)
  show "tx_steps demo_env ?k ?k'" using race_commit(1) [of _ "[?w']"] by (simp add: r_into_rtranclp)
  show "fst (pg_get_by_digest demo_env demo_digest (cl_db ?k)) = Inr (Some (named_record ''copy''))"
    by (simp add: rows_database_digest first_with_digest_def optional_record_def)
  show "fst (pg_get_by_digest demo_env demo_digest (cl_db ?k')) = Inr (Some (named_record ''demo''))"
    by (simp add: rows_database_digest first_with_digest_def optional_record_def)
  show "rr_model_id (named_record ''copy'') \<noteq> rr_model_id (named_record ''demo'')"
    by (simp add: named_record_def)
qed



end
