(* ===== verification/Postgres_Admission.thy ===== *)
theory Postgres_Admission
  imports Admission Postgres
begin

text \<open>
  The PostgreSQL registry injected into a \<open>ModelGuard\<close>: what it answers, or that it does not answer,
  reaches admission.
\<close>

definition postgres_ops :: "pg_env \<Rightarrow> pg_registry registry_ops" where
  "postgres_ops E =
     \<lparr>ro_register = \<lambda>s r. outcome (pg_register E r s), ro_get = \<lambda>s m v. fst (pg_get E m v s),
      ro_get_by_digest = \<lambda>s d. fst (pg_get_by_digest E d s), ro_list_versions = \<lambda>s m. fst (pg_list_versions E m s),
      ro_revoke = \<lambda>s r. outcome (pg_revoke E r s), ro_is_revoked = \<lambda>s m v. fst (pg_is_revoked E m v s)\<rparr>"

lemma postgres_revocation_check:
  assumes "mg_injected g = Some s" and "sp_model_id payload = Some m" and "sp_version payload = Some v"
    and "m \<noteq> []" and "v \<noteq> []"
  shows "revocation_check (postgres_ops E) g payload =
    (case fst (pg_is_revoked E m v s) of Inl e \<Rightarrow> Inl e | Inr r \<Rightarrow> Inr (True, r))"
  using assms by (simp add: revocation_check_def has_registry_def on_registry_def postgres_ops_def)

text \<open>
  C21. An outage never passes for \<open>not revoked\<close>: while the database cannot be used (no connection, a schema
  that is missing, older, newer or altered), no artifact signed as a named version is admitted, under any
  policy.
\<close>

theorem outage_not_admitted:
  assumes "mg_injected g = Some s" and "\<not> ready E s" and "load_envelope signature_file = Inr env"
    and "truthy (sp_model_id (se_payload env))" and "truthy (sp_version (se_payload env))"
  shows "\<not> an_admitted (fst (admit H C L word W cid now (postgres_ops E) clock g path artifact
      mbom_file signature_file policy_file actor audit))"
proof -
  obtain m v where p: "sp_model_id (se_payload env) = Some m" "sp_version (se_payload env) = Some v" "m \<noteq> []" "v \<noteq> []"
    using assms(4,5) by (auto simp: truthy_def split: option.splits)
  obtain e where "fst (pg_is_revoked E m v s) = Inl e" using unusable_is_revoked [OF assms(2)] by blast
  then have "revocation_check (postgres_ops E) g (se_payload env) = Inl e"
    using postgres_revocation_check [OF assms(1) p] by simp
  then show ?thesis by (rule failed_revocation_check_not_admitted [OF assms(3)])
qed

text \<open>
  Revocation reaches admission from the database as well: once the revocation is committed, the version
  is not admitted under a policy that enables the rule, whatever operations follow, until it is lifted.
\<close>

theorem revoked_in_database_not_admitted:
  assumes "pg_rep E s regs evs" and "pg_revoke E rv s = (Inr (), s')"
    and "\<forall>op \<in> set ops. \<forall>now a reason. op \<noteq> Unrevoke now (rv_model_id rv) (rv_version rv) a reason"
    and "mg_injected g = Some (pg_run E s' ops)" and "load_envelope signature_file = Inr env"
    and "sp_model_id (se_payload env) = Some (rv_model_id rv)" and "sp_version (se_payload env) = Some (rv_version rv)"
    and "load_policy_file L policy_file = Inr policy" and "map_of (pd_rules policy) revocation_rule = Some config" and "rc_enabled config"
  shows "\<not> an_admitted (fst (admit H C L word W cid now (postgres_ops E) clock g path artifact
      mbom_file signature_file policy_file actor audit))"
proof -
  obtain rv' where r: "fst (pg_is_revoked E (rv_model_id rv) (rv_version rv) (pg_run E s' ops)) = Inr (Some rv')"
    using pg_revocation_stays [OF assms(1-3)] by blast
  have "valid_identifier (rv_model_id rv)" "valid_identifier (rv_version rv)"
    using assms(2) by (auto simp: pg_revoke_def pg_append_event_def validate_identifier_eq split: if_splits)
  then have "rv_model_id rv \<noteq> []" "rv_version rv \<noteq> []" by (auto dest: valid_identifier_text(2))
  then have c: "revocation_check (postgres_ops E) g (se_payload env) = Inr (True, Some rv')"
    using postgres_revocation_check [OF assms(4,6,7)] r by simp
  show ?thesis by (rule found_revocation_not_admitted) (rule c assms)+
qed

section \<open>Examples\<close>

definition postgres_guard :: "pg_registry \<Rightarrow> pg_registry model_guard" where
  "postgres_guard s = \<lparr>mg_allow_legacy = False, mg_storage = None, mg_injected = Some s, mg_hasher = None,
     mg_trust = mg_trust (demo_guard None None)\<rparr>"

abbreviation postgres_admit :: "pg_registry \<Rightarrow> admission_decision \<times> log_file option" where
  "postgres_admit s \<equiv>
     admit demo_hash demo_crypto sample_libs (\<lambda>_. False) sample_wording ''c'' ''t''
       (postgres_ops demo_env) 5 (postgres_guard s) [''m.bin''] demo_artifact demo_mbom_file demo_signature (one_rule_file revocation_rule)
       ''ci'' None"

lemma demo_payload:
  "sp_model_id (se_payload demo_envelope) = Some ''demo''" "sp_version (se_payload demo_envelope) = Some ''1''"
  by (simp_all add: demo_envelope_def local_envelope_def Let_def signed_payload_def demo_manifest_def)

theorem outage_not_admitted_witness:
  "\<not> an_admitted (fst (postgres_admit (new_database :: pg_registry)))"
proof (rule outage_not_admitted)
  show "mg_injected (postgres_guard new_database) = Some new_database" by (simp add: postgres_guard_def)
  show "\<not> ready demo_env (new_database :: pg_registry)" by (simp add: ready_def new_database_def verify_schema_def)
  show "load_envelope demo_signature = Inr demo_envelope" by (rule demo_loads)
qed (simp_all add: demo_payload)

theorem revoked_in_database_not_admitted_witness:
  "\<exists>s'. pg_revoke demo_env sample_revocation (migrated demo_env) = (Inr (), s') \<and> \<not> an_admitted (fst (postgres_admit s'))"
proof -
  let ?p = "pg_revoke demo_env sample_revocation (migrated demo_env)"
  note rep = migrated_rep [OF demo_env_facts]
  have "spec_append [] (Revoked sample_revocation) = Inr [Revoked sample_revocation]"
    by (simp add: spec_append_def checked_two sample_valid sample_revocation_def)
  then have p: "?p = (Inr (), snd ?p)"
    using pg_revoke_refines(1) [OF rep, of sample_revocation]
    by (cases ?p) (auto simp: sample_revocation_def pg_text_def)
  have "\<not> an_admitted (fst (postgres_admit (snd ?p)))"
  proof (rule revoked_in_database_not_admitted [OF rep p])
    show "mg_injected (postgres_guard (snd ?p)) = Some (pg_run demo_env (snd ?p) [])" by (simp add: postgres_guard_def pg_run_def)
    show "load_envelope demo_signature = Inr demo_envelope" by (rule demo_loads)
    show "map_of (pd_rules (one_rule revocation_rule)) revocation_rule = Some \<lparr>rc_enabled = True, rc_on_fail = Deny, rc_max_count = 0\<rparr>"
      by (simp add: one_rule_def)
    show "load_policy_file sample_libs (one_rule_file revocation_rule) = Inr (one_rule revocation_rule)"
      by (rule load_demo_policies)
  qed (simp_all add: demo_payload sample_revocation_def)
  then show ?thesis using p by blast
qed

end
