(* ===== verification/Remote_Signers.thy ===== *)
theory Remote_Signers
  imports Signing Sha256
begin

text \<open>
  \<open>signing/kms.py\<close> and \<open>signing/hsm.py\<close>: the signer providers whose private key lives elsewhere.  What
  boto3, \<open>python-pkcs11\<close>, \<open>asn1crypto\<close> and \<open>cryptography\<close>'s encoders answer are arguments; the model
  is what the providers ask them, keep, convert and refuse.  Exceptions that are not derived from
  \<open>Exception\<close> are left out.
\<close>

section \<open>AWS KMS\<close>

definition max_kms_raw_message_bytes :: nat where "max_kms_raw_message_bytes = 4096"
definition expected_key_spec :: string where "expected_key_spec = ''ECC_NIST_P256''"
definition kms_signing_algorithm :: string where "kms_signing_algorithm = ''ECDSA_SHA_256''"

text \<open>The calls of the client, and the members the provider looks for in an answer.\<close>

datatype kms_request =
    is_GetPublicKey: GetPublicKey (rq_key: string)
  | SignMessage (rq_key: string) (rq_message: bytes) (rq_message_type: string) (rq_algorithm: string)

record kms_response =
  kr_key_spec :: "string option"
  kr_master_key_spec :: "string option"
  kr_public_key :: "bytes option"
  kr_signature :: "bytes option"

text \<open>The service answers a request depending on all it has been asked before.\<close>

type_synonym kms_client = "kms_request list \<Rightarrow> kms_request \<Rightarrow> exn + kms_response"

text \<open>What \<open>load_der_public_key\<close> gives: an elliptic-curve key, by its uncompressed point, or another one.\<close>

datatype der_key = EcKey bytes | OtherKey

text \<open>The provider, with the requests it has made.\<close>

record kms_provider =
  km_key_id :: string
  km_identity :: string
  km_cache :: "bytes option"
  km_requests :: "kms_request list"

text \<open>
  \<open>KmsSignerProvider(...)\<close>: \<open>injected\<close> says that a client is given, \<open>boto\<close> is the outcome of importing boto3
  (\<open>None\<close> when it is missing) and building a client.
\<close>

definition make_kms_provider :: "string \<Rightarrow> string \<Rightarrow> bool \<Rightarrow> (exn + unit) option \<Rightarrow> exn + kms_provider" where
  "make_kms_provider key_id identity injected boto =
     (if key_id = [] then Inl SigningProviderError
      else if identity = [] then Inl SigningProviderError
      else
        (let self = \<lparr>km_key_id = key_id, km_identity = identity, km_cache = None, km_requests = []\<rparr>
         in if injected then Inr self
            else (case boto of
                    None \<Rightarrow> Inl SigningProviderError
                  | Some (Inl e) \<Rightarrow> Inl e
                  | Some (Inr _) \<Rightarrow> Inr self)))"

definition kms_call :: "kms_client \<Rightarrow> kms_provider \<Rightarrow> kms_request \<Rightarrow> (exn + kms_response) \<times> kms_provider" where
  "kms_call client self request =
     (client (km_requests self) request, self\<lparr>km_requests := km_requests self @ [request]\<rparr>)"

definition kms_public_key ::
    "(bytes \<Rightarrow> exn + der_key) \<Rightarrow> kms_client \<Rightarrow> kms_provider \<Rightarrow> (exn + bytes) \<times> kms_provider" where
  "kms_public_key load_der client self =
     (case km_cache self of
        Some key \<Rightarrow> (Inr key, self)
      | None \<Rightarrow>
          (case kms_call client self (GetPublicKey (km_key_id self)) of
             (Inl e, self) \<Rightarrow> (Inl SigningProviderError, self)
           | (Inr response, self) \<Rightarrow>
               if or_str (kr_key_spec response) (kr_master_key_spec response) \<noteq> Some expected_key_spec
               then (Inl SigningProviderError, self)
               else (case kr_public_key response of
                       None \<Rightarrow> (Inl KeyError, self)
                     | Some der \<Rightarrow>
                         (case load_der der of
                            Inl e \<Rightarrow> (Inl e, self)
                          | Inr OtherKey \<Rightarrow> (Inl SigningProviderError, self)
                          | Inr (EcKey point) \<Rightarrow> (Inr point, self\<lparr>km_cache := Some point\<rparr>)))))"

definition kms_sign :: "kms_client \<Rightarrow> kms_provider \<Rightarrow> bytes \<Rightarrow> (exn + bytes) \<times> kms_provider" where
  "kms_sign client self message =
     (if length message > max_kms_raw_message_bytes then (Inl SigningProviderError, self)
      else
        (case kms_call client self (SignMessage (km_key_id self) message ''RAW'' kms_signing_algorithm) of
           (Inl e, self) \<Rightarrow> (Inl SigningProviderError, self)
         | (Inr response, self) \<Rightarrow>
             (case kr_signature response of
                None \<Rightarrow> (Inl KeyError, self)
              | Some signature \<Rightarrow> (Inr signature, self))))"

text \<open>The provider as \<open>sign_with_provider\<close> uses it: one \<open>public_key()\<close>, then one \<open>sign(message)\<close>.\<close>

definition kms_signer :: "(bytes \<Rightarrow> exn + der_key) \<Rightarrow> kms_client \<Rightarrow> kms_provider \<Rightarrow> signer_provider" where
  "kms_signer load_der client self =
     \<lparr>pr_algorithm = Inr (PyStr algorithm_ecdsa_p256_sha256), pr_identity = Inr (PyStr (km_identity self)),
      pr_public_key = map_sum id PyBytes (fst (kms_public_key load_der client self)),
      pr_sign = (\<lambda>message. map_sum id PyBytes (fst (kms_sign client (snd (kms_public_key load_der client self)) message)))\<rparr>"

section \<open>PKCS#11\<close>

definition ec_point_bytes :: nat where "ec_point_bytes = 65"
definition raw_signature_bytes :: nat where "raw_signature_bytes = 64"

definition decode_ec_point :: "(bytes \<Rightarrow> exn + bytes) option \<Rightarrow> bytes \<Rightarrow> exn + bytes" where
  "decode_ec_point asn1 der_octet_string =
     (case asn1 of
        None \<Rightarrow> Inl SigningProviderError
      | Some load \<Rightarrow>
          (case load der_octet_string of
             Inl e \<Rightarrow> Inl SigningProviderError
           | Inr raw_point \<Rightarrow>
               if length raw_point \<noteq> ec_point_bytes \<or> hd raw_point \<noteq> CHR 0x04 then Inl SigningProviderError
               else Inr raw_point))"

text \<open>
  A token as the library shows it: opening a session, the private and the public key of a label, the
  \<open>EC_POINT\<close> attribute of the public key, and the raw signature of a digest.
\<close>

record token =
  tok_open :: "exn + unit"
  tok_private :: "string \<Rightarrow> exn + unit"
  tok_public :: "string \<Rightarrow> exn + unit"
  tok_ec_point :: "string \<Rightarrow> exn + bytes"
  tok_sign :: "string \<Rightarrow> bytes \<Rightarrow> exn + bytes"
  tok_close :: "exn + unit"

datatype session = No_Session | Open_Session | Closed_Session

record pkcs11_provider =
  hs_identity :: string
  hs_key_label :: string
  hs_public_key :: bytes

text \<open>
  \<open>Pkcs11SignerProvider(...)\<close>, with the state it leaves the token's session in.  \<open>pkcs11\<close> is the library,
  if installed.  When closing the session after a missing key fails, that exception is the outcome.
\<close>

definition make_pkcs11_provider ::
    "token option \<Rightarrow> (bytes \<Rightarrow> exn + bytes) option \<Rightarrow> string \<Rightarrow> string \<Rightarrow> (exn + pkcs11_provider) \<times> session" where
  "make_pkcs11_provider pkcs11 asn1 key_label identity =
     (if identity = [] then (Inl SigningProviderError, No_Session)
      else (case pkcs11 of
        None \<Rightarrow> (Inl SigningProviderError, No_Session)
      | Some token \<Rightarrow>
          (case tok_open token of
             Inl e \<Rightarrow> (Inl SigningProviderError, No_Session)
           | Inr _ \<Rightarrow>
               (case (case tok_private token key_label of Inl e \<Rightarrow> Inl e | Inr _ \<Rightarrow> tok_public token key_label) of
                  Inl e \<Rightarrow>
                    (case tok_close token of
                       Inl e' \<Rightarrow> (Inl e', Open_Session)
                     | Inr _ \<Rightarrow> (Inl SigningProviderError, Closed_Session))
                | Inr _ \<Rightarrow>
                    (case tok_ec_point token key_label of
                       Inl e \<Rightarrow> (Inl e, Open_Session)
                     | Inr der \<Rightarrow>
                         (case decode_ec_point asn1 der of
                            Inl e \<Rightarrow> (Inl e, Open_Session)
                          | Inr point \<Rightarrow>
                              (Inr \<lparr>hs_identity = identity, hs_key_label = key_label, hs_public_key = point\<rparr>,
                               Open_Session)))))))"

text \<open>\<open>int.from_bytes(_, "big")\<close>.\<close>

definition int_from_bytes :: "bytes \<Rightarrow> nat" where
  "int_from_bytes bs = foldl (\<lambda>n c. 256 * n + ord c) 0 bs"

text \<open>\<open>encode_dss\<close> is \<open>encode_dss_signature\<close>, the DER encoder; \<open>H\<close> gives the hexadecimal digest.\<close>

definition pkcs11_sign ::
    "(bytes \<Rightarrow> string) \<Rightarrow> (nat \<Rightarrow> nat \<Rightarrow> bytes) \<Rightarrow> token \<Rightarrow> pkcs11_provider \<Rightarrow> bytes \<Rightarrow> exn + bytes" where
  "pkcs11_sign H encode_dss token self message =
     (let digest = of_hex (H message)
      in case tok_sign token (hs_key_label self) digest of
           Inl e \<Rightarrow> Inl SigningProviderError
         | Inr raw_signature \<Rightarrow>
             if length raw_signature \<noteq> raw_signature_bytes then Inl SigningProviderError
             else Inr (encode_dss (int_from_bytes (take 32 raw_signature)) (int_from_bytes (drop 32 raw_signature))))"

text \<open>\<open>close\<close> swallows every error; a session is closed at most once by the library itself.\<close>

definition pkcs11_close :: "token \<Rightarrow> session \<Rightarrow> session" where
  "pkcs11_close token s = (case tok_close token of Inl e \<Rightarrow> s | Inr _ \<Rightarrow> if s = Open_Session then Closed_Session else s)"

definition pkcs11_signer ::
    "(bytes \<Rightarrow> string) \<Rightarrow> (nat \<Rightarrow> nat \<Rightarrow> bytes) \<Rightarrow> token \<Rightarrow> pkcs11_provider \<Rightarrow> signer_provider" where
  "pkcs11_signer H encode_dss token self =
     \<lparr>pr_algorithm = Inr (PyStr algorithm_ecdsa_p256_sha256), pr_identity = Inr (PyStr (hs_identity self)),
      pr_public_key = Inr (PyBytes (hs_public_key self)),
      pr_sign = (\<lambda>message. map_sum id PyBytes (pkcs11_sign H encode_dss token self message))\<rparr>"

text \<open>\<open>generate_ec_keypair\<close>: the one request it makes of the session, its parameters encoded by the library.\<close>

record keypair_request =
  kq_ec_params :: bytes
  kq_label :: string
  kq_id :: bytes
  kq_store :: bool

definition generate_ec_keypair ::
    "(string \<Rightarrow> exn + bytes) option \<Rightarrow> (keypair_request \<Rightarrow> exn + unit) \<Rightarrow> string \<Rightarrow> bytes \<Rightarrow> exn + unit" where
  "generate_ec_keypair encode_curve session label key_id =
     (case encode_curve of
        None \<Rightarrow> Inl SigningProviderError
      | Some encode \<Rightarrow>
          (case encode ''secp256r1'' of
             Inl e \<Rightarrow> Inl e
           | Inr params \<Rightarrow> session \<lparr>kq_ec_params = params, kq_label = label, kq_id = key_id, kq_store = True\<rparr>))"

section \<open>Signing with an elliptic-curve key\<close>

text \<open>The envelope of an \<open>ecdsa-p256-sha256\<close> signature.\<close>

definition ecdsa_envelope ::
    "(bytes \<Rightarrow> string) \<Rightarrow> string \<Rightarrow> manifest \<Rightarrow> mlbom \<Rightarrow> string \<Rightarrow> bytes \<Rightarrow> bytes \<Rightarrow> signature_envelope" where
  "ecdsa_envelope H now m b identity point signature =
     \<lparr>se_signature_type = algorithm_ecdsa_p256_sha256,
      se_payload = signed_payload H now m b identity algorithm_ecdsa_p256_sha256 point,
      se_signature = to_hex signature, se_public_key = to_hex point\<rparr>"

definition good_signature :: "crypto \<Rightarrow> bytes \<Rightarrow> bytes \<Rightarrow> bytes \<Rightarrow> bool" where
  "good_signature C point signature message \<longleftrightarrow>
     length point = 65 \<and> hd point = CHR 0x04 \<and> 8 \<le> length signature \<and> length signature \<le> 72
     \<and> cr_ecdsa_p256 C point signature message = Accepts"

lemma ecdsa_envelope_verifies:
  assumes "good_signature C point signature
      (payload_canonical_json (signed_payload H now m b identity algorithm_ecdsa_p256_sha256 point))"
  shows "verify_envelope_signature H (default_verifiers C) allow (ecdsa_envelope H now m b identity point signature)
    = Inr \<lparr>sc_algorithm = algorithm_ecdsa_p256_sha256, sc_key_fingerprint = H point, sc_format_version = ''2'', sc_key_bound = True\<rparr>"
  unfolding verify_Inr_iff using assms
  by (auto simp: ecdsa_envelope_def good_signature_def commits_def Let_def signed_payload_def key_fingerprint_def
      schema_version_bound_def default_verifiers_def ecdsa_p256_verify_def crypto_outcome_def max_key_bytes_def
      max_signature_bytes_def p256_public_key_len_def p256_min_signature_len_def p256_max_signature_len_def
      algorithm_ed25519_def algorithm_ecdsa_p256_sha256_def
      intro!: exI [of _ point] exI [of _ signature])

lemma ecdsa_provider_signs:
  assumes "pr_algorithm p = Inr (PyStr algorithm_ecdsa_p256_sha256)" and "pr_identity p = Inr (PyStr identity)" and "identity \<noteq> []"
    and "pr_public_key p = Inr (PyBytes point)"
    and "payload = signed_payload H now m b identity algorithm_ecdsa_p256_sha256 point"
    and "pr_sign p (payload_canonical_json payload) = Inr (PyBytes signature)"
    and "good_signature C point signature (payload_canonical_json payload)"
  shows "sign_with_provider H (default_verifiers C) now m b p = Inr (ecdsa_envelope H now m b identity point signature)"
proof -
  have point: "length point = 65" "length signature \<le> 72" "signature \<noteq> []" "point \<noteq> []"
    using assms(7) by (auto simp: good_signature_def)
  have known: "map_of (default_verifiers C) algorithm_ecdsa_p256_sha256 = Some (ecdsa_p256_verify C)"
    by (simp add: default_verifiers_def algorithm_ed25519_def algorithm_ecdsa_p256_sha256_def)
  note v = ecdsa_envelope_verifies [OF assms(7) [unfolded assms(5)], of False]
  then show ?thesis
    using assms(1-6) point known
    by (simp add: sign_with_provider_def provider_call_def usable_bytes_def Let_def max_key_bytes_def max_signature_bytes_def
        ecdsa_envelope_def)
qed

section \<open>What KMS is asked\<close>

datatype kms_op = AskPublicKey | AskSign bytes

fun kms_step :: "(bytes \<Rightarrow> exn + der_key) \<Rightarrow> kms_client \<Rightarrow> kms_provider \<Rightarrow> kms_op \<Rightarrow> kms_provider" where
  "kms_step load_der client self AskPublicKey = snd (kms_public_key load_der client self)"
| "kms_step load_der client self (AskSign message) = snd (kms_sign client self message)"

definition kms_run :: "(bytes \<Rightarrow> exn + der_key) \<Rightarrow> kms_client \<Rightarrow> kms_provider \<Rightarrow> kms_op list \<Rightarrow> kms_provider" where
  "kms_run load_der client self ops = foldl (kms_step load_der client) self ops"

fun permitted_request :: "string \<Rightarrow> kms_request \<Rightarrow> bool" where
  "permitted_request key_id (GetPublicKey k) \<longleftrightarrow> k = key_id"
| "permitted_request key_id (SignMessage k message message_type algorithm) \<longleftrightarrow>
     k = key_id \<and> message_type = ''RAW'' \<and> algorithm = ''ECDSA_SHA_256'' \<and> length message \<le> 4096"

lemma kms_public_key_state:
  "snd (kms_public_key load_der client self) \<in>
     {self, self\<lparr>km_requests := km_requests self @ [GetPublicKey (km_key_id self)]\<rparr>}
     \<union> range (\<lambda>point. self\<lparr>km_requests := km_requests self @ [GetPublicKey (km_key_id self)], km_cache := Some point\<rparr>)"
  by (auto simp: kms_public_key_def kms_call_def split: option.splits sum.splits der_key.splits)

lemma kms_sign_state:
  "snd (kms_sign client self message) =
     (if length message > 4096 then self
      else self\<lparr>km_requests := km_requests self @ [SignMessage (km_key_id self) message ''RAW'' ''ECDSA_SHA_256'']\<rparr>)"
  by (auto simp: kms_sign_def kms_call_def max_kms_raw_message_bytes_def kms_signing_algorithm_def split: option.splits sum.splits)

lemma kms_step_keeps:
  "km_key_id (kms_step load_der client self op) = km_key_id self"
  "list_all (permitted_request (km_key_id self)) (km_requests self) \<Longrightarrow>
     list_all (permitted_request (km_key_id self)) (km_requests (kms_step load_der client self op))"
  using kms_public_key_state [of load_der client self] by (cases op; auto simp: kms_sign_state)+

lemma kms_run_keeps:
  "list_all (permitted_request (km_key_id self)) (km_requests self) \<Longrightarrow>
     km_key_id (kms_run load_der client self ops) = km_key_id self
     \<and> list_all (permitted_request (km_key_id self)) (km_requests (kms_run load_der client self ops))"
  unfolding kms_run_def
proof (induction ops arbitrary: self)
  case (Cons op ops)
  then show ?case using Cons.IH [of "kms_step load_der client self op"] by (simp add: kms_step_keeps)
qed simp

lemma kms_cached_step:
  assumes "km_cache self = Some point"
  shows "km_cache (kms_step load_der client self op) = Some point"
    and "filter is_GetPublicKey (km_requests (kms_step load_der client self op)) = filter is_GetPublicKey (km_requests self)"
  using assms by (cases op; simp add: kms_public_key_def kms_sign_state)+

lemma kms_cached_run:
  assumes "km_cache self = Some point"
  shows "km_cache (kms_run load_der client self ops) = Some point
    \<and> filter is_GetPublicKey (km_requests (kms_run load_der client self ops)) = filter is_GetPublicKey (km_requests self)"
  using assms unfolding kms_run_def
proof (induction ops arbitrary: self)
  case (Cons op ops)
  from Cons.IH [OF kms_cached_step(1) [OF Cons.prems]] show ?case by (simp add: kms_cached_step(2) [OF Cons.prems])
qed simp

section \<open>Raw signatures\<close>

lemma int_from_bytes_snoc [simp]: "int_from_bytes (bs @ [c]) = 256 * int_from_bytes bs + ord c"
  by (simp add: int_from_bytes_def)

lemma int_from_bytes_append: "int_from_bytes (xs @ ys) = 256 ^ length ys * int_from_bytes xs + int_from_bytes ys"
proof (induction ys rule: rev_induct)
  case (snoc y ys)
  then show ?case by (simp add: algebra_simps flip: append_assoc)
qed (simp add: int_from_bytes_def)

lemma int_from_be_bytes: "0 \<le> n \<Longrightarrow> int_from_bytes (be_bytes k n) = nat (n mod 256 ^ k)"
proof (induction k)
  case (Suc k)
  have "int_from_bytes (be_bytes (Suc k) n)
      = 256 ^ k * int_from_bytes [char_of (n div 256 ^ k mod 256)] + int_from_bytes (be_bytes k n)"
    using int_from_bytes_append [of "[char_of (n div 256 ^ k mod 256)]" "be_bytes k n"] by simp
  also have "int_from_bytes [char_of (n div 256 ^ k mod 256)] = nat (n div 256 ^ k mod 256)"
  proof -
    have "int (of_char (char_of (n div 256 ^ k mod 256) :: char)) = n div 256 ^ k mod 256"
      by (simp add: of_nat_of_char)
    then show ?thesis by (simp add: int_from_bytes_def)
  qed
  also have "256 ^ k * nat (n div 256 ^ k mod 256) = nat (256 ^ k * (n div 256 ^ k mod 256))"
    by (simp add: nat_mult_distrib nat_power_eq)
  finally show ?case
    using Suc zmod_zmult2_eq [of 256 n "256 ^ k"] by (simp add: nat_add_distrib mult.commute)
qed (simp add: int_from_bytes_def)

lemma make_kms_InrD:
  "make_kms_provider key_id identity injected boto = Inr self \<Longrightarrow>
     self = \<lparr>km_key_id = key_id, km_identity = identity, km_cache = None, km_requests = []\<rparr> \<and> identity \<noteq> []"
  by (auto simp: make_kms_provider_def Let_def split: if_splits option.splits sum.splits)

section \<open>Properties\<close>

text \<open>
  C35. Whatever the service answers and however the provider is used, it only ever asks for the public key
  or for a signature over raw messages of at most 4096 bytes with \<open>ECDSA_SHA_256\<close>, always of its own key.
\<close>

theorem kms_requests_bounded:
  assumes "make_kms_provider key_id identity injected boto = Inr self"
  shows "list_all (permitted_request key_id) (km_requests (kms_run load_der client self ops))"
proof -
  have "km_key_id self = key_id" "km_requests self = []"
    using make_kms_InrD [OF assms] by auto
  then show ?thesis using kms_run_keeps [of self load_der client ops] by simp
qed

definition toy_client :: kms_client where
  "toy_client history request =
     Inr \<lparr>kr_key_spec = Some ''ECC_NIST_P256'', kr_master_key_spec = None, kr_public_key = Some ''der'',
         kr_signature = Some (replicate 70 (CHR ''s''))\<rparr>"

definition toy_point :: bytes where
  "toy_point = CHR 0x04 # replicate 64 (CHR ''p'')"

definition toy_kms :: kms_provider where
  "toy_kms = \<lparr>km_key_id = ''k'', km_identity = ''kms'', km_cache = None, km_requests = []\<rparr>"

definition toy_ecdsa :: crypto where
  "toy_ecdsa = \<lparr>cr_ed25519 = (\<lambda>pk sig msg. RaisesInvalidSignature), cr_ecdsa_p256 = (\<lambda>pk sig msg. Accepts)\<rparr>"

theorem kms_requests_bounded_witness:
  "list_all (permitted_request ''k'')
     (km_requests (kms_run (\<lambda>_. Inr (EcKey toy_point)) toy_client toy_kms [AskPublicKey, AskSign (replicate 5000 (CHR ''m'')), AskSign ''m'']))"
  by (rule kms_requests_bounded [of _ "''kms''" True None]) (simp add: make_kms_provider_def toy_kms_def)

text \<open>
  The public key is asked for once: after \<open>public_key()\<close> has returned a key, it returns that key for good, and
  no further \<open>GetPublicKey\<close> is sent.
\<close>

theorem kms_key_fetched_once:
  assumes "kms_public_key load_der client self = (Inr point, self')"
  shows "fst (kms_public_key load_der client (kms_run load_der client self' ops)) = Inr point
    \<and> filter is_GetPublicKey (km_requests (kms_run load_der client self' ops)) = filter is_GetPublicKey (km_requests self')"
proof -
  have "km_cache self' = Some point"
    using assms by (auto simp: kms_public_key_def kms_call_def split: option.splits sum.splits der_key.splits if_splits)
  from kms_cached_run [OF this, of load_der client ops] show ?thesis by (simp add: kms_public_key_def)
qed

theorem kms_key_fetched_once_witness:
  "fst (kms_public_key (\<lambda>_. Inr (EcKey toy_point)) toy_client (kms_run (\<lambda>_. Inr (EcKey toy_point)) toy_client
     (snd (kms_public_key (\<lambda>_. Inr (EcKey toy_point)) toy_client toy_kms)) [AskSign ''m'', AskPublicKey])) = Inr toy_point"
proof -
  have "kms_public_key (\<lambda>_. Inr (EcKey toy_point)) toy_client toy_kms
      = (Inr toy_point, snd (kms_public_key (\<lambda>_. Inr (EcKey toy_point)) toy_client toy_kms))"
    by (simp add: kms_public_key_def kms_call_def toy_kms_def toy_client_def expected_key_spec_def or_str_def)
  from kms_key_fetched_once [OF this] show ?thesis by blast
qed

lemma ecdsa_payload_size:
  assumes "\<And>b. length (H b) = 64"
    and "length identity + length now + text_size (m_model_id m) + text_size (m_version m)
           + length (m_algorithm m) + length (m_digest m) \<le> 400"
  shows "length (payload_canonical_json (signed_payload H now m b identity algorithm_ecdsa_p256_sha256 point)) \<le> 4096"
proof -
  let ?p = "signed_payload H now m b identity algorithm_ecdsa_p256_sha256 point"
  have "payload_size ?p \<le> 400 + 160"
    using assms by (simp add: payload_size_def signed_payload_def schema_version_bound_def mbom_ref_def key_fingerprint_def
        algorithm_ecdsa_p256_sha256_def text_size_def)
  then show ?thesis using length_payload_dumps(1) [of ?p] by (simp add: payload_canonical_json_def wf_payload)
qed



text \<open>The 64 bytes of a token are \<open>r\<close> and \<open>s\<close>, 32 big-endian bytes each; the provider encodes the same two numbers.\<close>

lemma pkcs11_signature_converted:
  assumes "tok_sign token (hs_key_label self) (of_hex (H message)) = Inr (be_bytes 32 r @ be_bytes 32 s)"
    and "0 \<le> r" and "r < 2 ^ 256" and "0 \<le> s" and "s < 2 ^ 256"
  shows "pkcs11_sign H encode_dss token self message = Inr (encode_dss (nat r) (nat s))"
proof -
  have "r mod 256 ^ 32 = r" "s mod 256 ^ 32 = s" using assms(2-5) by simp_all
  then show ?thesis
    using assms(1,2,4) int_from_be_bytes [of r 32] int_from_be_bytes [of s 32]
    by (simp add: pkcs11_sign_def raw_signature_bytes_def)
qed

lemma make_pkcs11_InrD:
  assumes "make_pkcs11_provider pkcs11 asn1 key_label identity = (Inr self, session)"
  shows "identity \<noteq> [] \<and> hs_identity self = identity \<and> hs_key_label self = key_label
    \<and> length (hs_public_key self) = 65 \<and> hd (hs_public_key self) = CHR 0x04 \<and> session = Open_Session"
  using assms
  by (auto simp: make_pkcs11_provider_def decode_ec_point_def ec_point_bytes_def split: option.splits sum.splits if_splits)

text \<open>
  A P-256 key on a PKCS#11 token signs: when the token signs the SHA-256 of the payload and the two numbers it
  returns are a signature that verifies, \<open>sign_with_provider\<close> returns an envelope that verifies under the
  point the token reported.
\<close>

theorem pkcs11_key_signs:
  assumes "make_pkcs11_provider (Some token) asn1 key_label identity = (Inr self, session)"
    and "message = payload_canonical_json (signed_payload H now m b identity ''ecdsa-p256-sha256'' (hs_public_key self))"
    and "tok_sign token key_label (of_hex (H message)) = Inr (be_bytes 32 r @ be_bytes 32 s)"
    and "0 \<le> r" and "r < 2 ^ 256" and "0 \<le> s" and "s < 2 ^ 256"
    and "good_signature C (hs_public_key self) (encode_dss (nat r) (nat s)) message"
  shows "\<exists>env chk. sign_with_provider H (default_verifiers C) now m b (pkcs11_signer H encode_dss token self) = Inr env
    \<and> verify_envelope_signature H (default_verifiers C) False env = Inr chk \<and> sc_key_fingerprint chk = H (hs_public_key self)"
proof -
  note self = make_pkcs11_InrD [OF assms(1)]
  let ?payload = "signed_payload H now m b identity algorithm_ecdsa_p256_sha256 (hs_public_key self)"
  have msg: "message = payload_canonical_json ?payload" using assms(2) by (simp add: algorithm_ecdsa_p256_sha256_def)
  have "pkcs11_sign H encode_dss token self message = Inr (encode_dss (nat r) (nat s))"
    by (rule pkcs11_signature_converted) (use assms(3-7) self in simp_all)
  then have "sign_with_provider H (default_verifiers C) now m b (pkcs11_signer H encode_dss token self)
      = Inr (ecdsa_envelope H now m b identity (hs_public_key self) (encode_dss (nat r) (nat s)))"
    by (intro ecdsa_provider_signs [where payload = ?payload]) (use self assms(8) msg in \<open>simp_all add: pkcs11_signer_def\<close>)
  then show ?thesis
    using ecdsa_envelope_verifies [of C "hs_public_key self" _ H now m b identity False] assms(8) msg by simp
qed

definition toy_token :: token where
  "toy_token = \<lparr>tok_open = Inr (), tok_private = (\<lambda>_. Inr ()), tok_public = (\<lambda>_. Inr ()), tok_ec_point = (\<lambda>_. Inr toy_point),
     tok_sign = (\<lambda>_ _. Inr (be_bytes 32 5 @ be_bytes 32 7)), tok_close = Inr ()\<rparr>"

theorem pkcs11_key_signs_witness:
  "\<exists>env. sign_with_provider sha256 (default_verifiers toy_ecdsa) ''t'' sample_manifest sample_mlbom
     (pkcs11_signer sha256 (\<lambda>r s. replicate (r + s) (CHR ''x'')) toy_token
       \<lparr>hs_identity = ''hsm'', hs_key_label = ''k'', hs_public_key = toy_point\<rparr>) = Inr env"
proof -
  let ?self = "\<lparr>hs_identity = ''hsm'', hs_key_label = ''k'', hs_public_key = toy_point\<rparr>"
  have m: "make_pkcs11_provider (Some toy_token) (Some Inr) ''k'' ''hsm'' = (Inr ?self, Open_Session)"
    by (simp add: make_pkcs11_provider_def toy_token_def decode_ec_point_def ec_point_bytes_def toy_point_def)
  show ?thesis
    using pkcs11_key_signs [OF m refl, of sha256 "''t''" sample_manifest sample_mlbom 5 7 toy_ecdsa "\<lambda>r s. replicate (r + s) (CHR ''x'')"]
    by (auto simp: toy_token_def good_signature_def toy_ecdsa_def toy_point_def)
qed

text \<open>
  Exceptions that escape both modules' conversion: a public key the client's library cannot parse, an answer
  without the expected member, an \<open>EC_POINT\<close> that cannot be read.  In the last case, as for a malformed point, the session
  stays open although there is no provider to close it.
\<close>

lemma unparsable_key_escapes:
  "client [] (GetPublicKey ''k'') = Inr r \<Longrightarrow> kr_key_spec r = Some ''ECC_NIST_P256'' \<Longrightarrow> kr_public_key r = Some der
     \<Longrightarrow> load_der der = Inl ValueError \<Longrightarrow> fst (kms_public_key load_der client toy_kms) = Inl ValueError"
  by (simp add: kms_public_key_def kms_call_def toy_kms_def expected_key_spec_def or_str_def)

lemma malformed_point_leaks_session:
  "make_pkcs11_provider (Some (toy_token\<lparr>tok_ec_point := (\<lambda>_. Inr [])\<rparr>)) (Some Inr) ''k'' ''hsm'' = (Inl SigningProviderError, Open_Session)"
  by (simp add: make_pkcs11_provider_def toy_token_def decode_ec_point_def ec_point_bytes_def)

lemma unreadable_point_escapes:
  "make_pkcs11_provider (Some (toy_token\<lparr>tok_ec_point := (\<lambda>_. Inl KeyError)\<rparr>)) (Some Inr) ''k'' ''hsm'' = (Inl KeyError, Open_Session)"
  by (simp add: make_pkcs11_provider_def toy_token_def)

end
