(* ===== verification/Cli.thy ===== *)
theory Cli
  imports Admission
begin

text \<open>
  The command line (\<open>cli/main.py\<close>): the commands that read an artifact and its documents.  A command's
  options are its arguments; its value is how the process ends, the lines on its two streams and the
  document it wrote.  \<open>click\<close> parses the options: a path declared \<open>exists=True\<close> that it refuses, or a
  value outside a \<open>Choice\<close>, ends the process before the command's body runs.

  The environment collects what the commands do not define: the libraries, the clock, the wording of
  messages.  A line that prints JSON carries the document.
\<close>

section \<open>How a command ends\<close>

datatype ending =
    Exit nat
  | Traceback exn
  | UsageError

definition exit_denied :: nat where "exit_denied = 2"
definition exit_review_required :: nat where "exit_review_required = 3"
definition exit_quarantine :: nat where "exit_quarantine = 4"
definition exit_revoked :: nat where "exit_revoked = 5"

text \<open>The status the shell sees: an exception nothing catches gives 1, a usage error of \<open>click\<close> 2.\<close>

fun exit_code :: "ending \<Rightarrow> nat" where
  "exit_code (Exit n) = n"
| "exit_code (Traceback _) = 1"
| "exit_code UsageError = 2"

datatype printed = Line string | Json json

record cli_result =
  cr_ending :: ending
  cr_out :: "printed list"
  cr_err :: "printed list"
  cr_document :: "bytes option"

definition finished :: "nat \<Rightarrow> printed list \<Rightarrow> cli_result" where
  "finished code out = \<lparr>cr_ending = Exit code, cr_out = out, cr_err = [], cr_document = None\<rparr>"

definition traceback :: "exn \<Rightarrow> cli_result" where
  "traceback e = \<lparr>cr_ending = Traceback e, cr_out = [], cr_err = [], cr_document = None\<rparr>"

definition usage_error :: cli_result where
  "usage_error = \<lparr>cr_ending = UsageError, cr_out = [], cr_err = [], cr_document = None\<rparr>"

definition error_line :: "string \<Rightarrow> nat \<Rightarrow> cli_result" where
  "error_line line code = \<lparr>cr_ending = Exit code, cr_out = [], cr_err = [Line line], cr_document = None\<rparr>"

datatype output_format = TextFormat | JsonFormat

section \<open>The environment\<close>

text \<open>
  \<open>ce_render\<close> lays out a JSON document as pydantic's \<open>model_dump_json(indent=2)\<close> does; \<open>ce_path_ok\<close> is \<open>click\<close>'s check of
  a path that must exist; \<open>ce_postgres\<close> connects to a registry and is \<open>None\<close> without the extra.
\<close>

record 'r cli_env =
  ce_text :: wording
  ce_hash :: "bytes \<Rightarrow> string"
  ce_crypto :: crypto
  ce_ed_sign :: "bytes \<Rightarrow> bytes \<Rightarrow> bytes"
  ce_ed_public :: "bytes \<Rightarrow> bytes"
  ce_private_ok :: "bytes \<Rightarrow> bool"
  ce_public_ok :: "bytes \<Rightarrow> bool"
  ce_word :: "nat \<Rightarrow> bool"
  ce_libs :: libs
  ce_render :: "json \<Rightarrow> bytes"
  ce_path_ok :: "fs_node option \<Rightarrow> bool"
  ce_environ :: "string \<Rightarrow> string option"
  ce_postgres :: "(string \<Rightarrow> exn + 'r) option"
  ce_ops :: "'r registry_ops"
  ce_clock :: int
  ce_now :: string
  ce_uuid :: string

section \<open>Errors\<close>

definition fail :: "wording \<Rightarrow> output_format \<Rightarrow> exn \<Rightarrow> cli_result" where
  "fail T output_format e =
     \<lparr>cr_ending = Exit exit_error, cr_out = [],
      cr_err = [case output_format of
                  JsonFormat \<Rightarrow> Json (JObj [(''error'', JStr (wd_exn T e)), (''type'', JStr (class_name (class_of e)))])
                | TextFormat \<Rightarrow> Line (''Error: '' @ wd_exn T e)],
      cr_document = None\<rparr>"

text \<open>\<open>try: ... except ModelGuardError as exc: _fail(exc, ...)\<close>, then the rest of the command.\<close>

definition handled :: "wording \<Rightarrow> output_format \<Rightarrow> exn + 'a \<Rightarrow> ('a \<Rightarrow> cli_result) \<Rightarrow> cli_result" where
  "handled T output_format r rest =
     (case r of
        Inl e \<Rightarrow> if is_modelguard e then fail T output_format e else traceback e
      | Inr x \<Rightarrow> rest x)"

text \<open>The paths \<open>click\<close> checks before the body runs.\<close>

definition with_paths :: "'r cli_env \<Rightarrow> fs_node option list \<Rightarrow> cli_result \<Rightarrow> cli_result" where
  "with_paths E nodes body = (if list_all (ce_path_ok E) nodes then body else usage_error)"

text \<open>\<open>output.write_text(...)\<close>, which raises \<open>fault\<close> if it does, then the lines that follow it.\<close>

definition write_document :: "exn option \<Rightarrow> bytes \<Rightarrow> printed list \<Rightarrow> cli_result" where
  "write_document fault doc out =
     (case fault of
        Some e \<Rightarrow> traceback e
      | None \<Rightarrow> \<lparr>cr_ending = Exit exit_ok, cr_out = out, cr_err = [], cr_document = Some doc\<rparr>)"

section \<open>Inspecting\<close>

definition file_line :: "file_digest \<Rightarrow> printed" where
  "file_line f = Line (''  '' @ take 12 (fd_sha256 f) @ ''...  '' @ fd_path f @ ''  ('' @ int_str (fd_size f) @ '' bytes)'')"

definition cli_inspect :: "'r cli_env \<Rightarrow> string list \<Rightarrow> fs_node option \<Rightarrow> output_format \<Rightarrow> cli_result" where
  "cli_inspect E path nd output_format =
     with_paths E [nd] (handled (ce_text E) output_format (hash_artifact (ce_hash E) path nd) (\<lambda>d.
       finished exit_ok
         (case output_format of
            JsonFormat \<Rightarrow>
              [Json (JObj [(''algorithm'', JStr (ad_algorithm d)), (''artifact_type'', JStr (ad_type d)),
                 (''digest'', JStr (ad_digest d)), (''file_count'', JInt (int (length (ad_files d))))])]
          | TextFormat \<Rightarrow>
              [Line (''Artifact type : '' @ ad_type d),
               Line (''Digest        : '' @ ad_algorithm d @ '':'' @ ad_digest d),
               Line (''Files         : '' @ nat_str (length (ad_files d)))]
              @ map file_line (take 20 (ad_files d))
              @ (if length (ad_files d) > 20
                 then [Line (''  ... and '' @ nat_str (length (ad_files d) - 20) @ '' more'')] else []))))"

definition cli_digest :: "'r cli_env \<Rightarrow> string list \<Rightarrow> fs_node option \<Rightarrow> cli_result" where
  "cli_digest E path nd =
     with_paths E [nd] (handled (ce_text E) TextFormat (hash_artifact (ce_hash E) path nd) (\<lambda>d.
       finished exit_ok [Line (ad_algorithm d @ '':'' @ ad_digest d)]))"

section \<open>Manifests and ML-BOMs\<close>

definition manifest_metadata :: "string option \<Rightarrow> string option \<Rightarrow> string option \<Rightarrow> declared_metadata" where
  "manifest_metadata model_id model_version license =
     no_metadata\<lparr>dm_model_id := model_id, dm_version := model_version, dm_license := license\<rparr>"

definition cli_manifest ::
    "'r cli_env \<Rightarrow> string list \<Rightarrow> fs_node option \<Rightarrow> string \<Rightarrow> exn option \<Rightarrow> string option \<Rightarrow> string option \<Rightarrow> string option
       \<Rightarrow> cli_result" where
  "cli_manifest E path nd output fault model_id model_version license =
     with_paths E [nd]
       (handled (ce_text E) TextFormat
          (build_manifest (ce_hash E) path nd (Some (manifest_metadata model_id model_version license)) None) (\<lambda>m.
        write_document fault (ce_render E (drop_none (manifest_fields m)))
          [Line (''Wrote manifest to '' @ output), Line (''Digest: '' @ m_algorithm m @ '':'' @ m_digest m)]))"

text \<open>\<open>Manifest.model_validate(json.loads(manifest_path.read_text()))\<close>.\<close>

definition load_manifest :: "'r cli_env \<Rightarrow> fs_node option \<Rightarrow> exn + manifest" where
  "load_manifest E nd =
     (case read_json nd of
        Inl e \<Rightarrow> Inl e
      | Inr j \<Rightarrow> (case manifest_of_json (ce_libs E) j of None \<Rightarrow> Inl ValidationError | Some m \<Rightarrow> Inr m))"

definition cli_mbom_generate :: "'r cli_env \<Rightarrow> fs_node option \<Rightarrow> string \<Rightarrow> exn option \<Rightarrow> cli_result" where
  "cli_mbom_generate E manifest_file output fault =
     with_paths E [manifest_file]
       (handled (ce_text E) TextFormat (map_sum id (\<lambda>m. generate_mbom (ce_uuid E) (ce_now E) m None) (load_manifest E manifest_file)) (\<lambda>bom.
        write_document fault (mlbom_to_json bom) [Line (''Wrote ML-BOM to '' @ output)]))"

section \<open>Keys and signing\<close>

text \<open>\<open>bytes.fromhex\<close> skips white space between the bytes.\<close>

fun fromhex :: "string \<Rightarrow> bytes option" where
  "fromhex [] = Some []"
| "fromhex [c] = (if ord c \<in> {9..13} \<union> {32 :: nat} then Some [] else None)"
| "fromhex (c # d # s) =
     (if ord c \<in> {9..13} \<union> {32 :: nat} then fromhex (d # s)
      else if is_hex c \<and> is_hex d
      then map_option (Cons (chr (16 * any_hex_value c + any_hex_value d))) (fromhex s)
      else None)"

definition public_key_fingerprint :: "(bytes \<Rightarrow> string) \<Rightarrow> string \<Rightarrow> exn + string" where
  "public_key_fingerprint H public_key_hex =
     (case fromhex public_key_hex of None \<Rightarrow> Inl TrustConfigurationError | Some raw \<Rightarrow> Inr (H raw))"

definition cli_keygen :: "'r cli_env \<Rightarrow> bytes \<Rightarrow> string \<Rightarrow> nat \<Rightarrow> key_dir \<Rightarrow> cli_result \<times> key_dir list" where
  "cli_keygen E seed identity default_mode d =
     (let keypair = generate_keypair (ce_ed_public E) seed identity
      in (case public_key_fingerprint (ce_hash E) (to_hex (kp_public_key keypair)) of
            Inl e \<Rightarrow> traceback e
          | Inr fingerprint \<Rightarrow>
              finished exit_ok
                [Line (''Private key: '' @ private_file keypair @ '' (mode 0600, keep this secret)''),
                 Line (''Public key : '' @ public_file keypair),
                 Line (''Fingerprint: '' @ fingerprint)],
          save_keypair default_mode keypair d))"

text \<open>The node a name in the key directory leads to.\<close>

definition key_node :: "key_dir \<Rightarrow> string \<Rightarrow> fs_node option" where
  "key_node d name = map_option (\<lambda>(mode, raw). FFile raw) (map_of d name)"

definition cli_fingerprint :: "'r cli_env \<Rightarrow> key_dir \<Rightarrow> string \<Rightarrow> cli_result" where
  "cli_fingerprint E d name =
     with_paths E [key_node d name]
       (handled (ce_text E) TextFormat (load_public_key (ce_public_ok E) d name) (\<lambda>key.
        case public_key_fingerprint (ce_hash E) (to_hex key) of
          Inl e \<Rightarrow> traceback e
        | Inr fingerprint \<Rightarrow> finished exit_ok [Line fingerprint]))"

text \<open>The body of \<open>sign\<close>: the documents, the key, and the manifest compared with the artifact on disk.\<close>

definition sign_body ::
    "'r cli_env \<Rightarrow> string list \<Rightarrow> fs_node option \<Rightarrow> fs_node option \<Rightarrow> fs_node option \<Rightarrow> key_dir \<Rightarrow> string \<Rightarrow> string
       \<Rightarrow> exn + signature_envelope" where
  "sign_body E path nd manifest_file mbom_file d key_name identity =
     (case load_manifest E manifest_file of Inl e \<Rightarrow> Inl e | Inr m \<Rightarrow>
     (case load_mbom (ce_libs E) mbom_file of Inl e \<Rightarrow> Inl e | Inr bom \<Rightarrow>
     (case load_private_key (ce_private_ok E) (ce_ed_public E) d key_name identity of Inl e \<Rightarrow> Inl e | Inr keypair \<Rightarrow>
     (case hash_artifact (ce_hash E) path nd of Inl e \<Rightarrow> Inl e | Inr current \<Rightarrow>
        if ad_algorithm current @ '':'' @ ad_digest current \<noteq> m_algorithm m @ '':'' @ m_digest m then Inl ModelGuardError
        else sign_artifact (ce_hash E) (ce_crypto E) (ce_ed_sign E) (ce_now E) m bom keypair))))"

definition cli_sign ::
    "'r cli_env \<Rightarrow> string list \<Rightarrow> fs_node option \<Rightarrow> fs_node option \<Rightarrow> fs_node option \<Rightarrow> key_dir \<Rightarrow> string \<Rightarrow> string
       \<Rightarrow> string \<Rightarrow> exn option \<Rightarrow> cli_result" where
  "cli_sign E path nd manifest_file mbom_file d key_name identity output fault =
     with_paths E [nd, manifest_file, mbom_file, key_node d key_name]
       (handled (ce_text E) TextFormat (sign_body E path nd manifest_file mbom_file d key_name identity) (\<lambda>envelope.
        write_document fault (ce_render E (envelope_json envelope)) [Line (''Wrote signature to '' @ output)]))"

section \<open>The guard\<close>

text \<open>\<open>--registry-dsn-env\<close>: without the option there is no registry; with it there is one, or an error.\<close>

definition registry_from_env :: "'r cli_env \<Rightarrow> string option \<Rightarrow> exn + 'r option" where
  "registry_from_env E env_name =
     (case env_name of
        None \<Rightarrow> Inr None
      | Some name \<Rightarrow>
          (let dsn = (case ce_environ E name of None \<Rightarrow> [] | Some v \<Rightarrow> v)
           in if dsn = [] then Inl ModelGuardError
              else (case ce_postgres E of
                  None \<Rightarrow> Inl ModelGuardError
                | Some connect \<Rightarrow> map_sum id Some (connect dsn))))"

text \<open>The options \<open>verify\<close> and \<open>policy check\<close> share; \<open>go_cache\<close> is the hasher over the cache directory.\<close>

record guard_options =
  go_storage_root :: "storage option"
  go_registry_dsn_env :: "string option"
  go_cache :: "(string list \<Rightarrow> exn + hash_result) option"
  go_trusted :: "string list"
  go_trust_config :: "fs_node option option"
  go_reject_legacy :: bool

definition make_guard :: "'r cli_env \<Rightarrow> guard_options \<Rightarrow> exn + 'r model_guard" where
  "make_guard E opts =
     (case (case go_trust_config opts of None \<Rightarrow> Inr None | Some nd \<Rightarrow> map_sum id Some (load_trust_config_file (ce_libs E) nd)) of
        Inl e \<Rightarrow> Inl e
      | Inr trust_config \<Rightarrow>
          (case registry_from_env E (go_registry_dsn_env opts) of
             Inl e \<Rightarrow> Inl e
           | Inr injected \<Rightarrow>
               make_model_guard (go_storage_root opts) (go_cache opts)
                 (if go_trusted opts = [] then None else Some (go_trusted opts))
                 trust_config injected (\<not> go_reject_legacy opts)))"

section \<open>Verifying\<close>

definition opt_json :: "string option \<Rightarrow> json" where
  "opt_json s = (case s of None \<Rightarrow> JNull | Some t \<Rightarrow> JStr t)"

text \<open>An optional string in an f-string.\<close>

definition shown :: "string option \<Rightarrow> string" where
  "shown s = (case s of None \<Rightarrow> ''None'' | Some t \<Rightarrow> t)"

definition verify_payload :: "wording \<Rightarrow> verification_result \<Rightarrow> json" where
  "verify_payload T r =
     JObj [(''allowed'', JBool (vr_allowed r)),
       (''artifact_digest'', JStr (vr_artifact_digest r)),
       (''digest_matches'', JBool (vr_digest_matches r)),
       (''signature_valid'', JBool (vr_signature_valid r)),
       (''signature_algorithm'', opt_json (vr_signature_algorithm r)),
       (''signer_key_fingerprint'', opt_json (vr_signer_key_fingerprint r)),
       (''signer_trusted'', case vr_signer_trusted r of None \<Rightarrow> JNull | Some t \<Rightarrow> JBool t),
       (''mbom_valid'', JBool (vr_mbom_valid r)),
       (''revoked'', JBool (vr_revoked r)),
       (''revocation_checked'', JBool (vr_revocation_checked r)),
       (''digest_from_cache'', JBool (vr_digest_from_cache r)),
       (''reasons'', JList (map (\<lambda>reason. JStr (verify_text T reason)) (vr_reasons r)))]"

definition verify_lines :: "wording \<Rightarrow> verification_result \<Rightarrow> string list" where
  "verify_lines T r =
     [''Verification: '' @ (if vr_allowed r then ''ALLOWED'' else ''DENIED''),
      ''Digest       : '' @ vr_artifact_digest r,
      ''Signature    : '' @ (if vr_signature_valid r then ''valid'' else ''INVALID'')]
     @ (if vr_signature_algorithm r \<noteq> None
        then [''Algorithm    : '' @ shown (vr_signature_algorithm r), ''Key          : '' @ shown (vr_signer_key_fingerprint r)]
        else [])
     @ [case vr_signer_trusted r of
          None \<Rightarrow> ''Signer       : NOT CHECKED (no --trusted-fingerprint given)''
        | Some t \<Rightarrow> ''Signer       : '' @ (if t then ''trusted'' else ''NOT TRUSTED''),
        ''ML-BOM       : '' @ (if vr_mbom_valid r then ''matches'' else ''DOES NOT MATCH'')]
     @ (if vr_revoked r then [''Revoked      : YES'']
        else if \<not> vr_revocation_checked r
        then [''Revocation   : NOT CHECKED (no --storage-root/--registry-dsn-env, or no model identity)''] else [])
     @ (if vr_digest_from_cache r then [''Digest source: local cache (file metadata unchanged)''] else [])
     @ map (\<lambda>reason. ''  reason: '' @ verify_text T reason) (vr_reasons r)"

definition verify_body ::
    "'r cli_env \<Rightarrow> guard_options \<Rightarrow> string list \<Rightarrow> fs_node option \<Rightarrow> fs_node option \<Rightarrow> fs_node option
       \<Rightarrow> exn + verification_result" where
  "verify_body E opts path nd mbom_file signature_file =
     (case make_guard E opts of
        Inl e \<Rightarrow> Inl e
      | Inr guard \<Rightarrow>
          guard_verify (ce_hash E) (ce_crypto E) (ce_libs E) (ce_ops E) (ce_clock E) guard path nd mbom_file signature_file)"

definition checked_paths :: "guard_options \<Rightarrow> fs_node option list" where
  "checked_paths opts = (case go_trust_config opts of None \<Rightarrow> [] | Some nd \<Rightarrow> [nd])"

definition cli_verify ::
    "'r cli_env \<Rightarrow> guard_options \<Rightarrow> string list \<Rightarrow> fs_node option \<Rightarrow> fs_node option \<Rightarrow> fs_node option \<Rightarrow> output_format
       \<Rightarrow> cli_result" where
  "cli_verify E opts path nd mbom_file signature_file output_format =
     with_paths E ([nd, mbom_file, signature_file] @ checked_paths opts)
       (handled (ce_text E) output_format (verify_body E opts path nd mbom_file signature_file) (\<lambda>r.
        finished (if vr_allowed r then exit_ok else exit_denied)
          (case output_format of
             JsonFormat \<Rightarrow> [Json (verify_payload (ce_text E) r)]
           | TextFormat \<Rightarrow> map Line (verify_lines (ce_text E) r))))"

section \<open>Scanning\<close>

definition severity_choices :: "(string \<times> finding_severity) list" where
  "severity_choices = [(''info'', INFO), (''low'', LOW), (''medium'', MEDIUM), (''high'', HIGH), (''critical'', CRITICAL)]"

definition severity_display_order :: "finding_severity list" where
  "severity_display_order = [CRITICAL, HIGH, MEDIUM, LOW, INFO]"

fun severity_value :: "finding_severity \<Rightarrow> string" where
  "severity_value INFO = ''INFO''"
| "severity_value LOW = ''LOW''"
| "severity_value MEDIUM = ''MEDIUM''"
| "severity_value HIGH = ''HIGH''"
| "severity_value CRITICAL = ''CRITICAL''"

fun confidence_value :: "confidence \<Rightarrow> string" where
  "confidence_value LowConfidence = ''LOW''"
| "confidence_value MediumConfidence = ''MEDIUM''"
| "confidence_value HighConfidence = ''HIGH''"

text \<open>The status of a finding is \<open>open\<close> for every scanner; the identifier is drawn anew for each.\<close>

definition finding_to_dict :: "wording \<Rightarrow> nat \<Rightarrow> finding \<Rightarrow> json" where
  "finding_to_dict T i f =
     JObj [(''finding_id'', JStr (wd_finding_id T i)), (''scanner'', JStr (fi_scanner f)), (''category'', JStr (fi_category f)),
       (''severity'', JStr (severity_value (fi_severity f))), (''confidence'', JStr (confidence_value (fi_confidence f))),
       (''component'', JStr (fi_component f)), (''message'', JStr (finding_text (fi_message f))),
       (''remediation'', JStr (remediation_text (fi_message f))), (''evidence'', opt_json (fi_evidence f)), (''status'', JStr ''open'')]"

definition scan_payload :: "wording \<Rightarrow> string \<Rightarrow> scan_report \<Rightarrow> json" where
  "scan_payload T scan_id report =
     JObj [(''artifact_digest'', JStr (sr_artifact_digest report)), (''scan_id'', JStr scan_id),
       (''scanner_statuses'', JObj (map (\<lambda>(name, st). (name, JStr st)) (sr_statuses report))),
       (''scanner_errors'', JObj (map (\<lambda>(name, e). (name, JStr (wd_exn T e))) (sr_errors report))),
       (''clean'', JBool (report_clean report)),
       (''findings'', JList (map (\<lambda>(i, f). finding_to_dict T i f) (enumerate 0 (sr_findings report))))]"

definition padded :: "nat \<Rightarrow> string \<Rightarrow> string" where
  "padded n s = s @ replicate (n - length s) (CHR '' '')"

definition finding_lines :: "finding \<Rightarrow> string list" where
  "finding_lines f =
     [''  ['' @ padded 8 (severity_value (fi_severity f)) @ ''] '' @ fi_scanner f @ '': '' @ fi_component f @ '': ''
        @ finding_text (fi_message f),
      ''             remediation: '' @ remediation_text (fi_message f)]"

definition severity_counts :: "scan_report \<Rightarrow> string list" where
  "severity_counts report =
     map (\<lambda>sev. severity_value sev @ ''='' @ int_str (count_severity report sev))
       (filter (\<lambda>sev. count_severity report sev \<noteq> 0) severity_display_order)"

definition scan_report_text :: "wording \<Rightarrow> scan_report \<Rightarrow> string list" where
  "scan_report_text T report =
     [''Artifact digest: '' @ sr_artifact_digest report,
      ''Scanners       : '' @ join '', '' (map (\<lambda>(name, st). name @ ''='' @ st) (sr_statuses report))]
     @ map (\<lambda>(name, e). ''  '' @ name @ '' ERROR: '' @ wd_exn T e) (sr_errors report)
     @ (if sr_findings report = [] then [''Findings       : none'']
        else (''Findings       : '' @ nat_str (length (sr_findings report)) @ '' ('' @ join '', '' (severity_counts report) @ '')'')
             # concat (map finding_lines (sort_key (\<lambda>f. - int (severity_rank (fi_severity f))) (sr_findings report))))"

definition blocking_findings :: "finding_severity \<Rightarrow> scan_report \<Rightarrow> finding list" where
  "blocking_findings threshold report =
     filter (\<lambda>f. severity_rank (fi_severity f) \<ge> severity_rank threshold) (sr_findings report)"

text \<open>A document that may be left out.\<close>

definition optional_document :: "(fs_node option \<Rightarrow> exn + 'a) \<Rightarrow> fs_node option option \<Rightarrow> exn + 'a option" where
  "optional_document load given = (case given of None \<Rightarrow> Inr None | Some nd \<Rightarrow> map_sum id Some (load nd))"

definition scan_body ::
    "'r cli_env \<Rightarrow> string list \<Rightarrow> fs_node option \<Rightarrow> fs_node option option \<Rightarrow> fs_node option option \<Rightarrow> exn + scan_report" where
  "scan_body E path nd manifest_file mbom_file =
     (case optional_document (load_manifest E) manifest_file of Inl e \<Rightarrow> Inl e | Inr m \<Rightarrow>
     (case optional_document (load_mbom (ce_libs E)) mbom_file of Inl e \<Rightarrow> Inl e | Inr b \<Rightarrow>
        run_scanners (ce_hash E) (ce_word E) path nd m b None None))"

definition cli_scan ::
    "'r cli_env \<Rightarrow> string list \<Rightarrow> fs_node option \<Rightarrow> fs_node option option \<Rightarrow> fs_node option option \<Rightarrow> string \<Rightarrow> output_format
       \<Rightarrow> cli_result" where
  "cli_scan E path nd manifest_file mbom_file fail_on output_format =
     (case map_of severity_choices fail_on of
        None \<Rightarrow> usage_error
      | Some threshold \<Rightarrow>
          with_paths E ([nd] @ (case manifest_file of None \<Rightarrow> [] | Some n \<Rightarrow> [n]) @ (case mbom_file of None \<Rightarrow> [] | Some n \<Rightarrow> [n]))
            (handled (ce_text E) output_format (scan_body E path nd manifest_file mbom_file) (\<lambda>report.
             finished (if \<not> all_scanners_ok report \<or> blocking_findings threshold report \<noteq> [] then exit_denied else exit_ok)
               (case output_format of
                  JsonFormat \<Rightarrow> [Json (scan_payload (ce_text E) (ce_uuid E) report)]
                | TextFormat \<Rightarrow> map Line (scan_report_text (ce_text E) report)))))"

section \<open>Policies\<close>

text \<open>\<open>policy validate\<close> catches the loader's own error only.\<close>

definition cli_policy_validate :: "'r cli_env \<Rightarrow> fs_node option \<Rightarrow> cli_result" where
  "cli_policy_validate E policy_file =
     with_paths E [policy_file]
       (case load_policy_file (ce_libs E) policy_file of
          Inl e \<Rightarrow> if catches PolicyValidationErrorC e then error_line (''Error: '' @ wd_exn (ce_text E) e) exit_error else traceback e
        | Inr doc \<Rightarrow>
            (let enabled = map fst (filter (\<lambda>(name, cfg). rc_enabled cfg) (pd_rules doc))
             in finished exit_ok
                  [Line (''Policy '' @ py_repr (pd_name doc) @ '' is valid (schema version '' @ pd_version doc @ '').''),
                   Line (''Enabled rules: '' @ (if enabled \<noteq> [] then join '', '' enabled else ''(none)''))]))"

fun decision_exit_code :: "decision \<Rightarrow> nat" where
  "decision_exit_code ALLOW = exit_ok"
| "decision_exit_code ALLOW_WITH_WARNINGS = exit_ok"
| "decision_exit_code REVIEW_REQUIRED = exit_review_required"
| "decision_exit_code QUARANTINE = exit_quarantine"
| "decision_exit_code DENY = exit_denied"
| "decision_exit_code REVOKED = exit_revoked"

definition rule_result_json :: "rule_result \<Rightarrow> json" where
  "rule_result_json r =
     JObj [(''rule'', JStr (rs_rule r)), (''action'', opt_json (map_option action_value (rs_action r))),
       (''message'', JStr (rule_text (rs_message r)))]"

definition policy_payload :: "string \<Rightarrow> string \<Rightarrow> policy_decision_result \<Rightarrow> json" where
  "policy_payload evaluation_id timestamp r =
     JObj [(''decision'', JStr (decision_value (dr_decision r))), (''policy_name'', JStr (dr_policy_name r)),
       (''policy_version'', JStr (dr_policy_version r)), (''subject'', JStr (dr_subject r)),
       (''evaluation_id'', JStr evaluation_id), (''timestamp'', JStr timestamp),
       (''failed_rules'', JList (map rule_result_json (failed_rules r)))]"

text \<open>The text \<open>explain\<close> returns, by lines.\<close>

definition explain_lines :: "policy_decision_result \<Rightarrow> string list" where
  "explain_lines r =
     (case explain r of
        ((subject, d), failed) \<Rightarrow>
          if is_allowed d \<and> failed = [] then [subject @ '': '' @ decision_value d @ '' -- all enabled rules passed.'']
          else [subject @ '': '' @ decision_value d, []]
               @ concat (map (\<lambda>(rule, message). [''Failed rule: '' @ rule, ''  '' @ rule_text message]) failed))"

definition policy_check_body ::
    "'r cli_env \<Rightarrow> guard_options \<Rightarrow> string list \<Rightarrow> fs_node option \<Rightarrow> fs_node option \<Rightarrow> fs_node option \<Rightarrow> fs_node option
       \<Rightarrow> exn + policy_decision_result" where
  "policy_check_body E opts path nd mbom_file signature_file policy_file =
     (case make_guard E opts of
        Inl e \<Rightarrow> Inl e
      | Inr guard \<Rightarrow>
          check_policy (ce_hash E) (ce_crypto E) (ce_libs E) (ce_word E) (ce_ops E) (ce_clock E) guard
            path nd mbom_file signature_file policy_file)"

definition cli_policy_check ::
    "'r cli_env \<Rightarrow> guard_options \<Rightarrow> string list \<Rightarrow> fs_node option \<Rightarrow> fs_node option \<Rightarrow> fs_node option \<Rightarrow> fs_node option
       \<Rightarrow> output_format \<Rightarrow> cli_result" where
  "cli_policy_check E opts path nd mbom_file signature_file policy_file output_format =
     with_paths E ([nd, mbom_file, signature_file, policy_file] @ checked_paths opts)
       (handled (ce_text E) output_format (policy_check_body E opts path nd mbom_file signature_file policy_file) (\<lambda>r.
        finished (decision_exit_code (dr_decision r))
          (case output_format of
             JsonFormat \<Rightarrow> [Json (policy_payload (ce_uuid E) (ce_now E) r)]
           | TextFormat \<Rightarrow> map Line (explain_lines r))))"

section \<open>How the commands end\<close>

named_theorems cli_simps \<open>the exit code and the document of a command\<close>

lemma finished_simps [cli_simps]:
  "exit_code (cr_ending (finished c out)) = c" "cr_ending (finished c out) = Exit c" "cr_document (finished c out) = None"
  by (simp_all add: finished_def)

lemma failure_simps [cli_simps]:
  "exit_code (cr_ending (fail T fmt e)) = 1" "cr_document (fail T fmt e) = None"
  "exit_code (cr_ending (traceback e)) = 1" "cr_document (traceback e) = None"
  "exit_code (cr_ending usage_error) = 2" "cr_document usage_error = None"
  "exit_code (cr_ending (error_line line c)) = c" "cr_document (error_line line c) = None"
  by (simp_all add: fail_def traceback_def usage_error_def error_line_def exit_error_def)

lemma handled_code [cli_simps]:
  "exit_code (cr_ending (handled T fmt r rest)) = (case r of Inl _ \<Rightarrow> 1 | Inr x \<Rightarrow> exit_code (cr_ending (rest x)))"
  "cr_document (handled T fmt r rest) = (case r of Inl _ \<Rightarrow> None | Inr x \<Rightarrow> cr_document (rest x))"
  by (simp_all add: handled_def failure_simps split: sum.splits)

lemma with_paths_code [cli_simps]:
  "exit_code (cr_ending (with_paths E nodes body)) = (if list_all (ce_path_ok E) nodes then exit_code (cr_ending body) else 2)"
  "cr_document (with_paths E nodes body) = (if list_all (ce_path_ok E) nodes then cr_document body else None)"
  by (simp_all add: with_paths_def failure_simps)

lemma write_document_Some [cli_simps]:
  "cr_document (write_document fault doc out) = Some x \<longleftrightarrow> fault = None \<and> x = doc"
  "exit_code (cr_ending (write_document fault doc out)) = (if fault = None then 0 else 1)"
  by (auto simp: write_document_def traceback_def exit_ok_def split: option.splits)

lemmas exit_codes = exit_ok_def exit_error_def exit_denied_def exit_review_required_def exit_quarantine_def exit_revoked_def

lemma verify_code:
  "exit_code (cr_ending (cli_verify E opts path nd mbom_file signature_file fmt)) =
     (if list_all (ce_path_ok E) ([nd, mbom_file, signature_file] @ checked_paths opts)
      then (case verify_body E opts path nd mbom_file signature_file of
              Inl _ \<Rightarrow> 1 | Inr r \<Rightarrow> if vr_allowed r then 0 else 2)
      else 2)"
  by (simp add: cli_verify_def cli_simps exit_codes split: sum.splits)

lemma policy_check_code:
  "exit_code (cr_ending (cli_policy_check E opts path nd mbom_file signature_file policy_file fmt)) =
     (if list_all (ce_path_ok E) ([nd, mbom_file, signature_file, policy_file] @ checked_paths opts)
      then (case policy_check_body E opts path nd mbom_file signature_file policy_file of
              Inl _ \<Rightarrow> 1 | Inr r \<Rightarrow> decision_exit_code (dr_decision r))
      else 2)"
  by (simp add: cli_policy_check_def cli_simps split: sum.splits)

section \<open>The guard the options make\<close>

lemma guard_trust_configured:
  assumes "guard_trust fingerprints config = Inr t" and "fingerprints \<noteq> None \<or> config \<noteq> None"
  shows "t \<noteq> None"
  using assms by (cases config) (auto simp: guard_trust_def Let_def split: option.splits sum.splits if_splits)

lemma make_guardE:
  assumes "make_guard E opts = Inr g"
  obtains "registry_from_env E (go_registry_dsn_env opts) = Inr (mg_injected g)" and "mg_storage g = go_storage_root opts"
    and "mg_hasher g = go_cache opts" and "mg_allow_legacy g = (\<not> go_reject_legacy opts)"
    and "go_trusted opts \<noteq> [] \<or> go_trust_config opts \<noteq> None \<Longrightarrow> mg_trust g \<noteq> None"
proof -
  obtain tc inj t where m: "(case go_trust_config opts of None \<Rightarrow> Inr None | Some nd \<Rightarrow> map_sum id Some (load_trust_config_file (ce_libs E) nd)) = Inr tc"
      "registry_from_env E (go_registry_dsn_env opts) = Inr inj"
      "guard_trust (if go_trusted opts = [] then None else Some (go_trusted opts)) tc = Inr t"
      "g = \<lparr>mg_allow_legacy = \<not> go_reject_legacy opts, mg_storage = go_storage_root opts, mg_injected = inj,
           mg_hasher = go_cache opts, mg_trust = t\<rparr>"
    using assms by (auto simp: make_guard_def make_model_guard_def split: sum.splits)
  have "tc \<noteq> None" if "go_trust_config opts \<noteq> None"
    using m(1) that by (cases "load_trust_config_file (ce_libs E) (the (go_trust_config opts))") auto
  then have "t \<noteq> None" if "go_trusted opts \<noteq> [] \<or> go_trust_config opts \<noteq> None"
    using guard_trust_configured [OF m(3)] that by (cases "go_trusted opts = []") auto
  then show thesis using m by (intro that) auto
qed

text \<open>The registry the operator named is used, or the command fails: there is no falling back.\<close>

lemma registry_from_env_Some:
  assumes "registry_from_env E (Some name) = Inr x"
  obtains dsn connect r where "ce_environ E name = Some dsn" and "dsn \<noteq> []" and "ce_postgres E = Some connect"
    and "connect dsn = Inr r" and "x = Some r"
  using assms by (auto simp: registry_from_env_def Let_def map_sum_Inr_iff split: option.splits if_splits)

section \<open>What an exit code of zero says\<close>

lemma named_registry_asked:
  assumes "registry_from_env E (Some name) = Inr (mg_injected g)" and "revocation_check (ce_ops E) g payload = Inr (rc, None)"
    and "sp_model_id payload = Some m" and "m \<noteq> []" and "sp_version payload = Some v" and "v \<noteq> []"
  shows "\<exists>dsn connect r. ce_environ E name = Some dsn \<and> dsn \<noteq> [] \<and> ce_postgres E = Some connect \<and> connect dsn = Inr r
     \<and> ro_is_revoked (ce_ops E) r m v = Inr None"
proof -
  obtain dsn connect r where d: "ce_environ E name = Some dsn" "dsn \<noteq> []" "ce_postgres E = Some connect" "connect dsn = Inr r"
      "mg_injected g = Some r"
    by (rule registry_from_env_Some [OF assms(1)])
  then have "ro_is_revoked (ce_ops E) r m v = Inr None"
    using assms(2-6) by (auto simp: revocation_check_def has_registry_def on_registry_def split: sum.splits)
  with d show ?thesis by blast
qed


section \<open>Errors\<close>

lemma load_envelope_modelguard: "load_envelope nd = Inl e \<Longrightarrow> is_modelguard e"
  by (auto simp: load_envelope_def read_file_def Let_def is_modelguard_iff catches_def [of OSErrorC]
      split: option.splits sum.splits if_splits fs_node.splits elim!: read_node.elims)

text \<open>
  C14. \<open>verify\<close> ends with a traceback, and nothing on its error stream that a script could read, only for an
  exception from outside the program: one met while the guard was made, an ML-BOM that cannot be read or
  validated, a foreign error of the hasher or of the registry.  No signature file can cause one.
\<close>

theorem verify_traceback_only:
  assumes "cr_ending (cli_verify E opts path nd mbom_file signature_file fmt) = Traceback e"
  shows "\<not> is_modelguard e
     \<and> (make_guard E opts = Inl e \<or> load_mbom (ce_libs E) mbom_file = Inl e
        \<or> (\<exists>g. make_guard E opts = Inr g
             \<and> (guard_hash (ce_hash E) g path nd = Inl e
                \<or> (\<exists>env. load_envelope signature_file = Inr env \<and> revocation_check (ce_ops E) g (se_payload env) = Inl e))))"
proof -
  have e: "\<not> is_modelguard e" "verify_body E opts path nd mbom_file signature_file = Inl e"
    using assms
    by (auto simp: cli_verify_def with_paths_def handled_def usage_error_def fail_def traceback_def finished_def
        split: if_splits sum.splits)
  show ?thesis
  proof (cases "make_guard E opts")
    case (Inr g)
    then have "guard_verify (ce_hash E) (ce_crypto E) (ce_libs E) (ce_ops E) (ce_clock E) g path nd mbom_file signature_file = Inl e"
      using e(2) by (simp add: verify_body_def)
    from verify_raises [OF this] show ?thesis using e(1) Inr load_envelope_modelguard by blast
  qed (use e in \<open>simp add: verify_body_def\<close>)
qed

text \<open>
  An ML-BOM that is not JSON does: the exit code is 1 as documented, but with \<open>--format json\<close> no error
  document is printed.
\<close>

lemma malformed_mbom_traceback:
  assumes "ce_path_ok E nd" and "ce_path_ok E signature_file" and "ce_path_ok E (Some (FFile ''x''))"
    and "list_all (ce_path_ok E) (checked_paths opts)" and "make_guard E opts = Inr g"
  shows "cli_verify E opts path nd (Some (FFile ''x'')) signature_file fmt = traceback JSONDecodeError"
proof -
  have "loads ''x'' = None" by code_simp
  then have "load_mbom (ce_libs E) (Some (FFile ''x'')) = Inl JSONDecodeError"
    by (simp add: load_mbom_def read_json_def read_file_def)
  then show ?thesis
    using assms by (simp add: cli_verify_def with_paths_def handled_def verify_body_def guard_verify_def is_modelguard_iff)
qed

text \<open>A path that does not exist ends \<open>verify\<close> with the status of a denial, not with the 1 its help text gives.\<close>

lemma missing_path_exits_denied:
  "\<not> ce_path_ok E nd \<Longrightarrow> exit_code (cr_ending (cli_verify E opts path nd mbom_file signature_file fmt)) = exit_denied"
  "\<not> ce_path_ok E nd \<Longrightarrow> fail_on \<in> fst ` set severity_choices \<Longrightarrow>
     exit_code (cr_ending (cli_scan E path nd manifest_file mbom_file' fail_on fmt)) = exit_denied"
  by (simp_all add: verify_code cli_scan_def cli_simps exit_denied_def split: option.splits)

section \<open>Signing what is on disk\<close>

text \<open>
  C13. A signature that \<open>sign\<close> writes is for the artifact now on disk, whatever the manifest file says: its
  payload carries the digest the artifact hashes to and the hash of the ML-BOM, and it verifies under the
  key that was given.
\<close>

theorem sign_writes_current:
  assumes "cr_document (cli_sign E path nd manifest_file mbom_file d key_name identity output fault) = Some doc"
  shows "\<exists>env b kp current chk. doc = ce_render E (envelope_json env) \<and> load_mbom (ce_libs E) mbom_file = Inr b
     \<and> load_private_key (ce_private_ok E) (ce_ed_public E) d key_name identity = Inr kp
     \<and> hash_artifact (ce_hash E) path nd = Inr current \<and> sp_artifact_digest (se_payload env) = digest_ref current
     \<and> check_mbom_digest (ce_hash E) b env
     \<and> verify_envelope_signature (ce_hash E) (default_verifiers (ce_crypto E)) False env = Inr chk
     \<and> sc_key_fingerprint chk = ce_hash E (kp_public_key kp)"
proof -
  obtain env where env: "sign_body E path nd manifest_file mbom_file d key_name identity = Inr env"
      "doc = ce_render E (envelope_json env)"
    using assms by (auto simp: cli_sign_def cli_simps split: if_splits sum.splits)
  obtain m b kp current where s: "load_mbom (ce_libs E) mbom_file = Inr b"
      "load_private_key (ce_private_ok E) (ce_ed_public E) d key_name identity = Inr kp"
      "hash_artifact (ce_hash E) path nd = Inr current" "digest_ref current = m_algorithm m @ '':'' @ m_digest m"
      "sign_artifact (ce_hash E) (ce_crypto E) (ce_ed_sign E) (ce_now E) m b kp = Inr env"
    using env(1) by (auto simp: sign_body_def digest_ref_def split: sum.splits if_splits)
  show ?thesis
    using signer_output_verifies [OF s(5) [unfolded sign_artifact_def]] s env(2) by (auto simp: local_signer_def)
qed

section \<open>From the artifact to a passing verification\<close>

text \<open>What the layout of a document must not change.\<close>

definition faithful_render :: "(json \<Rightarrow> bytes) \<Rightarrow> json \<Rightarrow> bool" where
  "faithful_render render j \<longleftrightarrow> Option.bind (utf8_decode (render j)) loads = Some (canon j)"

lemma read_rendered: "faithful_render render j \<Longrightarrow> read_json (Some (FFile (render j))) = Inr (canon j)"
  by (auto simp: faithful_render_def read_json_def read_file_def split: option.splits bind_splits)

lemma load_rendered_envelope:
  "faithful_render render (envelope_json env) \<Longrightarrow> length (render (envelope_json env)) \<le> max_envelope_bytes
     \<Longrightarrow> load_envelope (Some (FFile (render (envelope_json env)))) = Inr env"
  by (simp add: faithful_render_def load_envelope_def read_file_def Let_def envelope_of_envelope_json)

text \<open>The ML-BOM's text is the program's own.\<close>

lemma load_written_bom: "load_mbom L (Some (FFile (mlbom_to_json b))) = Inr b"
proof -
  have "utf8_decode (mlbom_to_json b) = Some (mlbom_to_json b)"
    unfolding mlbom_to_json_def by (intro utf8_decode_ascii ascii_indented wf_mlbom)
  then have "read_json (Some (FFile (mlbom_to_json b))) = Inr (canon (drop_none (mlbom_fields b)))"
    using loads_dumps_indented [OF wf_mlbom, of True 0 b] by (simp add: read_json_def read_file_def mlbom_to_json_def)
  then show ?thesis by (simp add: load_mbom_def mlbom_of_dump)
qed

lemma built_manifest_valid: "build_manifest H path nd meta framework = Inr m \<Longrightarrow> valid_manifest m"
  by (auto simp: build_manifest_def Let_def split: sum.splits if_splits)

lemma documents_fit:
  assumes "build_manifest (ce_hash E) path nd (Some (manifest_metadata model_id version license)) None = Inr m"
    and "b = generate_mbom (ce_uuid E) (ce_now E) m None"
    and "load_private_key (ce_private_ok E) (ce_ed_public E) d key_name identity = Inr kp"
    and "usable_key (ce_crypto E) (ce_ed_sign E) kp"
    and "env = local_envelope (ce_hash E) (ce_ed_sign E) (ce_now E) m b kp"
    and "faithful_render (ce_render E) (drop_none (manifest_fields m))" and "faithful_render (ce_render E) (envelope_json env)"
    and "length (ce_render E (envelope_json env)) \<le> max_envelope_bytes"
    and "\<And>raw. ce_path_ok E (Some (FFile raw))" and "ce_path_ok E nd" and "list_all (ce_path_ok E) (checked_paths opts)"
    and "make_guard E opts = Inr g" and "go_cache opts = None"
    and "revocation_check (ce_ops E) g (se_payload env) = Inr (rc, None)"
    and "\<And>config. mg_trust g = Some config \<Longrightarrow>
      te_trusted (evaluate_trust (ce_hash E (kp_public_key kp)) algorithm_ed25519 config (Some (kp_identity kp)) (m_model_id m) (ce_clock E))"
  shows "\<exists>manifest_doc mbom_doc signature_doc.
      cr_document (cli_manifest E path nd o1 None model_id version license) = Some manifest_doc
    \<and> cr_document (cli_mbom_generate E (Some (FFile manifest_doc)) o2 None) = Some mbom_doc
    \<and> cr_document (cli_sign E path nd (Some (FFile manifest_doc)) (Some (FFile mbom_doc)) d key_name identity o3 None) = Some signature_doc
    \<and> exit_code (cr_ending (cli_verify E opts path nd (Some (FFile mbom_doc)) (Some (FFile signature_doc)) fmt)) = 0"
proof -
  let ?md = "ce_render E (drop_none (manifest_fields m))" and ?bd = "mlbom_to_json b"
    and ?sd = "ce_render E (envelope_json env)"
  obtain cur where cur: "hash_artifact (ce_hash E) path nd = Inr cur" "m_digest m = ad_digest cur" "m_algorithm m = ad_algorithm cur"
    using assms(1) by (auto simp: build_manifest_def Let_def split: sum.splits if_splits)
  have m: "load_manifest E (Some (FFile ?md)) = Inr m"
    using built_manifest_valid [OF assms(1)] by (simp add: load_manifest_def read_rendered [OF assms(6)] manifest_of_dump)
  have b: "load_mbom (ce_libs E) (Some (FFile ?bd)) = Inr b"
    by (rule load_written_bom)
  have s: "sign_artifact (ce_hash E) (ce_crypto E) (ce_ed_sign E) (ce_now E) m b kp = Inr env"
    unfolding assms(5) by (rule sign_artifact_local [OF assms(4)])
  have key: "ce_path_ok E (key_node d key_name)"
    using assms(3,9) by (auto simp: load_private_key_def key_node_def split: option.splits prod.splits if_splits)
  have hasher: "mg_hasher g = None" by (rule make_guardE [OF assms(12)]) (simp add: assms(13))
  obtain r where r: "guard_verify (ce_hash E) (ce_crypto E) (ce_libs E) (ce_ops E) (ce_clock E) g path nd (Some (FFile ?bd))
      (Some (FFile ?sd)) = Inr r" "vr_allowed r"
    using genuine_artifact_verifies [OF assms(1,4) s load_rendered_envelope [OF assms(7,8)] b hasher assms(14,15)] by blast
  show ?thesis
  proof (intro exI conjI)
    show "cr_document (cli_manifest E path nd o1 None model_id version license) = Some ?md"
      using assms(1,10) by (simp add: cli_manifest_def cli_simps)
    show "cr_document (cli_mbom_generate E (Some (FFile ?md)) o2 None) = Some ?bd"
      using assms(9) by (simp add: cli_mbom_generate_def cli_simps m assms(2))
    show "cr_document (cli_sign E path nd (Some (FFile ?md)) (Some (FFile ?bd)) d key_name identity o3 None) = Some ?sd"
      using assms(3,9,10) key by (simp add: cli_sign_def cli_simps sign_body_def m b cur s)
    show "exit_code (cr_ending (cli_verify E opts path nd (Some (FFile ?bd)) (Some (FFile ?sd)) fmt)) = 0"
      using assms(9-12) r by (simp add: verify_code verify_body_def)
  qed
qed

text \<open>
  C7. The commands fit together: \<open>manifest\<close>, \<open>mbom generate\<close> and \<open>sign\<close> on an artifact that can be hashed, with
  a usable key, write documents with which \<open>verify\<close> of the unchanged artifact exits with 0, under any options
  that trust the key and any registry that reports no revocation.  The manifest and the signature are
  laid out by pydantic, which must not change the documents.
\<close>

theorem commands_fit_together:
  assumes "build_manifest (ce_hash E) path nd (Some (manifest_metadata model_id version license)) None = Inr m"
    and "b = generate_mbom (ce_uuid E) (ce_now E) m None"
    and "load_private_key (ce_private_ok E) (ce_ed_public E) d key_name identity = Inr kp"
    and "usable_key (ce_crypto E) (ce_ed_sign E) kp"
    and "env = local_envelope (ce_hash E) (ce_ed_sign E) (ce_now E) m b kp"
    and "faithful_render (ce_render E) (drop_none (manifest_fields m))" and "faithful_render (ce_render E) (envelope_json env)"
    and "length (ce_render E (envelope_json env)) \<le> max_envelope_bytes"
    and "\<And>raw. ce_path_ok E (Some (FFile raw))" and "ce_path_ok E nd" and "list_all (ce_path_ok E) (checked_paths opts)"
    and "make_guard E opts = Inr g" and "go_cache opts = None"
    and "revocation_check (ce_ops E) g (se_payload env) = Inr (rc, None)"
    and "\<And>config. mg_trust g = Some config \<Longrightarrow>
      te_trusted (evaluate_trust (ce_hash E (kp_public_key kp)) algorithm_ed25519 config (Some (kp_identity kp)) (m_model_id m) (ce_clock E))"
  shows "\<exists>manifest_doc mbom_doc signature_doc.
      cr_document (cli_manifest E path nd o1 None model_id version license) = Some manifest_doc
    \<and> cr_document (cli_mbom_generate E (Some (FFile manifest_doc)) o2 None) = Some mbom_doc
    \<and> cr_document (cli_sign E path nd (Some (FFile manifest_doc)) (Some (FFile mbom_doc)) d key_name identity o3 None) = Some signature_doc
    \<and> exit_code (cr_ending (cli_verify E opts path nd (Some (FFile mbom_doc)) (Some (FFile signature_doc)) fmt)) = 0"
  by (rule documents_fit) (rule assms)+

section \<open>Scanning and policies\<close>

text \<open>What the built-in scanners report with at least HIGH severity in a file of the artifact.\<close>

definition dangerous :: "(nat \<Rightarrow> bool) \<Rightarrow> string \<Rightarrow> bytes \<Rightarrow> bool" where
  "dangerous word name content \<longleftrightarrow>
     py_lower (path_suffix name) \<in> set pickle_extensions
   \<or> length content \<le> max_file_size \<and> \<not> looks_binary (take 1024 content)
     \<and> (case decode_utf8 content of
          None \<Rightarrow> False
        | Some t \<Rightarrow> aws_key_in word t \<or> pem_header_in t \<or> github_token_in word t)"

lemma dangerous_reported:
  assumes "run_scanners H word root (Some n) m b None d = Inr report"
    and "(q, content) \<in> set (contents [] n)" and "\<not> is_symlink n" and "dangerous word (component_name root q) content"
  obtains f where "f \<in> set (sr_findings report)" and "fi_component f = component_name root q" and "fi_severity f \<in> {HIGH, CRITICAL}"
proof (cases "py_lower (path_suffix (component_name root q)) \<in> set pickle_extensions")
  case True
  then show ?thesis using pickle_files_reported [OF assms(1-3), of HIGH] that by auto
next
  case False
  then obtain t where t: "length content \<le> max_file_size" "\<not> looks_binary (take 1024 content)" "decode_utf8 content = Some t"
      "aws_key_in word t \<or> pem_header_in t \<or> github_token_in word t"
    using assms(4) by (auto simp: dangerous_def split: option.splits)
  show ?thesis
  proof (cases "aws_key_in word t \<or> pem_header_in t")
    case True
    then show ?thesis using credentials_reported [OF assms(1-3) t(1-3), of CRITICAL] that by auto
  next
    case False
    then show ?thesis using credentials_reported [OF assms(1-3) t(1-3), of HIGH] t(4) that by auto
  qed
qed


text \<open>
  \<open>policy check\<close> on a version the registry reports revoked exits with 5 under every policy that enables the
  revocation rule, whatever action the rule is given and whatever else fails; only an error, with exit code 1,
  can come before it.
\<close>

theorem policy_check_revoked:
  assumes "list_all (ce_path_ok E) ([nd, mbom_file, signature_file, policy_file] @ checked_paths opts)"
    and "make_guard E opts = Inr g" and "load_envelope signature_file = Inr env"
    and "revocation_check (ce_ops E) g (se_payload env) = Inr (True, Some rv)"
    and "load_policy_file (ce_libs E) policy_file = Inr policy" and "map_of (pd_rules policy) revocation_rule = Some config" and "rc_enabled config"
  shows "exit_code (cr_ending (cli_policy_check E opts path nd mbom_file signature_file policy_file fmt))
     = (if is_ok (policy_check_body E opts path nd mbom_file signature_file policy_file) then 5 else 1)"
proof -
  have "dr_decision r = REVOKED" if "policy_check_body E opts path nd mbom_file signature_file policy_file = Inr r" for r
  proof -
    obtain chk where c: "check_policy_detailed (ce_hash E) (ce_crypto E) (ce_libs E) (ce_word E) (ce_ops E) (ce_clock E) g
        path nd mbom_file signature_file policy_file = Inr chk" "r = pk_decision chk"
      using \<open>policy_check_body E opts path nd mbom_file signature_file policy_file = Inr r\<close>
      by (auto simp: policy_check_body_def assms(2) check_policy_def map_sum_Inr_iff)
    have "dr_decision (pk_decision chk) = REVOKED" by (rule found_revocation_decision) (rule assms c(1))+
    then show ?thesis using c(2) by simp
  qed
  then show ?thesis using assms(1) by (auto simp: policy_check_code is_ok_def exit_codes split: sum.splits)
qed

section \<open>Examples\<close>

lemma faithful_dumps: "wf_json j \<Longrightarrow> faithful_render dumps j"
  by (simp add: faithful_render_def dumps_ascii loads_dumps)

text \<open>A registry that answers \<open>answer\<close> for every version, reached through the variable \<open>DSN\<close>.\<close>

definition demo_bom :: mlbom where
  "demo_bom = generate_mbom ''u'' ''t'' demo_manifest None"

definition demo_env_on :: "'r registry_ops \<Rightarrow> (string \<Rightarrow> exn + 'r) \<Rightarrow> 'r cli_env" where
  "demo_env_on ops connect =
     \<lparr>ce_text = sample_wording, ce_hash = demo_hash, ce_crypto = demo_crypto, ce_ed_sign = demo_sign,
      ce_ed_public = (\<lambda>_. kp_public_key sample_key_pair), ce_private_ok = (\<lambda>_. True), ce_public_ok = (\<lambda>_. True),
      ce_word = (\<lambda>_. False), ce_libs = sample_libs,
      ce_render = dumps, ce_path_ok = path_exists, ce_environ = (\<lambda>name. if name = ''DSN'' then Some ''d'' else None),
      ce_postgres = Some connect, ce_ops = ops, ce_clock = 5, ce_now = ''t'', ce_uuid = ''u''\<rparr>"

definition demo_cli :: "revocation_record option \<Rightarrow> unit cli_env" where
  "demo_cli answer = demo_env_on (demo_ops\<lparr>ro_is_revoked := \<lambda>_ _ _. Inr answer\<rparr>) (\<lambda>_. Inr ())"

definition demo_options :: guard_options where
  "demo_options = \<lparr>go_storage_root = None, go_registry_dsn_env = Some ''DSN'', go_cache = None,
     go_trusted = [sample_fingerprint], go_trust_config = None, go_reject_legacy = True\<rparr>"

definition demo_keys :: key_dir where
  "demo_keys = [(''k'', (384, kp_private_key sample_key_pair))]"

definition demo_signed_env :: signature_envelope where
  "demo_signed_env = local_envelope demo_hash demo_sign ''t'' demo_manifest demo_bom sample_key_pair"

lemma demo_cli_guard: "make_guard (demo_cli answer) demo_options = Inr (demo_guard None (Some ()))"
proof -
  have "guard_trust (Some [sample_fingerprint]) None = Inr (Some \<lparr>tr_version = ''1'', tr_keys = [trusted_entry sample_fingerprint]\<rparr>)"
    by code_simp
  then show ?thesis
    by (simp add: make_guard_def demo_options_def registry_from_env_def demo_cli_def demo_env_on_def make_model_guard_def demo_guard_def)
qed

lemma demo_key: "load_private_key (\<lambda>_. True) (\<lambda>_. kp_public_key sample_key_pair) demo_keys ''k'' ''alice'' = Inr sample_key_pair"
  by (simp add: load_private_key_def demo_keys_def sample_key_pair_def)

lemma demo_metadata_given: "manifest_metadata (Some ''demo'') (Some ''1'') None = demo_metadata"
  by (simp add: manifest_metadata_def demo_metadata_def no_metadata_def)

lemma demo_revocation_check:
  "revocation_check (ce_ops (demo_cli answer)) (demo_guard None (Some ())) (se_payload demo_signed_env) = Inr (True, answer)"
  by (simp add: revocation_check_def has_registry_def on_registry_def demo_guard_def demo_cli_def demo_env_on_def demo_signed_env_def local_envelope_def
      Let_def signed_payload_def demo_manifest_def)

lemma demo_signed_fits: "length (dumps (envelope_json demo_signed_env)) \<le> max_envelope_bytes"
  unfolding demo_signed_env_def
  by (rule local_envelope_fits) (simp_all add: demo_hash_def sample_fingerprint_def sample_key_pair_def demo_sign_def demo_manifest_def
      built_manifest_def text_size_def)

lemma demo_exists [simp]: "path_exists (Some (FFile raw))" "path_exists demo_artifact"
  by (simp_all add: path_exists_def demo_artifact_def)

lemma demo_facts:
  "build_manifest (ce_hash (demo_cli answer)) [''m.bin''] demo_artifact (Some (manifest_metadata (Some ''demo'') (Some ''1'') None)) None
     = Inr demo_manifest"
  "demo_bom = generate_mbom (ce_uuid (demo_cli answer)) (ce_now (demo_cli answer)) demo_manifest None"
  "load_private_key (ce_private_ok (demo_cli answer)) (ce_ed_public (demo_cli answer)) demo_keys ''k'' ''alice'' = Inr sample_key_pair"
  "usable_key (ce_crypto (demo_cli answer)) (ce_ed_sign (demo_cli answer)) sample_key_pair"
  "demo_signed_env = local_envelope (ce_hash (demo_cli answer)) (ce_ed_sign (demo_cli answer)) (ce_now (demo_cli answer)) demo_manifest
     demo_bom sample_key_pair"
  "faithful_render (ce_render (demo_cli answer)) (drop_none (manifest_fields demo_manifest))"
  "faithful_render (ce_render (demo_cli answer)) (envelope_json demo_signed_env)"
  "length (ce_render (demo_cli answer) (envelope_json demo_signed_env)) \<le> max_envelope_bytes"
  "ce_path_ok (demo_cli answer) (Some (FFile raw))" "ce_path_ok (demo_cli answer) demo_artifact"
  "list_all (ce_path_ok (demo_cli answer)) (checked_paths demo_options)"
  using demo_manifest demo_key demo_usable demo_signed_fits faithful_dumps [OF wf_manifest_fields]
    faithful_dumps [OF wf_envelope_json]
  by (simp_all add: demo_cli_def demo_env_on_def demo_metadata_given demo_bom_def demo_signed_env_def checked_paths_def demo_options_def)

lemma demo_trusts:
  "mg_trust (demo_guard None (Some ())) = Some config \<Longrightarrow>
     te_trusted (evaluate_trust (ce_hash (demo_cli answer) (kp_public_key sample_key_pair)) algorithm_ed25519 config
       (Some (kp_identity sample_key_pair)) (m_model_id demo_manifest) (ce_clock (demo_cli answer)))"
  by (auto simp: demo_guard_def demo_cli_def demo_env_on_def demo_hash_def demo_trusted)

theorem commands_fit_together_witness:
  "\<exists>manifest_doc mbom_doc signature_doc.
      cr_document (cli_manifest (demo_cli None) [''m.bin''] demo_artifact ''m'' None (Some ''demo'') (Some ''1'') None) = Some manifest_doc
    \<and> cr_document (cli_mbom_generate (demo_cli None) (Some (FFile manifest_doc)) ''b'' None) = Some mbom_doc
    \<and> cr_document (cli_sign (demo_cli None) [''m.bin''] demo_artifact (Some (FFile manifest_doc)) (Some (FFile mbom_doc)) demo_keys
        ''k'' ''alice'' ''s'' None) = Some signature_doc
    \<and> exit_code (cr_ending (cli_verify (demo_cli None) demo_options [''m.bin''] demo_artifact (Some (FFile mbom_doc))
        (Some (FFile signature_doc)) JsonFormat)) = 0"
  by (rule commands_fit_together [OF demo_facts demo_cli_guard _ demo_revocation_check demo_trusts]) (simp_all add: demo_options_def)

lemma demo_documents:
  obtains manifest_doc mbom_doc signature_doc where
    "cr_document (cli_sign (demo_cli None) [''m.bin''] demo_artifact (Some (FFile manifest_doc)) (Some (FFile mbom_doc)) demo_keys
        ''k'' ''alice'' ''s'' None) = Some signature_doc"
    and "exit_code (cr_ending (cli_verify (demo_cli None) demo_options [''m.bin''] demo_artifact (Some (FFile mbom_doc))
        (Some (FFile signature_doc)) JsonFormat)) = 0"
proof -
  have "go_cache demo_options = None" by (simp add: demo_options_def)
  from documents_fit [OF demo_facts demo_cli_guard this demo_revocation_check demo_trusts, where fmt = JsonFormat] that
  show thesis by blast
qed


theorem sign_writes_current_witness:
  "\<exists>(env :: signature_envelope) current. hash_artifact demo_hash [''m.bin''] demo_artifact = Inr current \<and> sp_artifact_digest (se_payload env) = digest_ref current"
proof -
  obtain md bd sd where "cr_document (cli_sign (demo_cli None) [''m.bin''] demo_artifact (Some (FFile md)) (Some (FFile bd)) demo_keys
        ''k'' ''alice'' ''s'' None) = Some sd"
    by (rule demo_documents)
  from sign_writes_current [OF this] show ?thesis by (auto simp: demo_cli_def demo_env_on_def)
qed

theorem verify_traceback_only_witness:
  "cr_ending (cli_verify (demo_cli None) demo_options [''m.bin''] demo_artifact (Some (FFile ''x'')) demo_signature JsonFormat)
     = Traceback JSONDecodeError
   \<and> \<not> is_modelguard JSONDecodeError"
proof -
  have t: "cr_ending (cli_verify (demo_cli None) demo_options [''m.bin''] demo_artifact (Some (FFile ''x'')) demo_signature JsonFormat)
     = Traceback JSONDecodeError"
    by (subst malformed_mbom_traceback [OF _ _ _ _ demo_cli_guard])
      (simp_all add: traceback_def demo_cli_def demo_env_on_def demo_signature_def checked_paths_def demo_options_def)
  with verify_traceback_only [OF t] show ?thesis by blast
qed


definition demo_bom_file :: "fs_node option" where
  "demo_bom_file = Some (FFile (dumps (drop_none (mlbom_fields demo_bom))))"

definition demo_signed_file :: "fs_node option" where
  "demo_signed_file = Some (FFile (dumps (envelope_json demo_signed_env)))"

lemma demo_signed_file:
  "load_envelope demo_signed_file = Inr demo_signed_env" "read_json demo_signed_file = Inr (canon (envelope_json demo_signed_env))"
  unfolding demo_signed_file_def
  by (rule load_rendered_envelope [OF faithful_dumps [OF wf_envelope_json] demo_signed_fits], rule read_written_json [OF wf_envelope_json])

lemma demo_policy_checked:
  "is_ok (policy_check_body (demo_cli (Some rv)) demo_options [''m.bin''] demo_artifact demo_bom_file demo_signed_file
     (one_rule_file revocation_rule))"
proof -
  let ?E = "demo_cli (Some rv)" and ?g = "demo_guard None (Some ())"
  have b: "load_mbom (ce_libs ?E) demo_bom_file = Inr demo_bom" unfolding demo_bom_file_def by (rule load_written_mbom)
  have h: "hash_artifact demo_hash [''m.bin''] demo_artifact \<noteq> Inl e" "guard_hash demo_hash ?g [''m.bin''] demo_artifact \<noteq> Inl e" for e
    by (simp_all add: guard_hash_def demo_guard_def demo_artifact_def hash_artifact_def hash_file_def path_exists_def path_is_dir_def
        path_is_symlink_def artifact_digest_from_files_def)
  have "guard_verify (ce_hash ?E) (ce_crypto ?E) (ce_libs ?E) (ce_ops ?E) (ce_clock ?E) ?g [''m.bin''] demo_artifact demo_bom_file
      demo_signed_file \<noteq> Inl e" for e
    using verify_raises [of "ce_hash ?E" "ce_crypto ?E" "ce_libs ?E" "ce_ops ?E" "ce_clock ?E" ?g "[''m.bin'']" demo_artifact
        demo_bom_file demo_signed_file e] b h(2) demo_signed_file(1) demo_revocation_check [of "Some rv"]
    by (auto simp: demo_cli_def demo_env_on_def)
  then obtain r where r: "guard_verify (ce_hash ?E) (ce_crypto ?E) (ce_libs ?E) (ce_ops ?E) (ce_clock ?E) ?g [''m.bin''] demo_artifact
      demo_bom_file demo_signed_file = Inr r" by (metis sum.exhaust)
  have s: "\<exists>report. run_scanners demo_hash word [''m.bin''] demo_artifact m bom None d = Inr report" for word m bom d
    using h(1) by (cases "hash_artifact demo_hash [''m.bin''] demo_artifact")
      (auto simp: run_scanners_def Let_def split: option.splits prod.splits)
  have e: "ce_hash ?E = demo_hash" by (simp add: demo_cli_def demo_env_on_def)
  obtain report where "run_scanners (ce_hash ?E) (ce_word ?E) [''m.bin''] demo_artifact (Some (policy_manifest demo_artifact r (se_payload demo_signed_env)))
      (Some demo_bom) None (if vr_digest_matches r then Some (vr_artifact_digest r) else None) = Inr report"
    unfolding e using s by blast
  moreover have "load_policy_file (ce_libs ?E) (one_rule_file revocation_rule) = Inr (one_rule revocation_rule)"
    by (simp add: demo_cli_def demo_env_on_def load_demo_policies)
  ultimately show ?thesis
    using b r by (simp add: policy_check_body_def demo_cli_guard check_policy_def check_policy_detailed_def demo_signed_file(2)
        envelope_of_envelope_json Let_def is_ok_def)
qed

theorem policy_check_revoked_witness:
  "exit_code (cr_ending (cli_policy_check (demo_cli (Some sample_revocation)) demo_options [''m.bin''] demo_artifact demo_bom_file
       demo_signed_file (one_rule_file revocation_rule) TextFormat)) = 5"
proof -
  have p: "list_all (ce_path_ok (demo_cli (Some sample_revocation))) ([demo_artifact, demo_bom_file, demo_signed_file,
      one_rule_file revocation_rule] @ checked_paths demo_options)"
    by (simp add: demo_cli_def demo_env_on_def checked_paths_def demo_options_def one_rule_file_def demo_bom_file_def demo_signed_file_def)
  have c: "load_policy_file (ce_libs (demo_cli (Some sample_revocation))) (one_rule_file revocation_rule) = Inr (one_rule revocation_rule)"
    by (simp add: demo_cli_def demo_env_on_def load_demo_policies)
  have r: "map_of (pd_rules (one_rule revocation_rule)) revocation_rule = Some \<lparr>rc_enabled = True, rc_on_fail = Deny, rc_max_count = 0\<rparr>"
    by (simp add: one_rule_def)
  show ?thesis
    using policy_check_revoked [OF p demo_cli_guard demo_signed_file(1) demo_revocation_check c r] demo_policy_checked by simp
qed

end
