(* ===== verification/Cli_Registry.thy ===== *)
theory Cli_Registry
  imports Cli Postgres_Admission
begin

text \<open>
  The commands on the registry, the provenance log and the trust file (\<open>cli/main.py\<close>): \<open>register\<close>,
  \<open>resolve\<close>, \<open>revoke\<close>, \<open>lineage\<close>, \<open>provenance record\<close>, \<open>registry migrate\<close>, \<open>registry verify-chain\<close>,
  \<open>trust validate\<close>, and how the commands that change the trust file end.  A command that changes the
  registry also yields the guard whose storage or database it left.
\<close>

section \<open>The registry\<close>

definition registry_options :: "storage \<Rightarrow> string option \<Rightarrow> guard_options" where
  "registry_options storage_root registry_dsn_env =
     \<lparr>go_storage_root = Some storage_root, go_registry_dsn_env = registry_dsn_env, go_cache = None, go_trusted = [],
      go_trust_config = None, go_reject_legacy = False\<rparr>"

text \<open>What a body that raised or never ran leaves is what was there before.\<close>

definition changed :: "bool \<Rightarrow> exn + 'g \<times> 'a \<Rightarrow> 'g option" where
  "changed entered body = (if entered then (case body of Inl _ \<Rightarrow> None | Inr (g, _) \<Rightarrow> Some g) else None)"

definition register_body ::
    "'r cli_env \<Rightarrow> storage \<Rightarrow> string option \<Rightarrow> fs_node option \<Rightarrow> fs_node option \<Rightarrow> string
       \<Rightarrow> exn + 'r model_guard \<times> registry_record" where
  "register_body E storage_root registry_dsn_env manifest_file mbom_file actor =
     (case make_guard E (registry_options storage_root registry_dsn_env) of Inl e \<Rightarrow> Inl e | Inr guard \<Rightarrow>
     (case load_manifest E manifest_file of Inl e \<Rightarrow> Inl e | Inr m \<Rightarrow>
     (case load_mbom (ce_libs E) mbom_file of Inl e \<Rightarrow> Inl e | Inr bom \<Rightarrow>
        guard_register (ce_ops E) (ce_now E) guard m bom actor)))"

definition cli_register ::
    "'r cli_env \<Rightarrow> storage \<Rightarrow> string option \<Rightarrow> fs_node option \<Rightarrow> fs_node option \<Rightarrow> string
       \<Rightarrow> cli_result \<times> 'r model_guard option" where
  "cli_register E storage_root registry_dsn_env manifest_file mbom_file actor =
     (let body = register_body E storage_root registry_dsn_env manifest_file mbom_file actor
      in (with_paths E [manifest_file, mbom_file] (handled (ce_text E) TextFormat body (\<lambda>(_, record).
            finished exit_ok
              [Line (''Registered '' @ rr_model_id record @ ''@'' @ rr_version record), Line (''URI: '' @ registry_uri record)])),
          changed (list_all (ce_path_ok E) [manifest_file, mbom_file]) body))"

text \<open>The revocation is asked for only when there is a record.\<close>

definition resolve_body ::
    "'r cli_env \<Rightarrow> storage \<Rightarrow> string option \<Rightarrow> string \<Rightarrow> string
       \<Rightarrow> exn + (registry_record \<times> revocation_record option) option" where
  "resolve_body E storage_root registry_dsn_env model_id version =
     (case make_guard E (registry_options storage_root registry_dsn_env) of Inl e \<Rightarrow> Inl e | Inr guard \<Rightarrow>
     (case guard_resolve (ce_libs E) (ce_ops E) guard model_id version of
        Inl e \<Rightarrow> Inl e
      | Inr None \<Rightarrow> Inr None
      | Inr (Some record) \<Rightarrow>
          map_sum id (\<lambda>revocation. Some (record, revocation)) (guard_is_revoked (ce_ops E) guard model_id version)))"

definition cli_resolve ::
    "'r cli_env \<Rightarrow> storage \<Rightarrow> string option \<Rightarrow> string \<Rightarrow> string \<Rightarrow> output_format \<Rightarrow> cli_result" where
  "cli_resolve E storage_root registry_dsn_env model_id version output_format =
     handled (ce_text E) output_format (resolve_body E storage_root registry_dsn_env model_id version) (\<lambda>found.
       case found of
         None \<Rightarrow> error_line (''Error: '' @ model_id @ ''@'' @ version @ '' is not registered'') exit_error
       | Some (record, revocation) \<Rightarrow>
           finished exit_ok
             (case output_format of
                JsonFormat \<Rightarrow>
                  [Json (JObj [(''model_id'', JStr (rr_model_id record)), (''version'', JStr (rr_version record)),
                     (''artifact_digest'', JStr (rr_artifact_digest record)), (''uri'', JStr (registry_uri record)),
                     (''revoked'', JBool (revocation \<noteq> None))])]
              | TextFormat \<Rightarrow>
                  [Line (''URI    : '' @ registry_uri record), Line (''Digest : '' @ rr_artifact_digest record),
                   Line (''Revoked: '' @ (case revocation of None \<Rightarrow> ''no'' | Some rv \<Rightarrow> ''YES - '' @ rv_reason rv))]))"

definition revoke_body ::
    "'r cli_env \<Rightarrow> storage \<Rightarrow> string option \<Rightarrow> string \<Rightarrow> string \<Rightarrow> string \<Rightarrow> string
       \<Rightarrow> exn + 'r model_guard \<times> revocation_record" where
  "revoke_body E storage_root registry_dsn_env model_id version actor reason =
     (case make_guard E (registry_options storage_root registry_dsn_env) of
        Inl e \<Rightarrow> Inl e
      | Inr guard \<Rightarrow> guard_revoke (ce_hash E) (ce_ops E) (ce_now E) guard model_id version actor reason)"

definition cli_revoke ::
    "'r cli_env \<Rightarrow> storage \<Rightarrow> string option \<Rightarrow> string \<Rightarrow> string \<Rightarrow> string \<Rightarrow> string \<Rightarrow> cli_result \<times> 'r model_guard option" where
  "cli_revoke E storage_root registry_dsn_env model_id version actor reason =
     (let body = revoke_body E storage_root registry_dsn_env model_id version actor reason
      in (handled (ce_text E) TextFormat body (\<lambda>_.
            finished exit_ok [Line (''Revoked '' @ model_id @ ''@'' @ version @ '': '' @ reason)]),
          changed True body))"

section \<open>Provenance\<close>

text \<open>\<open>ModelGuard(storage_root=storage_root)\<close>.\<close>

definition local_guard :: "storage \<Rightarrow> exn + 'r model_guard" where
  "local_guard storage_root = make_model_guard (Some storage_root) None None None None True"

definition edge_text :: "provenance_event \<Rightarrow> string" where
  "edge_text e = pe_subject_id e @ '' --'' @ pe_relationship e @ ''--> '' @ pe_object_id e"

text \<open>Neither command has a handler: what the store raises ends it with a traceback.\<close>

definition cli_lineage :: "storage \<Rightarrow> string \<Rightarrow> output_format \<Rightarrow> cli_result" where
  "cli_lineage storage_root model_id output_format =
     (case (case local_guard storage_root :: exn + unit model_guard of
              Inl e \<Rightarrow> Inl e | Inr guard \<Rightarrow> guard_lineage guard model_id) of
        Inl e \<Rightarrow> traceback e
      | Inr events \<Rightarrow>
          finished exit_ok
            (case output_format of
               JsonFormat \<Rightarrow>
                 [Json (JList (map (\<lambda>e. JObj [(''subject'', JStr (pe_subject_id e)), (''relationship'', JStr (pe_relationship e)),
                    (''object'', JStr (pe_object_id e))]) events))]
             | TextFormat \<Rightarrow>
                 (if events = [] then [Line (''No recorded lineage for '' @ model_id)] else [])
                 @ map (\<lambda>e. Line (edge_text e)) events))"

definition relationship_types :: "string list" where
  "relationship_types =
     [''DERIVED_FROM'', ''TRAINED_ON'', ''FINE_TUNED_FROM'', ''MERGED_FROM'', ''QUANTIZED_FROM'', ''EXPORTED_FROM'',
      ''PACKAGED_IN'', ''SIGNED_BY'', ''BUILT_BY'', ''EVALUATED_BY'', ''DEPLOYED_TO'', ''REVOKED_BY'']"

definition cli_provenance_record ::
    "unit cli_env \<Rightarrow> storage \<Rightarrow> string \<Rightarrow> string \<Rightarrow> string \<Rightarrow> string \<Rightarrow> cli_result \<times> unit model_guard option" where
  "cli_provenance_record E storage_root subject_id relationship object_id actor =
     (if relationship \<notin> set relationship_types then (fail (ce_text E) TextFormat ModelGuardError, None)
      else
        (let event = \<lparr>pe_subject_id = subject_id, pe_relationship = relationship, pe_object_id = object_id, pe_actor = actor,
               pe_evidence = ''DECLARED'', pe_event_id = ce_uuid E, pe_timestamp = ce_now E\<rparr>;
             body = (case local_guard storage_root of
                       Inl e \<Rightarrow> Inl e | Inr guard \<Rightarrow> guard_record_provenance (ce_hash E) guard event)
         in (case body of
               Inl e \<Rightarrow> traceback e
             | Inr _ \<Rightarrow> finished exit_ok [Line (''Recorded: '' @ edge_text event)],
             changed True body)))"

section \<open>The PostgreSQL registry\<close>

text \<open>The text of a list of integers.\<close>

definition int_list_text :: "int list \<Rightarrow> string" where
  "int_list_text xs = ''['' @ join '', '' (map int_str xs) @ '']''"

definition cli_registry_migrate ::
    "pg_env \<Rightarrow> pg_registry cli_env \<Rightarrow> string \<Rightarrow> cli_result \<times> pg_registry option" where
  "cli_registry_migrate D E dsn_env =
     (case registry_from_env E (Some dsn_env) of
        Inl e \<Rightarrow> (handled (ce_text E) TextFormat (Inl e) (\<lambda>_ :: unit. usage_error), None)
      | Inr None \<Rightarrow> (finished exit_ok [Line ''Schema is up to date.''], None)
      | Inr (Some reg) \<Rightarrow>
          (case migrate D reg of
             (r, reg') \<Rightarrow>
               (handled (ce_text E) TextFormat r (\<lambda>applied.
                  finished exit_ok
                    [Line (if applied \<noteq> [] then ''Applied migrations: '' @ int_list_text applied else ''Schema is up to date.'')]),
                Some reg')))"

definition cli_registry_verify_chain :: "pg_env \<Rightarrow> pg_registry cli_env \<Rightarrow> string \<Rightarrow> cli_result" where
  "cli_registry_verify_chain D E dsn_env =
     (let body = (case registry_from_env E (Some dsn_env) of
                    Inl e \<Rightarrow> Inl e
                  | Inr None \<Rightarrow> Inl ModelGuardError
                  | Inr (Some reg) \<Rightarrow> fst (verify_revocation_chain D reg))
      in case body of
           Inl e \<Rightarrow>
             if catches ChainIntegrityErrorC e then error_line (''TAMPERED: '' @ wd_exn (ce_text E) e) exit_denied
             else handled (ce_text E) TextFormat body (\<lambda>_. usage_error)
         | Inr _ \<Rightarrow> finished exit_ok [Line ''Revocation chain intact.''])"

section \<open>The trust file\<close>

fun status_counts :: "trusted_key list \<Rightarrow> (string \<times> int) list \<Rightarrow> (string \<times> int) list" where
  "status_counts [] counts = counts"
| "status_counts (key # ks) counts =
     (let st = status_value (tk_status key)
      in status_counts ks (AList.update st ((case map_of counts st of None \<Rightarrow> 0 | Some n \<Rightarrow> n) + 1) counts))"

definition time_json :: "wording \<Rightarrow> datetime option \<Rightarrow> json" where
  "time_json T t = opt_json (map_option (wd_isoformat T) t)"

definition key_json :: "wording \<Rightarrow> trusted_key \<Rightarrow> json" where
  "key_json T key =
     JObj [(''key_id'', JStr (tk_key_id key)), (''algorithm'', opt_json (tk_algorithm key)),
       (''status'', JStr (status_value (tk_status key))), (''not_before'', time_json T (tk_not_before key)),
       (''not_after'', time_json T (tk_not_after key)), (''signer_identity'', opt_json (tk_signer_identity key)),
       (''scope_model_id_patterns'', JList (map JStr (tk_scope key))), (''label'', opt_json (tk_label key))]"

definition key_line :: "trusted_key \<Rightarrow> string" where
  "key_line key =
     (let scoped = (if tk_scope key \<noteq> [] then '', scoped to '' @ list_repr (tk_scope key) else []);
          identity = (if truthy (tk_signer_identity key) then '', identity='' @ opt_repr (tk_signer_identity key) else []);
          label = (if truthy (tk_label key) then '' ('' @ shown (tk_label key) @ '')'' else [])
      in ''  '' @ tk_key_id key @ '' ['' @ status_value (tk_status key) @ '']'' @ identity @ scoped @ label)"

definition cli_trust_validate :: "'r cli_env \<Rightarrow> fs_node option \<Rightarrow> output_format \<Rightarrow> cli_result" where
  "cli_trust_validate E trust_file output_format =
     with_paths E [trust_file]
       (case load_trust_config_file (ce_libs E) trust_file of
          Inl e \<Rightarrow> if is_modelguard e then error_line (''Error: '' @ wd_exn (ce_text E) e) exit_error else traceback e
        | Inr config \<Rightarrow>
            (let counts = status_counts (tr_keys config) []
             in finished exit_ok
                  (case output_format of
                     JsonFormat \<Rightarrow>
                       [Json (JObj [(''version'', JStr (tr_version config)), (''key_count'', JInt (int (length (tr_keys config)))),
                          (''status_counts'', JObj (map (\<lambda>(st, n). (st, JInt n)) counts)),
                          (''keys'', JList (map (key_json (ce_text E)) (tr_keys config)))])]
                   | TextFormat \<Rightarrow>
                       [Line (''Trust configuration is valid (schema version '' @ tr_version config @ '').''),
                        Line (''Keys: '' @ nat_str (length (tr_keys config)))]
                       @ map (\<lambda>(st, n). Line (''  '' @ st @ '': '' @ int_str n)) (sort_key fst counts)
                       @ map (\<lambda>key. Line (key_line key)) (tr_keys config))))"

text \<open>\<open>_render_error\<close>.\<close>

definition problem_text :: "string list \<times> string \<Rightarrow> string" where
  "problem_text problem =
     (let loc = join ''.'' (fst problem) in (if loc = [] then ''<root>'' else loc) @ '': '' @ snd problem)"

definition render_error :: "wording \<Rightarrow> exn \<Rightarrow> string" where
  "render_error W e =
     (if catches ValidationErrorC e
      then ''invalid trust configuration ('' @ join ''; '' (map problem_text (take 8 (wd_problems W))) @ '')''
      else wd_exn W e)"

text \<open>
  How a command that changes the trust file ends, given its body's line and configuration and what saving did:
  of all errors, the program's own and pydantic's are caught, and \<open>StopIteration\<close> where a key is looked for.
\<close>

definition trust_ending :: "wording \<Rightarrow> string \<Rightarrow> exn + string \<times> trust_config \<Rightarrow> exn + unit \<Rightarrow> cli_result \<times> trust_config option" where
  "trust_ending W key_id body saved =
     (case (case body of Inl e \<Rightarrow> Inl e | Inr (line, config) \<Rightarrow>
             (case saved of Inl e \<Rightarrow> Inl e | Inr _ \<Rightarrow> Inr (line, config))) of
        Inr (line, config) \<Rightarrow> (finished exit_ok [Line line], Some config)
      | Inl e \<Rightarrow>
          (if catches StopIterationC e
           then error_line (''Error: No entry with fingerprint '' @ normalize_key_id key_id @ '' exists.'') exit_error
           else if is_modelguard e \<or> catches ValidationErrorC e then error_line (''Error: '' @ render_error W e) exit_error
           else traceback e, None))"

text \<open>\<open>path\<close> is the file's name as given, \<open>trust_file\<close> what it leads to; all but \<open>add-key\<close> need it to exist.\<close>

definition cli_trust_add_key ::
    "'r cli_env \<Rightarrow> string \<Rightarrow> fs_node option \<Rightarrow> key_options \<Rightarrow> exn + unit \<Rightarrow> cli_result \<times> trust_config option" where
  "cli_trust_add_key E path trust_file ko saved =
     trust_ending (ce_text E) (ko_key_id ko)
       (map_sum id (\<lambda>(entry, config). (''Added '' @ tk_key_id entry @ '' ['' @ status_value (tk_status entry) @ ''] to '' @ path @ ''.'', config))
          (add_key_body (ce_libs E)
             (if path_exists trust_file then Some (load_trust_config_file (ce_libs E) trust_file) else None) ko))
       saved"

definition cli_trust_retire_key ::
    "'r cli_env \<Rightarrow> string \<Rightarrow> fs_node option \<Rightarrow> string \<Rightarrow> string option \<Rightarrow> exn + unit \<Rightarrow> cli_result \<times> trust_config option" where
  "cli_trust_retire_key E path trust_file key_id not_after saved =
     (if \<not> ce_path_ok E trust_file then (usage_error, None)
      else trust_ending (ce_text E) key_id
        (map_sum id (\<lambda>(entry, config). (''Retired '' @ tk_key_id entry @ '' in '' @ path @ ''.'', config))
           (retire_key_body (ce_libs E) (load_trust_config_file (ce_libs E) trust_file) key_id not_after)) saved)"

definition cli_trust_revoke_key ::
    "'r cli_env \<Rightarrow> string \<Rightarrow> fs_node option \<Rightarrow> string \<Rightarrow> exn + unit \<Rightarrow> cli_result \<times> trust_config option" where
  "cli_trust_revoke_key E path trust_file key_id saved =
     (if \<not> ce_path_ok E trust_file then (usage_error, None)
      else trust_ending (ce_text E) key_id
        (map_sum id (\<lambda>(entry, config). (''Revoked '' @ tk_key_id entry @ '' in '' @ path @ ''.'', config))
           (revoke_key_body (ce_libs E) (load_trust_config_file (ce_libs E) trust_file) key_id)) saved)"

definition cli_trust_remove_key ::
    "'r cli_env \<Rightarrow> string \<Rightarrow> fs_node option \<Rightarrow> string \<Rightarrow> exn + unit \<Rightarrow> cli_result \<times> trust_config option" where
  "cli_trust_remove_key E path trust_file key_id saved =
     (if \<not> ce_path_ok E trust_file then (usage_error, None)
      else trust_ending (ce_text E) key_id
        (map_sum id (\<lambda>config. (''Removed '' @ normalize_key_id key_id @ '' from '' @ path @ ''.'', config))
           (remove_key_body (ce_libs E) (load_trust_config_file (ce_libs E) trust_file) key_id)) saved)"

section \<open>From the trust file to verification\<close>

lemma trust_ending_Some:
  "trust_ending W kid body saved = (res, Some c) \<Longrightarrow> exit_code (cr_ending res) = 0 \<and> (\<exists>line. body = Inr (line, c))"
  by (auto simp: trust_ending_def cli_simps exit_ok_def split: sum.splits if_splits)

text \<open>What the guard trusts has every key of the file, and no key twice.\<close>

lemma guard_trust_keys:
  assumes "guard_trust fingerprints (Some c) = Inr t"
  obtains m where "t = Some m" and "set (tr_keys c) \<subseteq> set (tr_keys m)" and "distinct (map tk_key_id (tr_keys m))"
proof -
  obtain configs m where m: "t = Some m" "merge_trust_configs configs = Inr m" "c \<in> set configs"
    using assms by (auto simp: guard_trust_def Let_def split: option.splits sum.splits if_splits)
  show thesis using merge_spec [of configs] m that by auto
qed

text \<open>
  C10. A key revoked on the command line is not accepted again: once \<open>trust revoke-key\<close> ended, whatever \<open>trust\<close>
  commands that do not remove the key change the file, \<open>verify --trust-config\<close> with that file never exits with 0
  for a signature that verifies under the key, whatever the other options; \<open>--trusted-fingerprint\<close> does not help.
\<close>

theorem revoked_key_never_verifies:
  assumes "cli_trust_revoke_key E name trust_file key_id saved = (res, Some c)"
    and "(trust_step (ce_libs E) removed)\<^sup>*\<^sup>* c c'" and "normalize_key_id key_id \<notin> removed"
    and "reads_times (ce_libs E)" and "holds_config (ce_libs E) b c'"
    and "ce_libs E' = ce_libs E" and "go_trust_config opts = Some (Some (FFile b))"
    and "load_envelope signature_file = Inr env"
    and "verify_envelope_signature (ce_hash E') (default_verifiers (ce_crypto E')) (\<not> go_reject_legacy opts) env = Inr chk"
    and "sc_key_fingerprint chk = normalize_key_id key_id"
  shows "exit_code (cr_ending res) = 0 \<and> exit_code (cr_ending (cli_verify E' opts path nd mbom_file signature_file fmt)) \<noteq> 0"
proof -
  obtain u where u: "revoke_key_body (ce_libs E) (load_trust_config_file (ce_libs E) trust_file) key_id = Inr (u, c)"
      and res: "exit_code (cr_ending res) = 0"
    using assms(1) by (auto simp: cli_trust_revoke_key_def map_sum_Inr_iff split: if_splits dest!: trust_ending_Some)
  obtain c0 where c0: "load_trust_config_file (ce_libs E) trust_file = Inr c0"
    using u by (cases "load_trust_config_file (ce_libs E) trust_file") (simp_all add: revoke_key_body_def)
  have "inactive (normalize_key_id key_id) c"
    using revoked_inactive [of "ce_libs E" c0 key_id u c] u c0 loaded_config_valid [OF c0] by simp
  then have i: "inactive (normalize_key_id key_id) c'" by (rule inactive_run [OF assms(2,3)])
  then have l: "load_trust_config_file (ce_libs E') (Some (FFile b)) = Inr c'"
    unfolding assms(6) by (intro saved_trust_config_loads [OF _ assms(4,5)]) (simp add: inactive_def)
  have False if z: "exit_code (cr_ending (cli_verify E' opts path nd mbom_file signature_file fmt)) = 0"
  proof -
    obtain g r where g: "make_guard E' opts = Inr g" "vr_allowed r"
        and v: "guard_verify (ce_hash E') (ce_crypto E') (ce_libs E') (ce_ops E') (ce_clock E') g path nd mbom_file signature_file = Inr r"
      using z by (auto simp: verify_code verify_body_def split: if_splits sum.splits)
    obtain bom where bom: "load_mbom (ce_libs E') mbom_file = Inr bom" by (rule guard_verify_InrE [OF v])
    have t: "guard_trust (if go_trusted opts = [] then None else Some (go_trusted opts)) (Some c') = Inr (mg_trust g)"
        and legacy: "mg_allow_legacy g = (\<not> go_reject_legacy opts)"
      using g(1) l assms(7) by (auto simp: make_guard_def make_model_guard_def split: sum.splits)
    obtain m where m: "mg_trust g = Some m" "set (tr_keys c') \<subseteq> set (tr_keys m)" "distinct (map tk_key_id (tr_keys m))"
      by (rule guard_trust_keys [OF t])
    have "te_trusted (evaluate_trust (sc_key_fingerprint chk) (sc_algorithm chk) m (Some (sp_signer_identity (se_payload env)))
        (sp_model_id (se_payload env)) (ce_clock E'))"
      using allowed_iff [OF v bom assms(8)] g(2) m(1) assms(9) by (auto simp: legacy)
    moreover obtain k where "k \<in> set (tr_keys m)" "tk_key_id k = normalize_key_id key_id" "tk_status k \<noteq> ActiveKey"
      using i m(2) by (auto simp: inactive_def)
    ultimately show False using inactive_untrusted [OF _ _ _ m(3)] assms(10) by metis
  qed
  then show ?thesis using res by blast
qed

section \<open>One process after another\<close>

text \<open>A process that connects to the database: the schema is checked again.\<close>

definition on_database ::
    "(string \<Rightarrow> string dict option) \<Rightarrow> pg_env \<Rightarrow> pg_registry \<Rightarrow> pg_registry cli_env \<Rightarrow> pg_registry cli_env" where
  "on_database parse D db E =
     E\<lparr>ce_ops := postgres_ops D, ce_postgres := Some (\<lambda>dsn. make_postgres_registry parse dsn False db)\<rparr>"

lemma connected_schema:
  "(\<And>s. pg_schema (snd (body s)) = pg_schema s) \<Longrightarrow> pg_schema (snd (connected D check body s)) = pg_schema s"
  by (auto simp: connected_def split: option.splits sum.splits)

lemma pg_step_schema: "pg_schema (pg_step D s op) = pg_schema s"
  by (cases op)
    (auto simp: pg_register_def pg_revoke_def pg_unrevoke_def pg_append_event_def pg_insert_row_def pg_insert_event_def
      insert_event_after_def Let_def split: sum.splits option.splits intro!: connected_schema)

lemma pg_run_schema: "pg_schema (pg_run D s ops) = pg_schema s"
  by (induction ops arbitrary: s) (simp_all add: pg_run_def pg_step_schema)

lemma verify_schema_cong: "pg_schema s = pg_schema t \<Longrightarrow> verify_schema D s = verify_schema D t"
  by (simp add: verify_schema_def)

text \<open>What a fresh connection finds is what the last one left.\<close>

lemma reconnected_rep:
  assumes "pg_rep D s regs evs" and "verify_schema D s = Inr ()"
  shows "pg_rep D (s\<lparr>pg_schema_verified := False\<rparr>) regs evs"
  using assms verify_schema_cong [of "s\<lparr>pg_schema_verified := False\<rparr>" s D] by (simp add: pg_rep_def ready_def)

lemma later_process_sees_revocation:
  assumes "pg_rep D (db\<lparr>pg_schema_verified := False\<rparr>) regs evs"
    and "pg_revoke D rv (db\<lparr>pg_schema_verified := False\<rparr>) = (Inr (), db')"
    and "\<forall>op \<in> set ops. \<forall>now a reason. op \<noteq> Unrevoke now (rv_model_id rv) (rv_version rv) a reason"
  shows "\<exists>rv'. fst (pg_is_revoked D (rv_model_id rv) (rv_version rv) ((pg_run D db' ops)\<lparr>pg_schema_verified := False\<rparr>)) = Inr (Some rv')"
proof -
  let ?db = "db\<lparr>pg_schema_verified := False\<rparr>"
  have "db' = pg_step D ?db (Revoke rv)" using assms(2) by simp
  then have sch: "pg_schema (pg_run D db' ops) = pg_schema ?db" by (simp only: pg_run_schema pg_step_schema)
  obtain regs' evs' where r: "pg_rep D (pg_run D db' ops) regs' evs'"
    using pg_run_rep [OF assms(1), of "Revoke rv # ops"] assms(2) by (auto simp: pg_run_def)
  have "verify_schema D ?db = Inr ()" using assms(1) by (simp add: pg_rep_def ready_def)
  then have "verify_schema D (pg_run D db' ops) = Inr ()" using verify_schema_cong [OF sch] by simp
  from pg_is_revoked_eq [OF reconnected_rep [OF r this]] pg_is_revoked_eq [OF r]
  have "fst (pg_is_revoked D m v ((pg_run D db' ops)\<lparr>pg_schema_verified := False\<rparr>)) = fst (pg_is_revoked D m v (pg_run D db' ops))"
    for m v by simp
  then show ?thesis using pg_revocation_stays [OF assms] by simp
qed

text \<open>
  C8. A revocation made on the command line binds every later process: once \<open>revoke --registry-dsn-env\<close> ended,
  \<open>verify --registry-dsn-env\<close> on that database never exits with 0 for an artifact signed as that version, whatever
  registrations and revocations come between, until the revocation is lifted.
\<close>

theorem revoke_binds_later_processes:
  assumes "pg_rep D (db\<lparr>pg_schema_verified := False\<rparr>) regs evs"
    and "cli_revoke (on_database parse D db E) storage_root (Some var) m v actor reason = (res, Some g)"
    and "mg_injected g = Some db'"
    and "\<forall>op \<in> set ops. \<forall>now a q. op \<noteq> Unrevoke now m v a q"
    and "load_envelope signature_file = Inr env" and "sp_model_id (se_payload env) = Some m" and "sp_version (se_payload env) = Some v"
    and "go_registry_dsn_env opts = Some var'"
  shows "exit_code (cr_ending res) = 0
    \<and> exit_code (cr_ending (cli_verify (on_database parse' D (pg_run D db' ops) E') opts path nd mbom_file signature_file fmt)) \<noteq> 0"
proof
  let ?E = "on_database parse D db E" and ?E' = "on_database parse' D (pg_run D db' ops) E'"
  obtain g0 rv where b: "revoke_body ?E storage_root (Some var) m v actor reason = Inr (g, rv)"
      "make_guard ?E (registry_options storage_root (Some var)) = Inr g0"
      "guard_revoke (ce_hash ?E) (ce_ops ?E) (ce_now ?E) g0 m v actor reason = Inr (g, rv)"
    using assms(2) by (auto simp: cli_revoke_def Let_def changed_def revoke_body_def split: sum.splits if_splits)
  show "exit_code (cr_ending res) = 0"
    using assms(2) b(1) by (auto simp: cli_revoke_def Let_def cli_simps exit_ok_def)
  have "registry_from_env ?E (Some var) = Inr (mg_injected g0)"
    by (rule make_guardE [OF b(2)]) (simp add: registry_options_def)
  then have g0: "mg_injected g0 = Some (db\<lparr>pg_schema_verified := False\<rparr>)"
    by (elim registry_from_env_Some) (auto simp: on_database_def make_postgres_registry_def split: sum.splits)
  have rev: "rv_model_id rv = m" "rv_version rv = v" "pg_revoke D rv (db\<lparr>pg_schema_verified := False\<rparr>) = (Inr (), db')"
    using b(3) g0 assms(3)
    by (auto simp: guard_revoke_def Let_def change_registry_def on_database_def postgres_ops_def outcome_def split: sum.splits prod.splits)
  obtain rv' where found: "fst (pg_is_revoked D m v ((pg_run D db' ops)\<lparr>pg_schema_verified := False\<rparr>)) = Inr (Some rv')"
    using later_process_sees_revocation [OF assms(1) rev(3), of ops] assms(4) rev(1,2) by auto
  have names: "m \<noteq> []" "v \<noteq> []"
    using rev by (auto simp: pg_revoke_def pg_append_event_def validate_identifier_eq split: if_splits dest: valid_identifier_text(2))
  have "\<not> vr_allowed r"
    if "make_guard ?E' opts = Inr g1"
      and v: "guard_verify (ce_hash ?E') (ce_crypto ?E') (ce_libs ?E') (ce_ops ?E') (ce_clock ?E') g1 path nd mbom_file signature_file = Inr r"
    for g1 r
  proof -
    have "registry_from_env ?E' (Some var') = Inr (mg_injected g1)"
      by (rule make_guardE [OF that(1)]) (simp add: assms(8))
    then have g1: "mg_injected g1 = Some ((pg_run D db' ops)\<lparr>pg_schema_verified := False\<rparr>)"
      by (elim registry_from_env_Some) (auto simp: on_database_def make_postgres_registry_def split: sum.splits)
    have "revocation_check (ce_ops ?E') g1 (se_payload env) = Inr (True, Some rv')"
      using postgres_revocation_check [OF g1 assms(6,7) names, of D] found by (simp add: on_database_def)
    then show ?thesis using guard_verify_revocation [OF v assms(5)] by auto
  qed
  then show "exit_code (cr_ending (cli_verify ?E' opts path nd mbom_file signature_file fmt)) \<noteq> 0"
    by (auto simp: verify_code verify_body_def split: sum.splits if_splits)
qed

lemma make_local_guard:
  "make_guard E (registry_options storage_root None) =
     Inr \<lparr>mg_allow_legacy = True, mg_storage = Some storage_root, mg_injected = None, mg_hasher = None, mg_trust = None\<rparr>"
  by (simp add: make_guard_def registry_options_def registry_from_env_def make_model_guard_def guard_trust_def)

text \<open>
  C15. What is registered is what resolves: once \<open>register\<close> ended on the local registry, \<open>resolve\<close> of the manifest's
  name and version exits with 0 and prints the manifest's digest, in every later process, whatever is registered,
  revoked or restored in between.
\<close>

theorem registered_digest_resolves:
  assumes "local_rep (ce_hash E) (so_registry storage_root) regs evs"
    and "cli_register E storage_root None manifest_file mbom_file actor = (res, Some g)" and "mg_storage g = Some st"
    and "load_manifest E manifest_file = Inr man"
  shows "\<exists>m v revoked. m_model_id man = Some m \<and> m_version man = Some v \<and> exit_code (cr_ending res) = 0
    \<and> cli_resolve E' (st\<lparr>so_registry := foldl (local_step (ce_hash E)) (so_registry st) ops\<rparr>) None m v JsonFormat
      = finished 0 [Json (JObj [(''model_id'', JStr m), (''version'', JStr v),
          (''artifact_digest'', JStr (m_algorithm man @ '':'' @ m_digest man)),
          (''uri'', JStr (''model://'' @ m @ ''@'' @ m_algorithm man @ '':'' @ m_digest man)), (''revoked'', JBool revoked)])]"
proof -
  let ?H = "ce_hash E" and ?later = "foldl (local_step (ce_hash E)) (so_registry st) ops"
  obtain r where b: "register_body E storage_root None manifest_file mbom_file actor = Inr (g, r)"
      and res: "exit_code (cr_ending res) = 0"
    using assms(2) by (auto simp: cli_register_def Let_def changed_def cli_simps exit_ok_def split: sum.splits if_splits)
  then have ids: "truthy (m_model_id man)" "truthy (m_version man)"
      and r: "rr_model_id r = the (m_model_id man)" "rr_version r = the (m_version man)"
        "rr_artifact_digest r = m_algorithm man @ '':'' @ m_digest man"
      and reg: "local_register (so_registry storage_root) r = Inr (so_registry st)"
    using assms(3,4)
    by (auto simp: register_body_def make_local_guard guard_register_def Let_def change_registry_def require_storage_root_def
        split: sum.splits if_splits)
  obtain regs' where s: "local_get (ce_libs E') (so_registry st) (rr_model_id r) (rr_version r) = Inr (Some r)" "local_rep ?H (so_registry st) regs' evs"
    using local_reg.register_then_get [OF assms(1) reg] by blast
  have got: "local_get (ce_libs E') ?later (rr_model_id r) (rr_version r) = Inr (Some r)"
    unfolding local_step_eq by (rule local_reg.registration_permanent [OF s(2,1)])
  obtain regs2 evs2 where "local_rep ?H ?later regs2 evs2"
    using local_reg.run_rep [OF s(2)] unfolding local_step_eq by blast
  then have "local_get (ce_libs E') ?later (rr_model_id r) (rr_version r) = spec_get regs2 (rr_model_id r) (rr_version r)"
      and "local_is_revoked ?later (rr_model_id r) (rr_version r) = spec_is_revoked evs2 (rr_model_id r) (rr_version r)"
    by (simp_all add: local_reg.get_spec local_reg.is_revoked_spec)
  then obtain rv where rv: "local_is_revoked ?later (rr_model_id r) (rr_version r) = Inr rv"
    using got by (auto simp: spec_get_def spec_is_revoked_def checked_def split: if_splits)
  obtain m v where mv: "m_model_id man = Some m" "m_version man = Some v"
    using ids by (auto simp: truthy_def split: option.splits)
  have "resolve_body E' (st\<lparr>so_registry := ?later\<rparr>) None m v = Inr (Some (r, rv))"
    using got rv mv r
    by (simp add: resolve_body_def make_local_guard guard_resolve_def guard_is_revoked_def on_registry_def require_storage_root_def)
  then show ?thesis
    using mv r res by (auto simp: cli_resolve_def handled_def exit_ok_def registry_uri_def)
qed

section \<open>Examples\<close>

definition demo_storage :: storage where
  "demo_storage = \<lparr>so_registry = empty_registry, so_provenance = None\<rparr>"

definition demo_pg_cli :: "pg_registry cli_env" where
  "demo_pg_cli = demo_env_on (postgres_ops demo_env) (\<lambda>_. Inl RegistryBackendError)"

definition demo_dsn :: "string \<Rightarrow> string dict option" where
  "demo_dsn dsn = Some [(''host'', ''localhost'')]"

lemma demo_dsn_accepted: "check_dsn demo_dsn dsn allow = Inr ()"
  by (simp add: check_dsn_def demo_dsn_def truthy_def is_remote_def local_hosts_def py_strip_def is_space_def)

theorem revoke_binds_later_processes_witness:
  "\<exists>res g. cli_revoke (on_database demo_dsn demo_env (migrated demo_env) demo_pg_cli) demo_storage (Some ''DSN'') ''demo'' ''1'' ''sec'' ''bad''
       = (res, Some g)
     \<and> exit_code (cr_ending res) = 0
     \<and> exit_code (cr_ending (cli_verify (on_database demo_dsn demo_env (pg_run demo_env (the (mg_injected g)) []) demo_pg_cli) demo_options
          [''m.bin''] demo_artifact demo_mbom_file demo_signature TextFormat)) \<noteq> 0"
proof -
  let ?db = "migrated demo_env :: pg_registry"
  have "?db\<lparr>pg_schema_verified := False\<rparr> = ?db"
    by (simp add: migrated_def new_database_def migrate_def connected_def Let_def check_checksums_def demo_env_def)
  then have rep: "pg_rep demo_env (?db\<lparr>pg_schema_verified := False\<rparr>) [] []" using migrated_rep [OF demo_env_facts] by simp
  have "spec_append [] (Revoked sample_revocation) = Inr [Revoked sample_revocation]"
    by (simp add: spec_append_def checked_two sample_valid sample_revocation_def)
  then have "fst (pg_revoke demo_env sample_revocation (?db\<lparr>pg_schema_verified := False\<rparr>)) = Inr ()"
    using pg_revoke_refines(1) [OF rep, of sample_revocation] by (simp add: sample_revocation_def pg_text_def)
  then obtain db' where db': "pg_revoke demo_env sample_revocation (?db\<lparr>pg_schema_verified := False\<rparr>) = (Inr (), db')"
    by (cases "pg_revoke demo_env sample_revocation (?db\<lparr>pg_schema_verified := False\<rparr>)") auto
  obtain res g where c: "cli_revoke (on_database demo_dsn demo_env ?db demo_pg_cli) demo_storage (Some ''DSN'') ''demo'' ''1'' ''sec'' ''bad''
       = (res, Some g)" "mg_injected g = Some db'"
    using db'
    by (simp add: cli_revoke_def Let_def changed_def revoke_body_def make_guard_def registry_options_def registry_from_env_def on_database_def
        make_postgres_registry_def demo_dsn_accepted make_model_guard_def guard_trust_def guard_revoke_def change_registry_def
        postgres_ops_def demo_pg_cli_def demo_env_on_def sample_revocation_def)
  have "load_envelope demo_signature = Inr demo_envelope" by (rule demo_loads)
  from revoke_binds_later_processes [OF rep c, where ops = "[]" and opts = demo_options, OF _ this demo_payload] c show ?thesis
    by (auto simp: demo_options_def)
qed

definition demo_manifest_file :: "fs_node option" where
  "demo_manifest_file = Some (FFile (dumps (drop_none (manifest_fields demo_manifest))))"

lemma demo_files_exist: "path_exists demo_manifest_file" "path_exists demo_bom_file"
  by (simp_all add: demo_manifest_file_def demo_bom_file_def path_exists_def)

theorem registered_digest_resolves_witness:
  "\<exists>res g st revoked. cli_register (demo_cli None) demo_storage None demo_manifest_file demo_bom_file ''ci'' = (res, Some g)
     \<and> mg_storage g = Some st
     \<and> cli_resolve (demo_cli None) st None ''demo'' ''1'' JsonFormat
      = finished 0 [Json (JObj [(''model_id'', JStr ''demo''), (''version'', JStr ''1''),
          (''artifact_digest'', JStr (''sha256:'' @ sample_fingerprint)),
          (''uri'', JStr (''model://demo@sha256:'' @ sample_fingerprint)), (''revoked'', JBool revoked)])]"
proof -
  have man: "load_manifest (demo_cli None) demo_manifest_file = Inr demo_manifest"
    by (simp add: load_manifest_def demo_manifest_file_def read_written_json [OF wf_manifest_fields]
        manifest_of_dump [OF built_manifest_valid [OF demo_manifest]])
  have b: "load_mbom (ce_libs (demo_cli None)) demo_bom_file = Inr demo_bom"
    unfolding demo_bom_file_def by (rule load_written_mbom)
  have digest: "valid_record_digest (''sha256:'' @ sample_fingerprint)" by code_simp
  obtain res g st where c: "cli_register (demo_cli None) demo_storage None demo_manifest_file demo_bom_file ''ci'' = (res, Some g)"
      "mg_storage g = Some st"
    using man b digest [unfolded append.simps]
    by (simp add: cli_register_def Let_def changed_def register_body_def make_local_guard guard_register_def change_registry_def
        require_storage_root_def demo_storage_def demo_manifest_def built_manifest_def truthy_def local_register_eq
        valid_record_def valid_manifest_def checked_two sample_valid empty_registry_def demo_cli_def [of None] demo_env_on_def demo_files_exist)
  from registered_digest_resolves [OF _ c man, where regs = "[]" and evs = "[]" and E' = "demo_cli None" and ops = "[]"] empty_rep c show ?thesis
    by (auto simp: demo_storage_def demo_manifest_def built_manifest_def)
qed

text \<open>Timestamps in unary.\<close>

definition unary_libs :: libs where
  "unary_libs = sample_libs
     \<lparr>lb_time := \<lambda>t. replicate (nat (instant t)) (CHR ''+'') @ replicate (nat (- instant t)) (CHR ''-''),
      lb_datetime := \<lambda>j. case j of
          JStr s \<Rightarrow> Some (Aware (if list_all (\<lambda>c. c = CHR ''+'') s then int (length s) else - int (length s)))
        | _ \<Rightarrow> None\<rparr>"

lemma unary_reads_times: "reads_times unary_libs"
proof -
  have "lb_datetime unary_libs (JStr (lb_time unary_libs (Aware i))) = Some (Aware i)" for i
    by (cases "i < 0") (auto simp: unary_libs_def list_all_iff)
  then show ?thesis by (auto simp: reads_times_def elim!: is_aware.elims)
qed

definition listed_key :: "key_status \<Rightarrow> trust_config" where
  "listed_key st = \<lparr>tr_version = ''1'', tr_keys = [(trusted_entry sample_fingerprint)\<lparr>tk_status := st\<rparr>]\<rparr>"

lemma listed_key_valid: "valid_config (listed_key st)"
  by (simp add: listed_key_def valid_config_def trusted_entry_def valid_entry_def sample_fingerprint_hex opt_all_def max_scope_patterns_def)

lemma listed_key_saved:
  "holds_config unary_libs (dumps (trust_document unary_libs (listed_key st))) (listed_key st)"
proof -
  let ?j = "trust_document unary_libs (listed_key st)"
  have "length (dumps ?j) \<le> 300"
    by (induction st) code_simp+
  moreover have "wf_json ?j"
    by (induction st) code_simp+
  ultimately show ?thesis
    by (auto simp: holds_config_def max_trust_config_bytes_def dumps_ascii loads_dumps unary_libs_def sample_libs_yaml)
qed

lemma listed_key_revoked:
  "revoke_key_body unary_libs (Inr (listed_key ActiveKey)) sample_fingerprint
     = Inr (hd (tr_keys (listed_key RevokedKey)), listed_key RevokedKey)"
  by code_simp

theorem revoked_key_never_verifies_witness:
  "\<exists>res c. cli_trust_revoke_key ((demo_cli None)\<lparr>ce_libs := unary_libs\<rparr>) ''trust.yaml''
       (Some (FFile (dumps (trust_document unary_libs (listed_key ActiveKey))))) sample_fingerprint (Inr ()) = (res, Some c)
     \<and> exit_code (cr_ending res) = 0
     \<and> exit_code (cr_ending (cli_verify ((demo_cli None)\<lparr>ce_libs := unary_libs\<rparr>)
          (demo_options\<lparr>go_trusted := [], go_trust_config := Some (Some (FFile (dumps (trust_document unary_libs c))))\<rparr>)
          [''m.bin''] demo_artifact demo_bom_file demo_signed_file TextFormat)) \<noteq> 0"
proof -
  let ?E = "(demo_cli None)\<lparr>ce_libs := unary_libs\<rparr>" and ?f = "Some (FFile (dumps (trust_document unary_libs (listed_key ActiveKey))))"
  have "load_trust_config_file unary_libs ?f = Inr (listed_key ActiveKey)"
    by (rule saved_trust_config_loads [OF listed_key_valid unary_reads_times listed_key_saved])
  then obtain res where r: "cli_trust_revoke_key ?E ''trust.yaml'' ?f sample_fingerprint (Inr ()) = (res, Some (listed_key RevokedKey))"
    by (simp add: cli_trust_revoke_key_def listed_key_revoked trust_ending_def demo_cli_def demo_env_on_def path_exists_def)
  have n: "normalize_key_id sample_fingerprint \<notin> {}" by simp
  have v: "verify_envelope_signature (ce_hash ?E) (default_verifiers (ce_crypto ?E)) allow demo_signed_env = Inr
      \<lparr>sc_algorithm = algorithm_ed25519, sc_key_fingerprint = sample_fingerprint, sc_format_version = ''2'', sc_key_bound = True\<rparr>" for allow
    using local_envelope_verifies [OF demo_usable, of demo_hash] by (simp add: demo_signed_env_def demo_cli_def demo_env_on_def demo_hash_def)
  have l: "reads_times (ce_libs ?E)" "holds_config (ce_libs ?E) (dumps (trust_document unary_libs (listed_key RevokedKey))) (listed_key RevokedKey)"
    by (simp_all add: unary_reads_times listed_key_saved)
  from revoked_key_never_verifies [OF r rtranclp.rtrancl_refl n l refl _ demo_signed_file(1) v, of
      "demo_options\<lparr>go_trusted := [], go_trust_config := Some (Some (FFile (dumps (trust_document unary_libs (listed_key RevokedKey)))))\<rparr>"
      "[''m.bin'']" demo_artifact demo_bom_file TextFormat] r show ?thesis
    by (auto simp: normalize_hex [OF sample_fingerprint_hex])
qed

end
