(* ===== verification/Cli_Artifact.thy ===== *)
theory Cli_Artifact
  imports Cli Round_Trip S3
begin

text \<open>
  \<open>artifact push\<close> and \<open>artifact pull\<close> (\<open>cli/main.py\<close>): the store the options name, and moving an artifact
  to it and back.  A store is its operations with its state, so that either kind can be used.
\<close>

section \<open>The store\<close>

record store_options =
  st_bucket :: "string option"
  st_prefix :: string
  st_endpoint_url :: "string option"
  st_region :: "string option"
  st_local_store :: "string option"

text \<open>
  What \<open>_blob_store\<close> needs from outside: the store in a local directory, and the S3 store, which is
  \<open>None\<close> without the extra.
\<close>

record 's store_env =
  se_local :: "string \<Rightarrow> 's"
  se_s3 :: "(string \<Rightarrow> string \<Rightarrow> string option \<Rightarrow> string option \<Rightarrow> exn + 's) option"

definition blob_store_of :: "'s store_env \<Rightarrow> store_options \<Rightarrow> exn + 's" where
  "blob_store_of S opts =
     (if (st_bucket opts = None) = (st_local_store opts = None) then Inl ModelGuardError
      else (case st_local_store opts of
          Some dir \<Rightarrow> Inr (se_local S dir)
        | None \<Rightarrow>
            (case se_s3 S of
               None \<Rightarrow> Inl ModelGuardError
             | Some connect \<Rightarrow> connect (the (st_bucket opts)) (st_prefix opts) (st_endpoint_url opts) (st_region opts))))"

section \<open>The commands\<close>

text \<open>The lines of a command that also prints to the error stream.\<close>

definition finished_with :: "printed list \<Rightarrow> printed list \<Rightarrow> cli_result" where
  "finished_with out err = \<lparr>cr_ending = Exit exit_ok, cr_out = out, cr_err = err, cr_document = None\<rparr>"

definition cli_push ::
    "'r cli_env \<Rightarrow> 's store_env \<Rightarrow> 's blob_ops \<Rightarrow> store_options \<Rightarrow> string list \<Rightarrow> fs_node option \<Rightarrow> fs_node option
       \<Rightarrow> cli_result \<times> 's option" where
  "cli_push E S ops opts path nd later =
     (if \<not> ce_path_ok E nd then (usage_error, None)
      else (case blob_store_of S opts of
          Inl e \<Rightarrow> (handled (ce_text E) TextFormat (Inl e) (\<lambda>_ :: unit. usage_error), None)
        | Inr s \<Rightarrow>
            (case upload_artifact (ce_hash E) ops s path nd later of
               (r, s') \<Rightarrow>
                 (handled (ce_text E) TextFormat r (\<lambda>d.
                    finished_with [Line (''sha256:'' @ ad_digest d)] [Line (''type: '' @ ad_type d)]), Some s'))))"

text \<open>\<open>max_total_bytes or DEFAULT_MAX_TOTAL_BYTES\<close>: a limit of zero counts as none given.\<close>

definition or_default :: "int option \<Rightarrow> int \<Rightarrow> int" where
  "or_default given d = (case given of None \<Rightarrow> d | Some n \<Rightarrow> if n = 0 then d else n)"

definition pull_body ::
    "'r cli_env \<Rightarrow> 's store_env \<Rightarrow> 's blob_ops \<Rightarrow> store_options \<Rightarrow> string \<Rightarrow> string \<Rightarrow> string list \<Rightarrow> fs_node option
       \<Rightarrow> int option \<Rightarrow> int option \<Rightarrow> exn + fs_node" where
  "pull_body E S ops opts digest artifact_type dest at_dest max_total_bytes max_files =
     (case blob_store_of S opts of
        Inl e \<Rightarrow> Inl e
      | Inr s \<Rightarrow>
          fst (download_artifact (ce_hash E) ops s digest artifact_type dest at_dest
                 (or_default max_total_bytes default_max_total_bytes) (or_default max_files default_max_files) True))"

text \<open>The value is how the command ends and what is at the destination after it.\<close>

definition cli_pull ::
    "'r cli_env \<Rightarrow> 's store_env \<Rightarrow> 's blob_ops \<Rightarrow> store_options \<Rightarrow> string \<Rightarrow> string list \<Rightarrow> fs_node option \<Rightarrow> string
       \<Rightarrow> int option \<Rightarrow> int option \<Rightarrow> cli_result \<times> fs_node option" where
  "cli_pull E S ops opts digest dest at_dest artifact_type max_total_bytes max_files =
     (if artifact_type \<notin> {''file'', ''directory''} then (usage_error, at_dest)
      else
        (let body = pull_body E S ops opts digest artifact_type dest at_dest max_total_bytes max_files
         in case body of
              Inl e \<Rightarrow>
                (if catches ArtifactIntegrityErrorC e then error_line (''Error: '' @ wd_exn (ce_text E) e) exit_denied
                 else handled (ce_text E) TextFormat body (\<lambda>_. usage_error), at_dest)
            | Inr nd \<Rightarrow>
                (finished exit_ok [Line (''Downloaded and verified '' @ digest @ '' -> '' @ path_str dest)], Some nd)))"

section \<open>What a pull leaves\<close>

text \<open>
  C25. What \<open>artifact pull\<close> leaves at the destination is the artifact asked for or what was there before: with
  exit code 0, whatever the bucket answered, hashing it gives the digest and type on the command line and its
  files keep the limits; with any other exit code nothing changed.
\<close>

theorem pull_all_or_nothing:
  assumes "cli_pull E S (s3_blobs (ce_hash E) cl) opts digest dest at_dest artifact_type max_total_bytes max_files = (res, after)"
  shows "if exit_code (cr_ending res) = 0
    then (\<exists>nd d. after = Some nd \<and> hash_artifact (ce_hash E) dest after = Inr d \<and> ''sha256:'' @ ad_digest d = digest
           \<and> ad_type d = artifact_type
           \<and> (\<Sum>(p, b) \<leftarrow> contents [] nd. int (length b)) \<le> max 0 (or_default max_total_bytes default_max_total_bytes))
    else after = at_dest"
proof (cases "pull_body E S (s3_blobs (ce_hash E) cl) opts digest artifact_type dest at_dest max_total_bytes max_files")
  case (Inl e)
  then show ?thesis
    using assms by (auto simp: cli_pull_def Let_def cli_simps exit_codes split: if_splits)
next
  case (Inr nd)
  then obtain s s' where d: "download_artifact (ce_hash E) (s3_blobs (ce_hash E) cl) s digest artifact_type dest at_dest
      (or_default max_total_bytes default_max_total_bytes) (or_default max_files default_max_files) True = (Inr nd, s')"
    by (auto simp: pull_body_def fst_def split: sum.splits prod.splits)
  then show ?thesis
    using assms Inr s3.download_Inr(1,2) [OF d] by (auto simp: cli_pull_def Let_def cli_simps exit_codes split: if_splits)
qed

text \<open>A limit of zero given on the command line does not limit anything: the default takes its place.\<close>

lemma zero_limit_is_default:
  "pull_body E S ops opts digest artifact_type dest at_dest (Some 0) (Some 0)
     = pull_body E S ops opts digest artifact_type dest at_dest None None"
  by (simp add: pull_body_def or_default_def split: sum.split)

section \<open>Examples\<close>

definition toy_stores :: "unit s3_store store_env" where
  "toy_stores = \<lparr>se_local = \<lambda>_. toy_bucket, se_s3 = Some (\<lambda>_ _ _ _. Inr toy_bucket)\<rparr>"

definition toy_options :: store_options where
  "toy_options = \<lparr>st_bucket = Some ''b'', st_prefix = [], st_endpoint_url = None, st_region = None, st_local_store = None\<rparr>"

theorem pull_all_or_nothing_witness:
  "\<exists>res. cli_pull ((demo_cli None)\<lparr>ce_hash := \<lambda>_. toy_sha\<rparr>) toy_stores (s3_blobs (\<lambda>_. toy_sha) constant_client) toy_options
       (''sha256:'' @ toy_sha) [''d''] None ''file'' (Some 5) (Some 1) = (res, Some (FFile ''ab''))
     \<and> exit_code (cr_ending res) = 0
     \<and> (\<exists>d. hash_artifact (\<lambda>_. toy_sha) [''d''] (Some (FFile ''ab'')) = Inr d \<and> ''sha256:'' @ ad_digest d = ''sha256:'' @ toy_sha)"
proof -
  let ?E = "(demo_cli None)\<lparr>ce_hash := \<lambda>_. toy_sha\<rparr>"
  obtain res where c: "cli_pull ?E toy_stores (s3_blobs (ce_hash ?E) constant_client) toy_options (''sha256:'' @ toy_sha) [''d''] None ''file''
      (Some 5) (Some 1) = (res, Some (FFile ''ab''))" "exit_code (cr_ending res) = 0"
    using toy_download
    by (simp add: cli_pull_def Let_def pull_body_def blob_store_of_def toy_stores_def toy_options_def or_default_def cli_simps exit_ok_def)
  from pull_all_or_nothing [OF c(1)] c show ?thesis by auto
qed

end
